theory Spec2Isabelle
  imports Main "HOL-Library.Word"
begin

unbundle bit_operations_syntax

section \<open>The vmd per-guest process core (usr.sbin/vmd/vm.c)\<close>

text \<open>
  The development embeds the parts of \<^verbatim>\<open>vm.c\<close> that allocate and remap guest
  memory, create the VM, pause it, dump and restore it for migration, and run a VCPU
  thread. System calls, ioctls on vmm(4) and pthread operations are external: their
  results are supplied by an environment (an oracle), and what the code does with each
  result is modelled branch by branch. \<^verbatim>\<open>fatal\<close>/\<^verbatim>\<open>fatalx\<close> end the process and are a
  value of the result type.
\<close>

subsection \<open>Data model\<close>

type_synonym byte = "8 word"
type_synonym vaddr = "64 word"
type_synonym paddr = "64 word"
type_synonym size_t = "64 word"

text \<open>
  The header \<^verbatim>\<open>dev/vmm/vmm.h\<close> is not part of the sources at hand. Modelled from the
  spec: a memory range has a type, RAM or memory-mapped I/O. The code only ever compares
  the type with \<^verbatim>\<open>VM_MEM_MMIO\<close>.
\<close>

datatype vmr_kind = VM_MEM_RAM | VM_MEM_MMIO

record vm_mem_range =
  vmr_gpa :: paddr
  vmr_size :: size_t
  vmr_va :: vaddr
  vmr_type :: vmr_kind

text \<open>
  \<^verbatim>\<open>struct vm_create_params\<close>: the counts are \<^verbatim>\<open>size_t\<close> values that are only
  compared, so they are naturals. \<^verbatim>\<open>vcp_memranges\<close> is a C array of
  \<^verbatim>\<open>VMM_MAX_MEM_RANGES\<close> elements; it is a list here, and an index at or beyond its
  length is an access out of bounds in C (undefined behaviour). \<^verbatim>\<open>alloc_guest_mem\<close>
  runs before \<^verbatim>\<open>vcp_nmemranges\<close> has been checked against the size of the array, so
  its model has that access as an outcome of its own. The other loops over the ranges run
  after the check in \<^verbatim>\<open>vmm_create_vm\<close>; the theorems about them exclude the access by
  the hypothesis \<open>vcp_nmemranges vcp \<le> length (vcp_memranges vcp)\<close>.
\<close>

record vm_create_params =
  vcp_nmemranges :: nat
  vcp_ncpus :: nat
  vcp_memranges :: "vm_mem_range list"
  vcp_id :: "32 word"
  vcp_asid :: "32 word list"

record vmop_create_params =
  vmc_params :: vm_create_params
  vmc_ndisks :: nat
  vmc_nnics :: nat

record vmd_vm =
  vm_params :: vmop_create_params
  vm_vmid :: "32 word"
  vm_state :: "32 word"
  vm_sev_asid :: "32 word list"

text \<open>
  Constants of headers that are not part of the sources at hand (\<^verbatim>\<open>sys/param.h\<close>,
  \<^verbatim>\<open>dev/vmm/vmm.h\<close>, \<^verbatim>\<open>machine/vmmvar.h\<close>, \<^verbatim>\<open>vmd.h\<close>): they are parameters
  of the model. \<open>VRS_SIZE\<close> is \<^verbatim>\<open>sizeof(struct vcpu_reg_state)\<close>, and
  \<open>VPP_DATA_SIZE\<close> the size of what follows the two ids and the mask in
  \<^verbatim>\<open>struct vm_rwvmparams_params\<close> (the parameters).
\<close>

record platform =
  PAGE_SIZE :: size_t
  VMM_MAX_VCPUS_PER_VM :: nat
  VMM_MAX_MEM_RANGES :: nat
  VM_MAX_DISKS_PER_VM :: nat
  VM_MAX_NICS_PER_VM :: nat
  VM_RWREGS_ALL :: "64 word"
  VM_RWVMPARAMS_ALL :: "32 word"
  VRS_SIZE :: nat
  VPP_DATA_SIZE :: nat

text \<open>The errno values of OpenBSD's \<^verbatim>\<open>sys/errno.h\<close>.\<close>

definition EIO :: int where "EIO = 5"
definition ENOMEM :: int where "ENOMEM = 12"
definition EINVAL :: int where "EINVAL = 22"

text \<open>The state flags of \<^verbatim>\<open>vmd.h\<close>.\<close>

definition VM_STATE_PAUSED :: "32 word" where "VM_STATE_PAUSED = 0x08"
definition VM_STATE_RECEIVED :: "32 word" where "VM_STATE_RECEIVED = 0x20"

subsection \<open>The address space of the process: mmap and munmap\<close>

text \<open>
  \<^verbatim>\<open>mmap(NULL, len, ...)\<close> either fails with an errno or returns the start of a new
  mapping; which of the two happens at the k-th call of the process is the environment's
  choice. \<^verbatim>\<open>munmap(addr, len)\<close> returns 0 and removes the mapping, or returns -1 and
  changes nothing; again the environment decides.
\<close>

datatype mmap_result = MAP_FAILED int | Mapped vaddr

record sys_env =
  mmap_res :: "nat \<Rightarrow> mmap_result"
  munmap_ok :: "vaddr \<Rightarrow> size_t \<Rightarrow> bool"

record addr_space =
  as_maps :: "(vaddr \<times> size_t) list"
  as_calls :: nat

definition mmap :: "sys_env \<Rightarrow> size_t \<Rightarrow> addr_space \<Rightarrow> mmap_result \<times> addr_space" where
  "mmap env len s =
     (case mmap_res env (as_calls s) of
        MAP_FAILED e \<Rightarrow> (MAP_FAILED e, s\<lparr>as_calls := Suc (as_calls s)\<rparr>)
      | Mapped p \<Rightarrow>
          (Mapped p, s\<lparr>as_maps := (p, len) # as_maps s, as_calls := Suc (as_calls s)\<rparr>))"

definition munmap :: "sys_env \<Rightarrow> vaddr \<Rightarrow> size_t \<Rightarrow> addr_space \<Rightarrow> int \<times> addr_space" where
  "munmap env a len s =
     (if munmap_ok env a len
      then (0, s\<lparr>as_maps := removeAll (a, len) (as_maps s)\<rparr>)
      else (- 1, s))"

subsection \<open>alloc_guest_mem\<close>

text \<open>
  The rollback loop of \<^verbatim>\<open>alloc_guest_mem\<close> (and of \<^verbatim>\<open>remap_guest_mem\<close>):
  \<^verbatim>\<open>for (j = 0; j < i; j++) munmap(vcp->vcp_memranges[j].vmr_va, ...vmr_size)\<close>,
  the result of \<^verbatim>\<open>munmap\<close> ignored.
\<close>

definition unmap_ranges :: "sys_env \<Rightarrow> vm_mem_range list \<Rightarrow> nat \<Rightarrow> addr_space \<Rightarrow> addr_space" where
  "unmap_ranges env rs i s =
     fold (\<lambda>j s'. snd (munmap env (vmr_va (rs ! j)) (vmr_size (rs ! j)) s')) [0..<i] s"

text \<open>
  How \<^verbatim>\<open>alloc_guest_mem\<close> ends: it returns a value (0 or the errno of the failed
  \<^verbatim>\<open>mmap\<close>), or its loop reaches \<^verbatim>\<open>vcp->vcp_memranges[i]\<close> with an index \<open>i\<close> that
  the array does not have. The loop is bounded by \<^verbatim>\<open>vcp_nmemranges\<close> alone, and nothing
  in the function compares that count with the size of the array.
\<close>

datatype alloc_ret = Returned int | Out_of_bounds nat

text \<open>
  The main loop of \<^verbatim>\<open>alloc_guest_mem\<close>, from index \<open>i\<close> on. The result is how the
  function ends, the creation parameters with the \<^verbatim>\<open>vmr_va\<close> fields written so far,
  and the address space.
\<close>

function alloc_guest_mem_from ::
  "sys_env \<Rightarrow> nat \<Rightarrow> vm_create_params \<Rightarrow> addr_space \<Rightarrow>
   alloc_ret \<times> vm_create_params \<times> addr_space" where
  "alloc_guest_mem_from env i vcp s =
     (if i < vcp_nmemranges vcp then
        (if length (vcp_memranges vcp) \<le> i then (Out_of_bounds i, vcp, s)
         else
           (let vmr = vcp_memranges vcp ! i in
            case mmap env (vmr_size vmr) s of
              (MAP_FAILED errno, s1) \<Rightarrow>
                (Returned errno, vcp, unmap_ranges env (vcp_memranges vcp) i s1)
            | (Mapped p, s1) \<Rightarrow>
                alloc_guest_mem_from env (Suc i)
                  (vcp\<lparr>vcp_memranges := (vcp_memranges vcp)[i := vmr\<lparr>vmr_va := p\<rparr>]\<rparr>) s1))
      else (Returned 0, vcp, s))"
  by pat_completeness auto
termination
  by (relation "measure (\<lambda>(env, i, vcp, s). vcp_nmemranges vcp - i)") auto

declare alloc_guest_mem_from.simps [simp del]

definition alloc_guest_mem ::
  "sys_env \<Rightarrow> vmd_vm \<Rightarrow> addr_space \<Rightarrow> alloc_ret \<times> vmd_vm \<times> addr_space" where
  "alloc_guest_mem env vm s =
     (case alloc_guest_mem_from env 0 (vmc_params (vm_params vm)) s of
        (ret, vcp, s') \<Rightarrow> (ret, vm\<lparr>vm_params := (vm_params vm)\<lparr>vmc_params := vcp\<rparr>\<rparr>, s'))"

subsection \<open>remap_guest_mem\<close>

text \<open>
  \<^verbatim>\<open>struct vm_sharemem_params\<close>, the argument of \<^verbatim>\<open>VMM_IOC_SHAREMEM\<close>. The ioctl
  is external: the environment gives the errno with which it fails, or \<open>None\<close> when it
  succeeds.
\<close>

record vm_sharemem_params =
  vsp_nmemranges :: nat
  vsp_vm_id :: "32 word"
  vsp_memranges :: "vm_mem_range list"

datatype 'a exec = Fatal string | Done (the_done: 'a)

text \<open>
  The first loop of \<^verbatim>\<open>remap_guest_mem\<close>, from index \<open>i\<close> on: \<open>Inl errno\<close> is
  the early \<^verbatim>\<open>return (ret)\<close> after a failed \<^verbatim>\<open>mmap\<close>, \<open>Inr\<close> the state with
  which the loop is left.
\<close>

function remap_reserve_from ::
  "sys_env \<Rightarrow> platform \<Rightarrow> nat \<Rightarrow> vm_sharemem_params \<Rightarrow> vm_create_params \<Rightarrow> addr_space \<Rightarrow>
   (int \<times> vm_sharemem_params \<times> vm_create_params \<times> addr_space) +
   (vm_sharemem_params \<times> vm_create_params \<times> addr_space)" where
  "remap_reserve_from env pf i vsp vcp s =
     (if i < VMM_MAX_MEM_RANGES pf then
        (if i < vsp_nmemranges vsp then
           (let vmr = vsp_memranges vsp ! i in
            if vmr_type vmr = VM_MEM_MMIO then
              remap_reserve_from env pf (Suc i)
                (vsp\<lparr>vsp_memranges := (vsp_memranges vsp)[i := vmr\<lparr>vmr_va := 0\<rparr>]\<rparr>)
                (vcp\<lparr>vcp_memranges :=
                   (vcp_memranges vcp)[i := (vcp_memranges vcp ! i)\<lparr>vmr_va := 0\<rparr>]\<rparr>) s
            else
              (case mmap env (vmr_size vmr) s of
                 (MAP_FAILED errno, s1) \<Rightarrow>
                   Inl (errno, vsp, vcp, unmap_ranges env (vcp_memranges vcp) i s1)
               | (Mapped p, s1) \<Rightarrow>
                   remap_reserve_from env pf (Suc i)
                     (vsp\<lparr>vsp_memranges := (vsp_memranges vsp)[i := vmr\<lparr>vmr_va := p\<rparr>]\<rparr>)
                     (vcp\<lparr>vcp_memranges :=
                        (vcp_memranges vcp)[i := (vcp_memranges vcp ! i)\<lparr>vmr_va := p\<rparr>]\<rparr>) s1))
         else remap_reserve_from env pf (Suc i) vsp vcp s)
      else Inr (vsp, vcp, s))"
  by pat_completeness auto
termination
  by (relation "measure (\<lambda>(env, pf, i, vsp, vcp, s). VMM_MAX_MEM_RANGES pf - i)") auto

declare remap_reserve_from.simps [simp del]

text \<open>
  What the reservation loop started at index \<open>k\<close> has done when it is left with
  \<open>vsp'\<close> and \<open>vcp'\<close>: counts, lengths and types are unchanged, the ranges
  below \<open>k\<close> are untouched, and each range from \<open>k\<close> on that the loop visits has
  the same address in the request and in the VM's parameters, zero if it is MMIO.
\<close>

definition remap_inv :: "platform \<Rightarrow> nat \<Rightarrow> vm_sharemem_params \<Rightarrow> vm_create_params \<Rightarrow> vm_sharemem_params \<Rightarrow> vm_create_params \<Rightarrow> bool" where
  "remap_inv pf k vsp vcp vsp' vcp' \<longleftrightarrow>
     vsp_nmemranges vsp' = vsp_nmemranges vsp \<and>
     vcp_nmemranges vcp' = vcp_nmemranges vcp \<and>
     length (vsp_memranges vsp') = length (vsp_memranges vsp) \<and>
     length (vcp_memranges vcp') = length (vcp_memranges vcp) \<and>
     (\<forall>j < length (vsp_memranges vsp).
        vmr_type (vsp_memranges vsp' ! j) = vmr_type (vsp_memranges vsp ! j) \<and>
        vmr_type (vcp_memranges vcp' ! j) = vmr_type (vcp_memranges vcp ! j) \<and>
        (j < k \<longrightarrow> vsp_memranges vsp' ! j = vsp_memranges vsp ! j \<and>
                   vcp_memranges vcp' ! j = vcp_memranges vcp ! j) \<and>
        (k \<le> j \<and> j < VMM_MAX_MEM_RANGES pf \<and> j < vsp_nmemranges vsp \<longrightarrow>
           vmr_va (vcp_memranges vcp' ! j) = vmr_va (vsp_memranges vsp' ! j) \<and>
           (vmr_type (vsp_memranges vsp ! j) = VM_MEM_MMIO \<longrightarrow>
              vmr_va (vsp_memranges vsp' ! j) = 0)))"

text \<open>
  The second loop: every range of the request that is not MMIO is unmapped again; a
  failing \<^verbatim>\<open>munmap\<close> is fatal.
\<close>

function remap_release_from ::
  "sys_env \<Rightarrow> nat \<Rightarrow> vm_sharemem_params \<Rightarrow> addr_space \<Rightarrow> addr_space exec" where
  "remap_release_from env i vsp s =
     (if i < vsp_nmemranges vsp then
        (let vmr = vsp_memranges vsp ! i in
         if vmr_type vmr = VM_MEM_MMIO then remap_release_from env (Suc i) vsp s
         else
           (case munmap env (vmr_va vmr) (vmr_size vmr) s of
              (r, s1) \<Rightarrow>
                if r = - 1 then Fatal ''remap_guest_mem: munmap''
                else remap_release_from env (Suc i) vsp s1))
      else Done s)"
  by pat_completeness auto
termination
  by (relation "measure (\<lambda>(env, i, vsp, s). vsp_nmemranges vsp - i)") auto

declare remap_release_from.simps [simp del]

text \<open>
  \<^verbatim>\<open>remap_guest_mem(vm, vmm_fd)\<close>: the VM pointer may be \<^verbatim>\<open>NULL\<close> (\<open>None\<close>).
  The result is the value returned, the VM, the request handed to \<^verbatim>\<open>VMM_IOC_SHAREMEM\<close>
  (when the code got that far) and the address space.
\<close>

definition remap_guest_mem ::
  "sys_env \<Rightarrow> (vm_sharemem_params \<Rightarrow> int option) \<Rightarrow> platform \<Rightarrow> vmd_vm option \<Rightarrow> addr_space \<Rightarrow>
   (int \<times> vmd_vm option \<times> vm_sharemem_params option \<times> addr_space) exec" where
  "remap_guest_mem env ioc_sharemem pf vmp s =
     (case vmp of
        None \<Rightarrow> Done (1, None, None, s)
      | Some vm \<Rightarrow>
          (let vcp = vmc_params (vm_params vm);
               vsp = \<lparr>vsp_nmemranges = vcp_nmemranges vcp, vsp_vm_id = vcp_id vcp,
                      vsp_memranges = vcp_memranges vcp\<rparr>
           in case remap_reserve_from env pf 0 vsp vcp s of
                Inl (ret, vsp1, vcp1, s1) \<Rightarrow>
                  Done (ret, Some (vm\<lparr>vm_params := (vm_params vm)\<lparr>vmc_params := vcp1\<rparr>\<rparr>),
                        None, s1)
              | Inr (vsp1, vcp1, s1) \<Rightarrow>
                  (case remap_release_from env 0 vsp1 s1 of
                     Fatal m \<Rightarrow> Fatal m
                   | Done s2 \<Rightarrow>
                       (let vm1 = vm\<lparr>vm_params := (vm_params vm)\<lparr>vmc_params := vcp1\<rparr>\<rparr> in
                        case ioc_sharemem vsp1 of
                          Some errno \<Rightarrow> Done (errno, Some vm1, Some vsp1, s2)
                        | None \<Rightarrow> Done (0, Some vm1, Some vsp1, s2)))))"

subsection \<open>vmm_create_vm and the start of start_vm\<close>

text \<open>
  What the process does to the outside, in the order it does it: ioctls on vmm(4),
  writes to the parent, pthread calls, platform hooks.
\<close>

datatype inject = VCPU_INJECT_NONE | VCPU_INJECT_INTR nat

datatype mutex = Vm_mtx | Threadmutex | Vcpu_run_mtx nat | Vcpu_unpause_mtx nat

datatype cond = Threadcond | Vcpu_run_cond nat | Vcpu_unpause_cond nat

datatype event =
    Ioc_create vm_create_params
  | Write_vm_id "32 word"
  | Mutex_lock mutex
  | Mutex_unlock mutex
  | Cond_wait cond mutex
  | Cond_signal cond
  | Cond_broadcast cond
  | Barrier_init nat
  | Barrier_wait
  | Barrier_destroy
  | Set_vm_state "32 word"
  | Set_vcpu_done nat
  | Pause_vm_md
  | Unpause_vm_md
  | Ioc_readregs "32 word" nat
  | Ioc_readvmparams "32 word" nat
  | Ioc_term "32 word"
  | Ioc_resetcpu "32 word" nat "8 word list"
  | Ioc_writeregs "32 word" nat "64 word" "8 word list"
  | Ioc_writevmparams "32 word" nat "8 word list" "8 word list"
  | Cond_init cond
  | Mutex_init mutex
  | Thread_create nat
  | Ioc_run nat inject
  | Vcpu_exit nat
  | Close_fd
  | Log_warnx string
  | Imsg_send_vm_response "32 word" int
  | Imsg_flush

text \<open>
  \<^verbatim>\<open>VMM_IOC_CREATE\<close> fails with an errno (\<open>Inl\<close>) or succeeds and fills in the id of
  the VM and the ASIDs of its VCPUs (\<open>Inr\<close>).
\<close>

type_synonym ioc_create = "vm_create_params \<Rightarrow> int + (32 word \<times> 32 word list)"

definition copy_asids :: "vm_create_params \<Rightarrow> 32 word list \<Rightarrow> 32 word list" where
  "copy_asids vcp asids = fold (\<lambda>i a. a[i := vcp_asid vcp ! i]) [0..<vcp_ncpus vcp] asids"

definition vmm_create_vm :: "ioc_create \<Rightarrow> platform \<Rightarrow> vmd_vm \<Rightarrow> int \<times> vmd_vm \<times> event list" where
  "vmm_create_vm ioc pf vm =
     (let vcp = vmc_params (vm_params vm) in
      if vcp_ncpus vcp > VMM_MAX_VCPUS_PER_VM pf then (EINVAL, vm, [])
      else if vcp_nmemranges vcp = 0 \<or> vcp_nmemranges vcp > VMM_MAX_MEM_RANGES pf
        then (EINVAL, vm, [])
      else if vmc_ndisks (vm_params vm) > VM_MAX_DISKS_PER_VM pf then (EINVAL, vm, [])
      else if vmc_nnics (vm_params vm) > VM_MAX_NICS_PER_VM pf then (EINVAL, vm, [])
      else
        (case ioc vcp of
           Inl errno \<Rightarrow> (errno, vm, [Ioc_create vcp])
         | Inr (vid, asids) \<Rightarrow>
             (let vcp1 = vcp\<lparr>vcp_id := vid, vcp_asid := asids\<rparr> in
              (0, vm\<lparr>vm_params := (vm_params vm)\<lparr>vmc_params := vcp1\<rparr>,
                     vm_sev_asid := copy_asids vcp1 (vm_sev_asid vm)\<rparr>,
               [Ioc_create vcp]))))"

text \<open>
  The first part of \<^verbatim>\<open>start_vm\<close>, up to the creation of the VM in vmm(4) (the lines
  before "Setup SEV"). \<^verbatim>\<open>create_memory_map\<close> (x86_vm.c) is not part of the sources at
  hand and is a parameter, as are the results of \<^verbatim>\<open>getrlimit\<close> and \<^verbatim>\<open>fmt_scaled\<close>
  (\<open>None\<close> is failure). When \<^verbatim>\<open>alloc_guest_mem\<close> has left the array, \<^verbatim>\<open>start_vm\<close>
  has no defined behaviour from there on: that is the outcome \<open>Start_out_of_bounds\<close>,
  with the index, the address space as it was at that access, and nothing done towards
  the outside.
\<close>

record start_env =
  create_memory_map :: "vm_create_params \<Rightarrow> vm_create_params"
  getrlimit_data :: "64 word option"
  fmt_scaled :: "64 word \<Rightarrow> string option"
  ioc_create_res :: ioc_create

datatype start_result =
    Start_fatal string
  | Start_returned int
  | Start_created vmd_vm
  | Start_out_of_bounds nat

definition start_memory_map :: "start_env \<Rightarrow> vmd_vm \<Rightarrow> vmd_vm" where
  "start_memory_map senv vm =
     (if vm_state vm AND VM_STATE_RECEIVED = 0
      then vm\<lparr>vm_params := (vm_params vm)
             \<lparr>vmc_params := create_memory_map senv (vmc_params (vm_params vm))\<rparr>\<rparr>
      else vm)"

definition start_vm_create ::
  "sys_env \<Rightarrow> start_env \<Rightarrow> platform \<Rightarrow> vmd_vm \<Rightarrow> addr_space \<Rightarrow>
   start_result \<times> addr_space \<times> event list" where
  "start_vm_create env senv pf vm s =
     (let vm0 = start_memory_map senv vm
      in case alloc_guest_mem env vm0 s of
           (Out_of_bounds i, vm1, s1) \<Rightarrow> (Start_out_of_bounds i, s1, [])
         | (Returned ret, vm1, s1) \<Rightarrow>
             if ret \<noteq> 0 then
               (case (if ret = ENOMEM then getrlimit_data senv else None) of
                  Some lim \<Rightarrow>
                    (case fmt_scaled senv lim of
                       Some buf \<Rightarrow>
                         (Start_fatal (''could not allocate guest memory (data limit is '' @ buf @ '')''),
                          s1, [])
                     | None \<Rightarrow> (Start_returned ret, s1, []))
                | None \<Rightarrow> (Start_returned ret, s1, []))
             else
               (case vmm_create_vm (ioc_create_res senv) pf vm1 of
                  (ret2, vm2, evs) \<Rightarrow>
                    if ret2 \<noteq> 0 then
                      (Start_returned ret2, s1, evs @ [Write_vm_id 0])
                    else (Start_created vm2, s1, evs)))"

subsection \<open>pause_vm and unpause_vm\<close>

text \<open>
  The state of the process as far as pausing and sending are concerned: the VM (the
  global \<^verbatim>\<open>current_vm\<close>; \<^verbatim>\<open>start_vm\<close> sets it to the \<^verbatim>\<open>vm\<close> that every caller
  passes, so the two pointers name one object) and the trace of what the process has done
  to the outside. A pthread call appends its event to the trace and returns what the
  environment says for the call made at that position of the trace; a write to
  \<^verbatim>\<open>vm_state\<close> is recorded as well, so that the trace shows under which lock it happens.
\<close>

record proc =
  p_vm :: vmd_vm
  p_trace :: "event list"

definition PTHREAD_BARRIER_SERIAL_THREAD :: int where
  "PTHREAD_BARRIER_SERIAL_THREAD = - 1"

definition emit :: "event \<Rightarrow> 'a proc_scheme \<Rightarrow> 'a proc_scheme" where
  "emit ev st = st\<lparr>p_trace := p_trace st @ [ev]\<rparr>"

definition pt_call ::
  "(nat \<Rightarrow> int) \<Rightarrow> event \<Rightarrow> 'a proc_scheme \<Rightarrow> int \<times> 'a proc_scheme" where
  "pt_call pt ev st = (pt (length (p_trace st)), emit ev st)"

definition set_vm_state :: "32 word \<Rightarrow> 'a proc_scheme \<Rightarrow> 'a proc_scheme" where
  "set_vm_state v st = emit (Set_vm_state v) (st\<lparr>p_vm := (p_vm st)\<lparr>vm_state := v\<rparr>\<rparr>)"

text \<open>The wrappers \<^verbatim>\<open>mutex_lock\<close> and \<^verbatim>\<open>mutex_unlock\<close>: a failure is fatal.\<close>

definition mutex_lock ::
  "(nat \<Rightarrow> int) \<Rightarrow> mutex \<Rightarrow> 'a proc_scheme \<Rightarrow> 'a proc_scheme exec" where
  "mutex_lock pt m st =
     (case pt_call pt (Mutex_lock m) st of
        (ret, st1) \<Rightarrow> if ret \<noteq> 0 then Fatal ''could not acquire mutex'' else Done st1)"

definition mutex_unlock ::
  "(nat \<Rightarrow> int) \<Rightarrow> mutex \<Rightarrow> 'a proc_scheme \<Rightarrow> 'a proc_scheme exec" where
  "mutex_unlock pt m st =
     (case pt_call pt (Mutex_unlock m) st of
        (ret, st1) \<Rightarrow> if ret \<noteq> 0 then Fatal ''could not release mutex'' else Done st1)"

text \<open>
  The loops \<^verbatim>\<open>for (n = 0; n < ncpus; n++) pthread_cond_broadcast(...)\<close> of
  \<^verbatim>\<open>pause_vm\<close> and \<^verbatim>\<open>unpause_vm\<close>, from index \<open>n\<close> on; \<open>mk n\<close> is the condition
  variable of VCPU \<open>n\<close>. The result says whether a broadcast failed, which makes the
  caller return.
\<close>

function broadcast_from ::
  "(nat \<Rightarrow> int) \<Rightarrow> (nat \<Rightarrow> cond) \<Rightarrow> nat \<Rightarrow> nat \<Rightarrow> 'a proc_scheme \<Rightarrow> bool \<times> 'a proc_scheme" where
  "broadcast_from pt mk ncpus n st =
     (if n < ncpus then
        (case pt_call pt (Cond_broadcast (mk n)) st of
           (ret, st1) \<Rightarrow>
             if ret \<noteq> 0 then (True, st1)
             else broadcast_from pt mk ncpus (Suc n) st1)
      else (False, st))"
  by pat_completeness auto
termination
  by (relation "measure (\<lambda>(pt, mk, ncpus, n, st). ncpus - n)") auto

declare broadcast_from.simps [simp del]

definition pause_vm :: "(nat \<Rightarrow> int) \<Rightarrow> 'a proc_scheme \<Rightarrow> 'a proc_scheme exec" where
  "pause_vm pt st =
     (case mutex_lock pt Vm_mtx st of
        Fatal m \<Rightarrow> Fatal m
      | Done st1 \<Rightarrow>
          if vm_state (p_vm st1) AND VM_STATE_PAUSED \<noteq> 0 then mutex_unlock pt Vm_mtx st1
          else
            (case mutex_unlock pt Vm_mtx
                    (set_vm_state (vm_state (p_vm st1) OR VM_STATE_PAUSED) st1) of
               Fatal m \<Rightarrow> Fatal m
             | Done st2 \<Rightarrow>
                 (case pt_call pt
                         (Barrier_init (vcp_ncpus (vmc_params (vm_params (p_vm st2))) + 1)) st2 of
                    (ret, st3) \<Rightarrow>
                      if ret \<noteq> 0 then Done st3
                      else
                        (case broadcast_from pt Vcpu_run_cond
                                (vcp_ncpus (vmc_params (vm_params (p_vm st3)))) 0 st3 of
                           (failed, st4) \<Rightarrow>
                             if failed then Done st4
                             else
                               (case pt_call pt Barrier_wait st4 of
                                  (ret, st5) \<Rightarrow>
                                    if ret \<noteq> 0 \<and> ret \<noteq> PTHREAD_BARRIER_SERIAL_THREAD
                                    then Done st5
                                    else
                                      (case pt_call pt Barrier_destroy st5 of
                                         (ret, st6) \<Rightarrow>
                                           if ret \<noteq> 0 then Done st6
                                           else Done (emit Pause_vm_md st6)))))))"

definition unpause_vm :: "(nat \<Rightarrow> int) \<Rightarrow> 'a proc_scheme \<Rightarrow> 'a proc_scheme exec" where
  "unpause_vm pt st =
     (case mutex_lock pt Vm_mtx st of
        Fatal m \<Rightarrow> Fatal m
      | Done st1 \<Rightarrow>
          if vm_state (p_vm st1) AND VM_STATE_PAUSED = 0 then mutex_unlock pt Vm_mtx st1
          else
            (case mutex_unlock pt Vm_mtx
                    (set_vm_state (vm_state (p_vm st1) AND NOT VM_STATE_PAUSED) st1) of
               Fatal m \<Rightarrow> Fatal m
             | Done st2 \<Rightarrow>
                 (case broadcast_from pt Vcpu_unpause_cond
                         (vcp_ncpus (vmc_params (vm_params (p_vm st2)))) 0 st2 of
                    (failed, st3) \<Rightarrow>
                      if failed then Done st3 else Done (emit Unpause_vm_md st3))))"

subsection \<open>vcpu_run_loop\<close>

text \<open>
  The thread of VCPU \<open>n\<close>. Its state is the trace of what it has done and the set of
  VCPUs whose \<^verbatim>\<open>vcpu_done\<close> flag is set. Everything else it reads is shared with other
  threads or comes from outside, and is given by the environment for the k-th iteration
  of the loop: the two flags read under \<^verbatim>\<open>vm_mtx\<close>, the interrupt controller, the
  result of \<^verbatim>\<open>VMM_IOC_RUN\<close> (\<open>Some errno\<close> when it fails), the exit reason and the
  result of \<^verbatim>\<open>vcpu_exit\<close>.
\<close>

record vcpu_proc = proc +
  p_done :: "nat set"

datatype exit_reason = VM_EXIT_NONE | VM_EXIT_TERMINATED | VM_EXIT_OTHER

record run_env =
  run_pt :: "nat \<Rightarrow> int"
  run_paused :: "nat \<Rightarrow> bool"
  run_halted :: "nat \<Rightarrow> bool"
  run_irqready :: "nat \<Rightarrow> bool"
  run_intr_pending :: "nat \<Rightarrow> bool"
  run_intr_ack :: "nat \<Rightarrow> nat"
  run_ioctl :: "nat \<Rightarrow> int option"
  run_exit_reason :: "nat \<Rightarrow> exit_reason"
  run_vcpu_exit :: "nat \<Rightarrow> int"

text \<open>
  How a part of the loop body ends: it goes on, leaves the loop with \<^verbatim>\<open>break\<close>, leaves
  the function with \<^verbatim>\<open>return ((void *)ret)\<close>, or ends the process.
\<close>

datatype step =
    Go_on vcpu_proc
  | Break int vcpu_proc
  | Return int vcpu_proc
  | Abort string

text \<open>The block \<^verbatim>\<open>if (halted && paused)\<close>.\<close>

definition vcpu_pause_wait :: "run_env \<Rightarrow> nat \<Rightarrow> vcpu_proc \<Rightarrow> step" where
  "vcpu_pause_wait env n st =
     (case pt_call (run_pt env) Barrier_wait st of
        (ret, st1) \<Rightarrow>
          if ret \<noteq> 0 \<and> ret \<noteq> PTHREAD_BARRIER_SERIAL_THREAD then Return ret st1
          else
            (case pt_call (run_pt env) (Mutex_lock (Vcpu_unpause_mtx n)) st1 of
               (ret, st2) \<Rightarrow>
                 if ret \<noteq> 0 then Return ret st2
                 else
                   (case mutex_unlock (run_pt env) (Vcpu_run_mtx n) st2 of
                      Fatal m \<Rightarrow> Abort m
                    | Done st3 \<Rightarrow>
                        (case pt_call (run_pt env)
                                (Cond_wait (Vcpu_unpause_cond n) (Vcpu_unpause_mtx n)) st3 of
                           (ret, st4) \<Rightarrow>
                             if ret \<noteq> 0 then Break ret st4
                             else
                               (case mutex_lock (run_pt env) (Vcpu_run_mtx n) st4 of
                                  Fatal m \<Rightarrow> Abort m
                                | Done st5 \<Rightarrow>
                                    (case pt_call (run_pt env)
                                            (Mutex_unlock (Vcpu_unpause_mtx n)) st5 of
                                       (ret, st6) \<Rightarrow>
                                         if ret \<noteq> 0 then Break ret st6 else Go_on st6))))))"

text \<open>The block \<^verbatim>\<open>if (halted)\<close>.\<close>

definition vcpu_halt_wait :: "run_env \<Rightarrow> nat \<Rightarrow> vcpu_proc \<Rightarrow> step" where
  "vcpu_halt_wait env n st =
     (case pt_call (run_pt env) (Cond_wait (Vcpu_run_cond n) (Vcpu_run_mtx n)) st of
        (ret, st1) \<Rightarrow>
          if ret \<noteq> 0 then Break ret (emit (Mutex_unlock (Vcpu_run_mtx n)) st1)
          else Go_on st1)"

text \<open>
  From the release of \<^verbatim>\<open>vcpu_run_mtx[n]\<close> to the end of the body: the interrupt to
  inject, the run ioctl, the exit.
\<close>

definition vcpu_run_once :: "run_env \<Rightarrow> nat \<Rightarrow> nat \<Rightarrow> vcpu_proc \<Rightarrow> step" where
  "vcpu_run_once env n k st =
     (case pt_call (run_pt env) (Mutex_unlock (Vcpu_run_mtx n)) st of
        (ret, st1) \<Rightarrow>
          if ret \<noteq> 0 then Break ret st1
          else
            (let inj = (if run_irqready env k \<and> run_intr_pending env k
                        then VCPU_INJECT_INTR (run_intr_ack env k) else VCPU_INJECT_NONE);
                 st2 = emit (Ioc_run n inj) st1
             in case run_ioctl env k of
                  Some errno \<Rightarrow> Break errno st2
                | None \<Rightarrow>
                    if run_exit_reason env k = VM_EXIT_TERMINATED then Break 0 st2
                    else if run_exit_reason env k \<noteq> VM_EXIT_NONE then
                      (if run_vcpu_exit env k \<noteq> 0
                       then Break (run_vcpu_exit env k) (emit (Vcpu_exit n) st2)
                       else Go_on (emit (Vcpu_exit n) st2))
                    else Go_on st2))"

text \<open>The k-th pass through the body of the loop.\<close>

definition vcpu_run_iter :: "run_env \<Rightarrow> nat \<Rightarrow> nat \<Rightarrow> vcpu_proc \<Rightarrow> step" where
  "vcpu_run_iter env n k st =
     (case pt_call (run_pt env) (Mutex_lock (Vcpu_run_mtx n)) st of
        (ret, st1) \<Rightarrow>
          if ret \<noteq> 0 then Return ret st1
          else
            (case mutex_lock (run_pt env) Vm_mtx st1 of
               Fatal m \<Rightarrow> Abort m
             | Done st2 \<Rightarrow>
                 (case mutex_unlock (run_pt env) Vm_mtx st2 of
                    Fatal m \<Rightarrow> Abort m
                  | Done st3 \<Rightarrow>
                      (case (if run_halted env k \<and> run_paused env k
                             then vcpu_pause_wait env n st3 else Go_on st3) of
                         Go_on st4 \<Rightarrow>
                           (case (if run_halted env k
                                  then vcpu_halt_wait env n st4 else Go_on st4) of
                              Go_on st5 \<Rightarrow> vcpu_run_once env n k st5
                            | other \<Rightarrow> other)
                       | other \<Rightarrow> other))))"

text \<open>
  What follows the loop: the done flag is set under \<^verbatim>\<open>vm_mtx\<close>, then
  \<^verbatim>\<open>threadcond\<close> is signalled under \<^verbatim>\<open>threadmutex\<close> (the result of the signal is not
  looked at), and the thread returns \<^verbatim>\<open>ret\<close>.
\<close>

definition vcpu_run_exit :: "run_env \<Rightarrow> nat \<Rightarrow> int \<Rightarrow> vcpu_proc \<Rightarrow> (int \<times> vcpu_proc) exec" where
  "vcpu_run_exit env n ret st =
     (case mutex_lock (run_pt env) Vm_mtx st of
        Fatal m \<Rightarrow> Fatal m
      | Done st1 \<Rightarrow>
          (case mutex_unlock (run_pt env) Vm_mtx
                  (emit (Set_vcpu_done n) (st1\<lparr>p_done := insert n (p_done st1)\<rparr>)) of
             Fatal m \<Rightarrow> Fatal m
           | Done st2 \<Rightarrow>
               (case mutex_lock (run_pt env) Threadmutex st2 of
                  Fatal m \<Rightarrow> Fatal m
                | Done st3 \<Rightarrow>
                    (case mutex_unlock (run_pt env) Threadmutex
                            (snd (pt_call (run_pt env) (Cond_signal Threadcond) st3)) of
                       Fatal m \<Rightarrow> Fatal m
                     | Done st4 \<Rightarrow> Done (ret, st4)))))"

text \<open>
  \<^verbatim>\<open>vcpu_run_loop\<close> from its k-th iteration on. The loop has no bound: the result is
  \<open>None\<close> when the thread never returns.
\<close>

partial_function (option) vcpu_run_loop_from ::
  "run_env \<Rightarrow> nat \<Rightarrow> nat \<Rightarrow> vcpu_proc \<Rightarrow> (int \<times> vcpu_proc) exec option" where
  "vcpu_run_loop_from env n k st =
     (case vcpu_run_iter env n k st of
        Go_on st1 \<Rightarrow> vcpu_run_loop_from env n (Suc k) st1
      | Break ret st1 \<Rightarrow> Some (vcpu_run_exit env n ret st1)
      | Return ret st1 \<Rightarrow> Some (Done (ret, st1))
      | Abort m \<Rightarrow> Some (Fatal m))"

definition vcpu_run_loop :: "run_env \<Rightarrow> nat \<Rightarrow> vcpu_proc \<Rightarrow> (int \<times> vcpu_proc) exec option" where
  "vcpu_run_loop env n st = vcpu_run_loop_from env n 0 st"

subsection \<open>Guest memory and the migration stream\<close>

text \<open>
  \<^verbatim>\<open>read_mem\<close> and \<^verbatim>\<open>write_mem\<close> (x86_vm.c) are not part of the sources at hand.
  Modelled from the spec: guest memory holds a byte at each guest-physical address, and
  the two functions copy \<open>len\<close> bytes from or to the addresses \<open>gpa, gpa + 1, ...\<close>;
  whether a call fails is the environment's choice.
\<close>

type_synonym gmem = "paddr \<Rightarrow> byte"

definition mem_bytes :: "gmem \<Rightarrow> paddr \<Rightarrow> nat \<Rightarrow> byte list" where
  "mem_bytes mem gpa len = map (\<lambda>k. mem (gpa + of_nat k)) [0..<len]"

definition mem_store :: "gmem \<Rightarrow> paddr \<Rightarrow> byte list \<Rightarrow> gmem" where
  "mem_store mem gpa bs =
     (\<lambda>a. if unat (a - gpa) < length bs then bs ! unat (a - gpa) else mem a)"

text \<open>
  The descriptor a dump is written to: the bytes written so far and the number of
  \<^verbatim>\<open>atomicio(vwrite, ...)\<close> calls made on it. The environment says which calls come back
  short; a short write is taken to leave nothing in the stream, and the count it returns
  is below the count asked for.
\<close>

record out_fd =
  out_bytes :: "byte list"
  out_calls :: nat

definition atomicio_vwrite :: "(nat \<Rightarrow> bool) \<Rightarrow> out_fd \<Rightarrow> byte list \<Rightarrow> nat \<times> out_fd" where
  "atomicio_vwrite fails fd buf =
     (if fails (out_calls fd)
      then (length buf - 1, fd\<lparr>out_calls := Suc (out_calls fd)\<rparr>)
      else (length buf, fd\<lparr>out_bytes := out_bytes fd @ buf, out_calls := Suc (out_calls fd)\<rparr>))"

text \<open>
  The descriptor a dump is read from is the list of bytes still to come:
  \<^verbatim>\<open>atomicio(read, fd, buf, n)\<close> delivers the next \<open>n\<close> bytes, or fewer when the stream
  ends before.
\<close>

definition atomicio_read :: "byte list \<Rightarrow> nat \<Rightarrow> byte list \<times> byte list" where
  "atomicio_read inp n = (take n inp, drop n inp)"

text \<open>
  What the sending side gets from outside: the results of the collaborators that are not
  part of the sources at hand (\<^verbatim>\<open>dump_send_header\<close>, \<^verbatim>\<open>dump_devs\<close>, \<^verbatim>\<open>pci_dump\<close>,
  \<^verbatim>\<open>virtio_dump\<close>: the value returned and the bytes put into the stream), of
  \<^verbatim>\<open>calloc\<close>, of the writes, of the vmm(4) ioctls (the value returned and the state read)
  and of the pthread calls (the value returned by the call made as the k-th event).
\<close>

record send_env =
  dump_send_header_res :: "int \<times> byte list"
  calloc_fails :: bool
  vmc_image :: "vmop_create_params \<Rightarrow> byte list"
  write_fails :: "nat \<Rightarrow> bool"
  ioc_readregs :: "nat \<Rightarrow> int \<times> byte list"
  read_mem_fails :: "paddr \<Rightarrow> bool"
  dump_devs_res :: "int \<times> byte list"
  pci_dump_res :: "int \<times> byte list"
  virtio_dump_res :: "int \<times> byte list"
  ioc_readvmparams :: "nat \<Rightarrow> int \<times> byte list"
  ioc_term :: int
  pt_res :: "nat \<Rightarrow> int"

subsection \<open>dump_vmr and dump_mem\<close>

text \<open>
  The loop of \<^verbatim>\<open>dump_vmr\<close> with its two variables \<^verbatim>\<open>rem\<close> and \<^verbatim>\<open>read\<close>, both
  \<^verbatim>\<open>size_t\<close>: subtraction and addition wrap around. The loop may run forever, and then
  the result is \<open>None\<close>.
\<close>

partial_function (option) dump_vmr_loop ::
  "send_env \<Rightarrow> platform \<Rightarrow> gmem \<Rightarrow> vm_mem_range \<Rightarrow> size_t \<Rightarrow> size_t \<Rightarrow> out_fd \<Rightarrow>
   (int \<times> out_fd) option" where
  "dump_vmr_loop env pf mem vmr rem rd fd =
     (if rem > 0 then
        (if read_mem_fails env (vmr_gpa vmr + rd) then Some (- 1, fd)
         else
           (case atomicio_vwrite (write_fails env) fd
                   (mem_bytes mem (vmr_gpa vmr + rd) (unat (PAGE_SIZE pf))) of
              (n, fd1) \<Rightarrow>
                if n \<noteq> unat (PAGE_SIZE pf) then Some (- 1, fd1)
                else dump_vmr_loop env pf mem vmr (rem - PAGE_SIZE pf) (rd + PAGE_SIZE pf) fd1))
      else Some (0, fd))"

definition dump_vmr ::
  "send_env \<Rightarrow> platform \<Rightarrow> gmem \<Rightarrow> vm_mem_range \<Rightarrow> out_fd \<Rightarrow> (int \<times> out_fd) option" where
  "dump_vmr env pf mem vmr fd = dump_vmr_loop env pf mem vmr (vmr_size vmr) 0 fd"

function dump_mem_from ::
  "send_env \<Rightarrow> platform \<Rightarrow> gmem \<Rightarrow> vm_create_params \<Rightarrow> nat \<Rightarrow> out_fd \<Rightarrow>
   (int \<times> out_fd) option" where
  "dump_mem_from env pf mem vcp i fd =
     (if i < vcp_nmemranges vcp then
        (case dump_vmr env pf mem (vcp_memranges vcp ! i) fd of
           None \<Rightarrow> None
         | Some (ret, fd1) \<Rightarrow>
             if ret \<noteq> 0 then Some (ret, fd1)
             else dump_mem_from env pf mem vcp (Suc i) fd1)
      else Some (0, fd))"
  by pat_completeness auto
termination
  by (relation "measure (\<lambda>(env, pf, mem, vcp, i, fd). vcp_nmemranges vcp - i)") auto

declare dump_mem_from.simps [simp del]

definition dump_mem ::
  "send_env \<Rightarrow> platform \<Rightarrow> gmem \<Rightarrow> vmd_vm \<Rightarrow> out_fd \<Rightarrow> (int \<times> out_fd) option" where
  "dump_mem env pf mem vm fd = dump_mem_from env pf mem (vmc_params (vm_params vm)) 0 fd"

subsection \<open>send_vm\<close>

text \<open>
  A structure that goes into the stream is written as its memory image. The headers
  that declare \<^verbatim>\<open>struct vm_rwregs_params\<close> and \<^verbatim>\<open>struct vm_rwvmparams_params\<close> are
  not part of the sources at hand. Modelled from the spec: each is a fixed-size record;
  the layout is that of OpenBSD's vmm(4) headers, the 32-bit ids of VM and VCPU first,
  then (for the registers) the 64-bit mask and the register state, or (for the
  parameters) the 32-bit mask and the parameters, which the model keeps as one block.
\<close>

definition le_bytes :: "nat \<Rightarrow> 'a::len word \<Rightarrow> byte list" where
  "le_bytes n w = map (\<lambda>k. ucast (drop_bit (8 * k) w)) [0..<n]"

definition vrp_image :: "32 word \<Rightarrow> nat \<Rightarrow> 64 word \<Rightarrow> byte list \<Rightarrow> byte list" where
  "vrp_image vid i msk regs =
     le_bytes 4 vid @ le_bytes 4 (of_nat i :: 32 word) @ le_bytes 8 msk @ regs"

definition vpp_image :: "32 word \<Rightarrow> nat \<Rightarrow> 32 word \<Rightarrow> byte list \<Rightarrow> byte list" where
  "vpp_image vid i msk params =
     le_bytes 4 vid @ le_bytes 4 (of_nat i :: 32 word) @ le_bytes 4 msk @ params"

definition sizeof_vrp :: "platform \<Rightarrow> nat" where
  "sizeof_vrp pf = 16 + VRS_SIZE pf"

definition sizeof_vpp :: "platform \<Rightarrow> nat" where
  "sizeof_vpp pf = 12 + VPP_DATA_SIZE pf"

text \<open>
  The first loop of \<^verbatim>\<open>send_vm\<close>, from VCPU \<open>i\<close> on: \<^verbatim>\<open>VMM_IOC_READREGS\<close>, then the
  write of the record. The result is the value of \<^verbatim>\<open>ret\<close> with which the loop is left:
  non-zero means \<^verbatim>\<open>goto err\<close>.
\<close>

function send_regs_from ::
  "send_env \<Rightarrow> platform \<Rightarrow> 32 word \<Rightarrow> nat \<Rightarrow> nat \<Rightarrow> out_fd \<Rightarrow> proc \<Rightarrow> int \<times> out_fd \<times> proc" where
  "send_regs_from env pf vid ncpus i fd st =
     (if i < ncpus then
        (case ioc_readregs env i of
           (rc, regs) \<Rightarrow>
             if rc \<noteq> 0 then (rc, fd, emit (Ioc_readregs vid i) st)
             else
               (case atomicio_vwrite (write_fails env) fd
                       (vrp_image vid i (VM_RWREGS_ALL pf) regs) of
                  (sz, fd1) \<Rightarrow>
                    if sz \<noteq> sizeof_vrp pf then (- 1, fd1, emit (Ioc_readregs vid i) st)
                    else send_regs_from env pf vid ncpus (Suc i) fd1
                           (emit (Ioc_readregs vid i) st)))
      else (0, fd, st))"
  by pat_completeness auto
termination
  by (relation "measure (\<lambda>(env, pf, vid, ncpus, i, fd, st). ncpus - i)") auto

declare send_regs_from.simps [simp del]

text \<open>
  The second loop: \<^verbatim>\<open>VMM_IOC_READVMPARAMS\<close> with the mask
  \<^verbatim>\<open>VM_RWVMPARAMS_ALL\<close>, then the write of the record. What the ioctl delivers is the
  block of parameters.
\<close>

function send_vmparams_from ::
  "send_env \<Rightarrow> platform \<Rightarrow> 32 word \<Rightarrow> nat \<Rightarrow> nat \<Rightarrow> out_fd \<Rightarrow> proc \<Rightarrow> int \<times> out_fd \<times> proc" where
  "send_vmparams_from env pf vid ncpus i fd st =
     (if i < ncpus then
        (case ioc_readvmparams env i of
           (rc, params) \<Rightarrow>
             if rc \<noteq> 0 then (rc, fd, emit (Ioc_readvmparams vid i) st)
             else
               (case atomicio_vwrite (write_fails env) fd
                       (vpp_image vid i (VM_RWVMPARAMS_ALL pf) params) of
                  (sz, fd1) \<Rightarrow>
                    if sz \<noteq> sizeof_vpp pf then (- 1, fd1, emit (Ioc_readvmparams vid i) st)
                    else send_vmparams_from env pf vid ncpus (Suc i) fd1
                           (emit (Ioc_readvmparams vid i) st)))
      else (0, fd, st))"
  by pat_completeness auto
termination
  by (relation "measure (\<lambda>(env, pf, vid, ncpus, i, fd, st). ncpus - i)") auto

declare send_vmparams_from.simps [simp del]

text \<open>
  A collaborator that writes to the descriptor by itself: the bytes it put into the
  stream are appended, and its return value is handed on.
\<close>

definition collaborator :: "int \<times> byte list \<Rightarrow> out_fd \<Rightarrow> int \<times> out_fd" where
  "collaborator r fd = (fst r, fd\<lparr>out_bytes := out_bytes fd @ snd r\<rparr>)"

text \<open>
  \<^verbatim>\<open>send_vm\<close> up to the label \<^verbatim>\<open>err\<close>, in three parts. The result is the value
  that \<^verbatim>\<open>ret\<close> has when the label is reached, by \<^verbatim>\<open>goto\<close> or by falling through
  after \<^verbatim>\<open>VMM_IOC_TERM\<close> (whose failure is logged and nothing else).

  Last part: the loop over the VM parameters and the terminate ioctl.
\<close>

definition send_vm_params_term ::
  "send_env \<Rightarrow> platform \<Rightarrow> vm_create_params \<Rightarrow> out_fd \<Rightarrow> proc \<Rightarrow> int \<times> out_fd \<times> proc" where
  "send_vm_params_term env pf vcp fd st =
     (case send_vmparams_from env pf (vcp_id vcp) (vcp_ncpus vcp) 0 fd st of
        (ret, fd1, st1) \<Rightarrow>
          if ret \<noteq> 0 then (ret, fd1, st1)
          else if ioc_term env = - 1
            then (ret, fd1, emit (Log_warnx ''send_vm: term IOC error'')
                              (emit (Ioc_term (vcp_id vcp)) st1))
            else (ret, fd1, emit (Ioc_term (vcp_id vcp)) st1))"

text \<open>Middle part: memory, then the devices, the PCI bus and virtio.\<close>

definition send_vm_mem_devs ::
  "send_env \<Rightarrow> platform \<Rightarrow> gmem \<Rightarrow> vm_create_params \<Rightarrow> out_fd \<Rightarrow> proc \<Rightarrow>
   (int \<times> out_fd \<times> proc) option" where
  "send_vm_mem_devs env pf mem vcp fd st =
     (case dump_mem env pf mem (p_vm st) fd of
        None \<Rightarrow> None
      | Some (ret, fd1) \<Rightarrow>
          if ret \<noteq> 0 then Some (ret, fd1, st)
          else
            (case collaborator (dump_devs_res env) fd1 of
               (ret, fd2) \<Rightarrow>
                 if ret \<noteq> 0 then Some (ret, fd2, st)
                 else
                   (case collaborator (pci_dump_res env) fd2 of
                      (ret, fd3) \<Rightarrow>
                        if ret \<noteq> 0 then Some (ret, fd3, st)
                        else
                          (case collaborator (virtio_dump_res env) fd3 of
                             (ret, fd4) \<Rightarrow>
                               if ret \<noteq> 0 then Some (ret, fd4, st)
                               else Some (send_vm_params_term env pf vcp fd4 st)))))"

text \<open>
  First part: the header, the pause, the creation parameters and the registers.
  \<^verbatim>\<open>ret\<close> starts as 0 and is not assigned before the jump that follows a failed
  \<^verbatim>\<open>dump_send_header\<close>. The result is \<open>None\<close> when \<^verbatim>\<open>dump_mem\<close> does not return.
\<close>

definition send_vm_dump ::
  "send_env \<Rightarrow> platform \<Rightarrow> gmem \<Rightarrow> out_fd \<Rightarrow> proc \<Rightarrow> (int \<times> out_fd \<times> proc) exec option" where
  "send_vm_dump env pf mem fd st =
     (case collaborator (dump_send_header_res env) fd of
        (hrc, fd0) \<Rightarrow>
          if hrc \<noteq> 0 then Some (Done (0, fd0, st))
          else
            (case pause_vm (pt_res env) st of
               Fatal m \<Rightarrow> Some (Fatal m)
             | Done st1 \<Rightarrow>
                 if calloc_fails env then Some (Done (- 1, fd0, st1))
                 else
                   (let vcp = vmc_params (vm_params (p_vm st1));
                        vmc = vmc_image env (vm_params (p_vm st1))
                    in case atomicio_vwrite (write_fails env) fd0 vmc of
                         (sz, fd1) \<Rightarrow>
                           if sz \<noteq> length vmc then Some (Done (- 1, fd1, st1))
                           else
                             (case send_regs_from env pf (vcp_id vcp) (vcp_ncpus vcp) 0 fd1 st1 of
                                (ret, fd2, st2) \<Rightarrow>
                                  if ret \<noteq> 0 then Some (Done (ret, fd2, st2))
                                  else map_option Done (send_vm_mem_devs env pf mem vcp fd2 st2)))))"

text \<open>
  \<^verbatim>\<open>send_vm\<close>: the dump, then what follows the label \<^verbatim>\<open>err\<close>: the descriptor is
  closed, and the VM is unpaused if \<^verbatim>\<open>ret\<close> is not zero.
\<close>

definition send_vm ::
  "send_env \<Rightarrow> platform \<Rightarrow> gmem \<Rightarrow> out_fd \<Rightarrow> proc \<Rightarrow> (int \<times> out_fd \<times> proc) exec option" where
  "send_vm env pf mem fd st =
     (case send_vm_dump env pf mem fd st of
        None \<Rightarrow> None
      | Some (Fatal m) \<Rightarrow> Some (Fatal m)
      | Some (Done (ret, fd1, st1)) \<Rightarrow>
          if ret \<noteq> 0 then
            (case unpause_vm (pt_res env) (emit Close_fd st1) of
               Fatal m \<Rightarrow> Some (Fatal m)
             | Done st2 \<Rightarrow> Some (Done (ret, fd1, st2)))
          else Some (Done (ret, fd1, emit Close_fd st1)))"

text \<open>
  The case \<^verbatim>\<open>IMSG_VMDOP_SEND_VM_REQUEST\<close> of \<^verbatim>\<open>vm_dispatch_vmm\<close>: the result of
  \<^verbatim>\<open>send_vm\<close> is sent to the parent, and when it is 0 the process flushes and exits
  with status 0.
\<close>

datatype dispatch_result = Process_exit int | Dispatch_continues

definition dispatch_send_vm ::
  "send_env \<Rightarrow> platform \<Rightarrow> gmem \<Rightarrow> out_fd \<Rightarrow> proc \<Rightarrow>
   (dispatch_result \<times> out_fd \<times> proc) exec option" where
  "dispatch_send_vm env pf mem fd st =
     (case send_vm env pf mem fd st of
        None \<Rightarrow> None
      | Some (Fatal m) \<Rightarrow> Some (Fatal m)
      | Some (Done (r, fd1, st1)) \<Rightarrow>
          (let st2 = emit (Imsg_send_vm_response (vm_vmid (p_vm st)) r) st1 in
           if r = 0 then Some (Done (Process_exit 0, fd1, emit Imsg_flush st2))
           else Some (Done (Dispatch_continues, fd1, st2))))"

subsection \<open>restore_vmr and restore_mem\<close>

text \<open>
  The receiving side: guest memory, the bytes still to be read, and whether
  \<^verbatim>\<open>write_mem\<close> fails at an address. A short read and a failing \<^verbatim>\<open>write_mem\<close> are
  fatal.
\<close>

partial_function (option) restore_vmr_loop ::
  "(paddr \<Rightarrow> bool) \<Rightarrow> platform \<Rightarrow> vm_mem_range \<Rightarrow> size_t \<Rightarrow> size_t \<Rightarrow> gmem \<times> byte list \<Rightarrow>
   (gmem \<times> byte list) exec option" where
  "restore_vmr_loop wfails pf vmr rem wrote st =
     (if rem > 0 then
        (case atomicio_read (snd st) (unat (PAGE_SIZE pf)) of
           (buf, inp1) \<Rightarrow>
             if length buf \<noteq> unat (PAGE_SIZE pf) then Some (Fatal ''failed to restore vmr'')
             else if wfails (vmr_gpa vmr + wrote) then Some (Fatal ''failed to write vmr'')
             else restore_vmr_loop wfails pf vmr (rem - PAGE_SIZE pf) (wrote + PAGE_SIZE pf)
                    (mem_store (fst st) (vmr_gpa vmr + wrote) buf, inp1))
      else Some (Done st))"

definition restore_vmr ::
  "(paddr \<Rightarrow> bool) \<Rightarrow> platform \<Rightarrow> vm_mem_range \<Rightarrow> gmem \<times> byte list \<Rightarrow>
   (gmem \<times> byte list) exec option" where
  "restore_vmr wfails pf vmr st = restore_vmr_loop wfails pf vmr (vmr_size vmr) 0 st"

function restore_mem_from ::
  "(paddr \<Rightarrow> bool) \<Rightarrow> platform \<Rightarrow> vm_create_params \<Rightarrow> nat \<Rightarrow> gmem \<times> byte list \<Rightarrow>
   (gmem \<times> byte list) exec option" where
  "restore_mem_from wfails pf vcp i st =
     (if i < vcp_nmemranges vcp then
        (case restore_vmr wfails pf (vcp_memranges vcp ! i) st of
           None \<Rightarrow> None
         | Some (Fatal m) \<Rightarrow> Some (Fatal m)
         | Some (Done st1) \<Rightarrow> restore_mem_from wfails pf vcp (Suc i) st1)
      else Some (Done st))"
  by pat_completeness auto
termination
  by (relation "measure (\<lambda>(wfails, pf, vcp, i, st). vcp_nmemranges vcp - i)") auto

declare restore_mem_from.simps [simp del]

definition restore_mem ::
  "(paddr \<Rightarrow> bool) \<Rightarrow> platform \<Rightarrow> vm_create_params \<Rightarrow> gmem \<times> byte list \<Rightarrow>
   (gmem \<times> byte list) exec option" where
  "restore_mem wfails pf vcp st = restore_mem_from wfails pf vcp 0 st"

text \<open>
  The bytes that \<open>k\<close> successful iterations of the dump loop put into the stream, starting
  at guest-physical address \<open>gpa\<close>, and the memory that \<open>k\<close> successful iterations of
  the restore loop leave, reading from \<open>inp\<close>.
\<close>

definition dumped_pages :: "gmem \<Rightarrow> paddr \<Rightarrow> size_t \<Rightarrow> nat \<Rightarrow> byte list" where
  "dumped_pages mem gpa pg k =
     concat (map (\<lambda>j. mem_bytes mem (gpa + of_nat j * pg) (unat pg)) [0..<k])"

primrec restored_mem :: "gmem \<Rightarrow> paddr \<Rightarrow> size_t \<Rightarrow> nat \<Rightarrow> byte list \<Rightarrow> gmem" where
  "restored_mem mem gpa pg 0 inp = mem"
| "restored_mem mem gpa pg (Suc k) inp =
     restored_mem (mem_store mem gpa (take (unat pg) inp)) (gpa + pg) pg k (drop (unat pg) inp)"

subsection \<open>Receiving a VM: start_vm, restore_vm_params and run_vm\<close>

text \<open>
  The receiving process: besides VM and trace, the guest memory, the bytes of the stream
  not yet read, and what vmm(4) has been given for each VCPU by a successful
  \<^verbatim>\<open>VMM_IOC_WRITEREGS\<close> (the register state) and \<^verbatim>\<open>VMM_IOC_WRITEVMPARAMS\<close> (the
  block of parameters).
\<close>

record recv_proc = proc +
  r_mem :: gmem
  r_inp :: "byte list"
  r_regs :: "nat \<Rightarrow> byte list option"
  r_params :: "nat \<Rightarrow> byte list option"

text \<open>
  What the receiving side gets from outside. \<^verbatim>\<open>restore_emulated_hw\<close> is not part of
  the sources at hand: it takes its part of the stream and leaves the rest, or ends the
  process. The other fields say which calls fail, for the VCPU of that index.
\<close>

record recv_env =
  write_mem_fails :: "paddr \<Rightarrow> bool"
  restore_emulated_hw :: "byte list \<Rightarrow> byte list exec"
  ioc_writevmparams_fails :: "nat \<Rightarrow> bool"
  vmm_pipe_fails :: bool
  pledge_fails :: bool
  calloc_tid_fails :: bool
  malloc_fails :: "nat \<Rightarrow> bool"
  ioc_resetcpu_fails :: "nat \<Rightarrow> bool"
  sev_activate_fails :: "nat \<Rightarrow> bool"
  sev_encrypt_memory_fails :: "nat \<Rightarrow> bool"
  ioc_writeregs_res :: "nat \<Rightarrow> int"
  pthread_create_errno :: "nat \<Rightarrow> int option"
  recv_pt :: "nat \<Rightarrow> int"

text \<open>
  \<^verbatim>\<open>restore_vm_params\<close>, from VCPU \<open>i\<close> on: a record is read, the two ids in it are
  replaced, and it is given to vmm(4) with the mask (bytes 8 to 11) and the parameters
  (from byte 12 on) as they were read. The result is the value returned.
\<close>

function restore_vm_params_from ::
  "recv_env \<Rightarrow> platform \<Rightarrow> vm_create_params \<Rightarrow> nat \<Rightarrow> recv_proc \<Rightarrow> int \<times> recv_proc" where
  "restore_vm_params_from env pf vcp i st =
     (if i < vcp_ncpus vcp then
        (case atomicio_read (r_inp st) (sizeof_vpp pf) of
           (buf, inp1) \<Rightarrow>
             if length buf \<noteq> sizeof_vpp pf then (- 1, st\<lparr>r_inp := inp1\<rparr>)
             else if ioc_writevmparams_fails env i
               then (- 1, emit (Ioc_writevmparams (vcp_id vcp) i (take 4 (drop 8 buf))
                                  (drop 12 buf)) (st\<lparr>r_inp := inp1\<rparr>))
               else restore_vm_params_from env pf vcp (Suc i)
                      (emit (Ioc_writevmparams (vcp_id vcp) i (take 4 (drop 8 buf))
                               (drop 12 buf))
                         (st\<lparr>r_inp := inp1, r_params := (r_params st)(i \<mapsto> drop 12 buf)\<rparr>)))
      else (0, st))"
  by pat_completeness auto
termination
  by (relation "measure (\<lambda>(env, pf, vcp, i, st). vcp_ncpus vcp - i)") auto

declare restore_vm_params_from.simps [simp del]

definition restore_vm_params ::
  "recv_env \<Rightarrow> platform \<Rightarrow> vm_create_params \<Rightarrow> recv_proc \<Rightarrow> int \<times> recv_proc" where
  "restore_vm_params env pf vcp st = restore_vm_params_from env pf vcp 0 st"

text \<open>
  The four initialisations of condition variables and mutexes that \<^verbatim>\<open>run_vm\<close> makes
  for VCPU \<open>i\<close>: \<open>Some ret\<close> when one of them fails and \<^verbatim>\<open>run_vm\<close> returns.
\<close>

definition run_vm_sync_init :: "recv_env \<Rightarrow> nat \<Rightarrow> recv_proc \<Rightarrow> int option \<times> recv_proc" where
  "run_vm_sync_init env i st =
     (case pt_call (recv_pt env) (Cond_init (Vcpu_run_cond i)) st of
        (ret, st1) \<Rightarrow>
          if ret \<noteq> 0 then (Some ret, st1)
          else
            (case pt_call (recv_pt env) (Mutex_init (Vcpu_run_mtx i)) st1 of
               (ret, st2) \<Rightarrow>
                 if ret \<noteq> 0 then (Some ret, st2)
                 else
                   (case pt_call (recv_pt env) (Cond_init (Vcpu_unpause_cond i)) st2 of
                      (ret, st3) \<Rightarrow>
                        if ret \<noteq> 0 then (Some ret, st3)
                        else
                          (case pt_call (recv_pt env) (Mutex_init (Vcpu_unpause_mtx i)) st3 of
                             (ret, st4) \<Rightarrow>
                               if ret \<noteq> 0 then (Some ret, st4) else (None, st4)))))"

text \<open>
  The loop of \<^verbatim>\<open>run_vm\<close> that sets up and starts the VCPU threads, from VCPU \<open>i\<close> on,
  with the one register state \<^verbatim>\<open>vrs\<close> that \<^verbatim>\<open>run_vm\<close> was called with. For each
  VCPU: the two allocations, \<^verbatim>\<open>vcpu_reset\<close>, the two SEV steps, for a received VM
  \<^verbatim>\<open>VMM_IOC_WRITEREGS\<close> with \<^verbatim>\<open>vrs\<close> again, the initialisations, and
  \<^verbatim>\<open>pthread_create\<close>. \<open>Some ret\<close> is an early \<^verbatim>\<open>return\<close>, \<open>None\<close> the end of the
  loop.
\<close>

function run_vm_vcpus_from ::
  "recv_env \<Rightarrow> platform \<Rightarrow> vm_create_params \<Rightarrow> bool \<Rightarrow> byte list \<Rightarrow> nat \<Rightarrow> recv_proc \<Rightarrow>
   int option \<times> recv_proc" where
  "run_vm_vcpus_from env pf vcp received vrs i st =
     (if i < vcp_ncpus vcp then
        (if malloc_fails env i then (Some ENOMEM, st)
         else if ioc_resetcpu_fails env i
           then (Some EIO, emit (Ioc_resetcpu (vcp_id vcp) i vrs) st)
         else if sev_activate_fails env i \<or> sev_encrypt_memory_fails env i
           then (Some EIO, emit (Ioc_resetcpu (vcp_id vcp) i vrs) st)
         else
           (case (if received then
                    (if ioc_writeregs_res env i = - 1
                     then (Some (- 1),
                           emit (Ioc_writeregs (vcp_id vcp) i (VM_RWREGS_ALL pf) vrs)
                             (emit (Ioc_resetcpu (vcp_id vcp) i vrs) st))
                     else (None,
                           emit (Ioc_writeregs (vcp_id vcp) i (VM_RWREGS_ALL pf) vrs)
                             (emit (Ioc_resetcpu (vcp_id vcp) i vrs)
                                (st\<lparr>r_regs := (r_regs st)(i \<mapsto> vrs)\<rparr>))))
                  else (None, emit (Ioc_resetcpu (vcp_id vcp) i vrs) st)) of
              (Some ret, st1) \<Rightarrow> (Some ret, st1)
            | (None, st1) \<Rightarrow>
                (case run_vm_sync_init env i st1 of
                   (Some ret, st2) \<Rightarrow> (Some ret, st2)
                 | (None, st2) \<Rightarrow>
                     (case pthread_create_errno env i of
                        Some errno \<Rightarrow> (Some errno, emit (Thread_create i) st2)
                      | None \<Rightarrow>
                          run_vm_vcpus_from env pf vcp received vrs (Suc i)
                            (emit (Thread_create i) st2)))))
      else (None, st))"
  by pat_completeness auto
termination
  by (relation "measure (\<lambda>(env, pf, vcp, received, vrs, i, st). vcp_ncpus vcp - i)") auto

declare run_vm_vcpus_from.simps [simp del]

text \<open>
  \<^verbatim>\<open>run_vm\<close> up to the end of that loop: the check of the range count, the two
  \<^verbatim>\<open>calloc\<close>s, the loop. What follows (the event thread and the wait for the threads)
  is not modelled.
\<close>

definition run_vm_start ::
  "recv_env \<Rightarrow> platform \<Rightarrow> vm_create_params \<Rightarrow> byte list \<Rightarrow> recv_proc \<Rightarrow>
   int option \<times> recv_proc" where
  "run_vm_start env pf vcp vrs st =
     (if vcp_nmemranges vcp = 0 \<or> vcp_nmemranges vcp > VMM_MAX_MEM_RANGES pf
      then (Some EINVAL, st)
      else if calloc_tid_fails env then (Some ENOMEM, st)
      else run_vm_vcpus_from env pf vcp (vm_state (p_vm st) AND VM_STATE_RECEIVED \<noteq> 0)
             vrs 0 st)"

text \<open>
  The three initialisations of \<^verbatim>\<open>start_vm\<close> (\<^verbatim>\<open>threadmutex\<close>, \<^verbatim>\<open>threadcond\<close>,
  \<^verbatim>\<open>vm_mtx\<close>): \<open>Some ret\<close> when one fails and \<^verbatim>\<open>start_vm\<close> returns.
\<close>

definition start_vm_sync_init :: "recv_env \<Rightarrow> recv_proc \<Rightarrow> int option \<times> recv_proc" where
  "start_vm_sync_init env st =
     (case pt_call (recv_pt env) (Mutex_init Threadmutex) st of
        (ret, st1) \<Rightarrow>
          if ret \<noteq> 0 then (Some ret, st1)
          else
            (case pt_call (recv_pt env) (Cond_init Threadcond) st1 of
               (ret, st2) \<Rightarrow>
                 if ret \<noteq> 0 then (Some ret, st2)
                 else
                   (case pt_call (recv_pt env) (Mutex_init Vm_mtx) st2 of
                      (ret, st3) \<Rightarrow> if ret \<noteq> 0 then (Some ret, st3) else (None, st3))))"

text \<open>
  The restoring block of \<^verbatim>\<open>start_vm\<close> for a received VM: \<^verbatim>\<open>restore_mem\<close>,
  \<^verbatim>\<open>restore_emulated_hw\<close>, \<^verbatim>\<open>restore_vm_params\<close>, \<^verbatim>\<open>unpause_vm\<close>.
\<close>

definition start_vm_restore ::
  "recv_env \<Rightarrow> platform \<Rightarrow> vm_create_params \<Rightarrow> recv_proc \<Rightarrow> recv_proc exec option" where
  "start_vm_restore env pf vcp st =
     (case restore_mem (write_mem_fails env) pf vcp (r_mem st, r_inp st) of
        None \<Rightarrow> None
      | Some (Fatal m) \<Rightarrow> Some (Fatal m)
      | Some (Done (mem1, inp1)) \<Rightarrow>
          (case restore_emulated_hw env inp1 of
             Fatal m \<Rightarrow> Some (Fatal m)
           | Done inp2 \<Rightarrow>
               (case restore_vm_params env pf vcp (st\<lparr>r_mem := mem1, r_inp := inp2\<rparr>) of
                  (ret, st1) \<Rightarrow>
                    if ret \<noteq> 0 then Some (Fatal ''restore vm params failed'')
                    else Some (unpause_vm (recv_pt env) st1))))"

text \<open>
  \<^verbatim>\<open>start_vm\<close> for a VM with \<^verbatim>\<open>VM_STATE_RECEIVED\<close>, from "Prepare either our boot
  image or receive an existing vm to launch" to the call of \<^verbatim>\<open>run_vm\<close>: one record
  of \<^verbatim>\<open>sizeof(struct vm_rwregs_params)\<close> bytes is read and its register state kept as
  \<^verbatim>\<open>vrs\<close>; after the initialisations the memory, the devices and the VM parameters are
  restored; then \<^verbatim>\<open>run_vm\<close> is called with \<^verbatim>\<open>vrs\<close>. The result is \<open>Some ret\<close> when
  \<^verbatim>\<open>start_vm\<close> or \<^verbatim>\<open>run_vm\<close> returns \<open>ret\<close>, and \<open>None\<close> when all VCPU threads have
  been started. (\<^verbatim>\<open>run_vm\<close> looks at \<^verbatim>\<open>VM_STATE_RECEIVED\<close> itself before it
  writes the registers.)
\<close>

definition start_vm_receive ::
  "recv_env \<Rightarrow> platform \<Rightarrow> recv_proc \<Rightarrow> (int option \<times> recv_proc) exec option" where
  "start_vm_receive env pf st =
     (case atomicio_read (r_inp st) (sizeof_vrp pf) of
        (buf, inp1) \<Rightarrow>
          if length buf \<noteq> sizeof_vrp pf then Some (Fatal ''received incomplete vrp - exiting'')
          else
            (case start_vm_sync_init env (st\<lparr>r_inp := inp1\<rparr>) of
               (Some ret, st1) \<Rightarrow> Some (Done (Some ret, st1))
             | (None, st1) \<Rightarrow>
                 (case mutex_lock (recv_pt env) Threadmutex st1 of
                    Fatal m \<Rightarrow> Some (Fatal m)
                  | Done st2 \<Rightarrow>
                      if vmm_pipe_fails env then Some (Fatal ''setup vm pipe'')
                      else
                        (case start_vm_restore env pf (vmc_params (vm_params (p_vm st2))) st2 of
                           None \<Rightarrow> None
                         | Some (Fatal m) \<Rightarrow> Some (Fatal m)
                         | Some (Done st3) \<Rightarrow>
                             if pledge_fails env then Some (Fatal ''pledge'')
                             else
                               Some (Done (run_vm_start env pf
                                 (vmc_params (vm_params (p_vm st3)))
                                 (take (VRS_SIZE pf) (drop 16 buf)) st3))))))"

text \<open>
  The guest-physical addresses \<open>g, g + 1, ...\<close> of a block of \<open>n\<close> bytes, and two
  memories holding the same bytes at the addresses of a set.
\<close>

definition block :: "paddr \<Rightarrow> nat \<Rightarrow> paddr set" where
  "block g n = {a. unat (a - g) < n}"

definition mem_agree :: "paddr set \<Rightarrow> gmem \<Rightarrow> gmem \<Rightarrow> bool" where
  "mem_agree S m1 m2 \<longleftrightarrow> (\<forall>a\<in>S. m1 a = m2 a)"

text \<open>
  The bytes that \<^verbatim>\<open>dump_mem\<close> writes for a list of ranges whose sizes are multiples of
  the page size.
\<close>

definition dumped_ranges :: "gmem \<Rightarrow> size_t \<Rightarrow> vm_mem_range list \<Rightarrow> byte list" where
  "dumped_ranges mem pg rs =
     concat (map (\<lambda>r. dumped_pages mem (vmr_gpa r) pg (unat (vmr_size r) div unat pg)) rs)"

subsection \<open>Example configurations\<close>

text \<open>
  Small configurations on which the theorems below are exercised. The page size and the
  limits are those of OpenBSD/amd64; the two structure sizes are small stand-ins.
\<close>

definition pf_amd64 :: platform where
  "pf_amd64 = \<lparr>PAGE_SIZE = 4096, VMM_MAX_VCPUS_PER_VM = 64, VMM_MAX_MEM_RANGES = 16,
                VM_MAX_DISKS_PER_VM = 4, VM_MAX_NICS_PER_VM = 4,
                VM_RWREGS_ALL = 0x1f, VM_RWVMPARAMS_ALL = 0x3,
                VRS_SIZE = 8, VPP_DATA_SIZE = 4\<rparr>"

definition mk_range :: "vmr_kind \<Rightarrow> paddr \<Rightarrow> size_t \<Rightarrow> vm_mem_range" where
  "mk_range k gpa sz = \<lparr>vmr_gpa = gpa, vmr_size = sz, vmr_va = 0, vmr_type = k\<rparr>"

definition mk_vm :: "nat \<Rightarrow> vm_mem_range list \<Rightarrow> nat \<Rightarrow> nat \<Rightarrow> 32 word \<Rightarrow> vmd_vm" where
  "mk_vm ncpus rs ndisks nnics st =
     \<lparr>vm_params = \<lparr>vmc_params = \<lparr>vcp_nmemranges = length rs, vcp_ncpus = ncpus,
                                  vcp_memranges = rs, vcp_id = 0, vcp_asid = []\<rparr>,
                   vmc_ndisks = ndisks, vmc_nnics = nnics\<rparr>,
      vm_vmid = 1, vm_state = st, vm_sev_asid = []\<rparr>"

definition as_empty :: addr_space where
  "as_empty = \<lparr>as_maps = [], as_calls = 0\<rparr>"

definition mmap_script :: "mmap_result list \<Rightarrow> nat \<Rightarrow> mmap_result" where
  "mmap_script rs k = (if k < length rs then rs ! k else MAP_FAILED ENOMEM)"

definition env_script :: "mmap_result list \<Rightarrow> sys_env" where
  "env_script rs = \<lparr>mmap_res = mmap_script rs, munmap_ok = (\<lambda>a l. True)\<rparr>"

definition senv_plain :: start_env where
  "senv_plain = \<lparr>create_memory_map = (\<lambda>vcp. vcp), getrlimit_data = Some 0x40000000,
                  fmt_scaled = (\<lambda>l. Some ''1.0G''),
                  ioc_create_res = (\<lambda>vcp. Inr (1, replicate (vcp_ncpus vcp) 0))\<rparr>"

definition three_ranges :: "vm_mem_range list" where
  "three_ranges = [mk_range VM_MEM_RAM 0 0xA0000, mk_range VM_MEM_RAM 0x100000 0x1000,
                   mk_range VM_MEM_RAM 0x200000 0x2000]"

definition vm_three :: vmd_vm where
  "vm_three = mk_vm 1 three_ranges 0 0 VM_STATE_RECEIVED"

definition env_second_fails :: sys_env where
  "env_second_fails = env_script [Mapped 0x7000000, MAP_FAILED ENOMEM, Mapped 0x9000000]"

definition ram_and_mmio :: "vm_mem_range list" where
  "ram_and_mmio = [mk_range VM_MEM_RAM 0 0x2000, mk_range VM_MEM_MMIO 0xF0000000 0x1000]"

definition vm_ram_mmio :: vmd_vm where
  "vm_ram_mmio = mk_vm 1 ram_and_mmio 0 0 VM_STATE_RECEIVED"

definition env_two_ok :: sys_env where
  "env_two_ok = env_script [Mapped 0x7000000, Mapped 0x9000000]"

definition vm_handed_off :: vmd_vm where
  "vm_handed_off = fst (snd (alloc_guest_mem env_two_ok vm_ram_mmio as_empty))"

definition env_remap_ok :: sys_env where
  "env_remap_ok = env_script [Mapped 0x5000000]"

text \<open>
  Three configurations whose array of ranges has the 16 elements of the C array: two use
  the first element only and have a VCPU or a disk too many, the third says that it has
  17 ranges.
\<close>

definition sixteen_ranges :: "vm_mem_range list" where
  "sixteen_ranges = map (\<lambda>k. mk_range VM_MEM_RAM (of_nat k * 0x100000) 0x2000) [0..<16]"

definition with_nmemranges :: "nat \<Rightarrow> vmd_vm \<Rightarrow> vmd_vm" where
  "with_nmemranges n vm =
     vm\<lparr>vm_params := (vm_params vm)
          \<lparr>vmc_params := (vmc_params (vm_params vm))\<lparr>vcp_nmemranges := n\<rparr>\<rparr>\<rparr>"

definition vm_too_many_cpus :: vmd_vm where
  "vm_too_many_cpus = with_nmemranges 1 (mk_vm 65 sixteen_ranges 0 0 VM_STATE_RECEIVED)"

definition vm_too_many_disks :: vmd_vm where
  "vm_too_many_disks = with_nmemranges 1 (mk_vm 1 sixteen_ranges 5 0 VM_STATE_RECEIVED)"

definition vm_too_many_ranges :: vmd_vm where
  "vm_too_many_ranges = with_nmemranges 17 (mk_vm 1 sixteen_ranges 0 0 VM_STATE_RECEIVED)"

definition mapped_at :: "nat \<Rightarrow> vaddr" where
  "mapped_at k = 0x7000000 + of_nat k * 0x10000"

definition env_sixteen_ok :: sys_env where
  "env_sixteen_ok = env_script (map (\<lambda>k. Mapped (mapped_at k)) [0..<16])"

definition sharemem_ok :: "vm_sharemem_params \<Rightarrow> int option" where
  "sharemem_ok vsp = None"

definition gmem_zero :: gmem where
  "gmem_zero a = 0"

definition fd_empty :: out_fd where
  "fd_empty = \<lparr>out_bytes = [], out_calls = 0\<rparr>"

definition never :: "'a \<Rightarrow> bool" where
  "never x = False"

definition always :: "'a \<Rightarrow> bool" where
  "always x = True"

definition regs_of_cpu :: "nat \<Rightarrow> int \<times> byte list" where
  "regs_of_cpu i = (0, replicate 8 (of_nat i + 1))"

definition params_of_cpu :: "nat \<Rightarrow> int \<times> byte list" where
  "params_of_cpu i = (0, replicate 4 (of_nat i + 17))"

definition all_zero :: "nat \<Rightarrow> int" where
  "all_zero k = 0"

definition vmc_image_stub :: "vmop_create_params \<Rightarrow> byte list" where
  "vmc_image_stub vmc = replicate 4 0x56"

definition env_send_ok :: send_env where
  "env_send_ok =
     \<lparr>dump_send_header_res = (0, []), calloc_fails = False, vmc_image = vmc_image_stub,
      write_fails = never, ioc_readregs = regs_of_cpu, read_mem_fails = never,
      dump_devs_res = (0, []), pci_dump_res = (0, []), virtio_dump_res = (0, []),
      ioc_readvmparams = params_of_cpu, ioc_term = 0, pt_res = all_zero\<rparr>"

definition env_read_mem_fails :: send_env where
  "env_read_mem_fails = env_send_ok\<lparr>read_mem_fails := always\<rparr>"

definition range_two_pages :: vm_mem_range where
  "range_two_pages = mk_range VM_MEM_RAM 0x100000 0x2000"

definition range_odd_size :: vm_mem_range where
  "range_odd_size = mk_range VM_MEM_RAM 0x100000 0x1001"

definition pt_fail_at :: "nat \<Rightarrow> nat \<Rightarrow> int" where
  "pt_fail_at j k = (if k = j then 35 else 0)"

definition vm_two_cpus :: vmd_vm where
  "vm_two_cpus = mk_vm 2 [mk_range VM_MEM_RAM 0 0x1000] 0 0 0"

definition proc_running :: proc where
  "proc_running = \<lparr>p_vm = vm_two_cpus, p_trace = []\<rparr>"

definition proc_paused :: proc where
  "proc_paused = \<lparr>p_vm = vm_two_cpus\<lparr>vm_state := VM_STATE_PAUSED\<rparr>, p_trace = []\<rparr>"

definition env_header_fails :: send_env where
  "env_header_fails = env_send_ok\<lparr>dump_send_header_res := (- 1, [])\<rparr>"

definition env_vmc_write_fails :: send_env where
  "env_vmc_write_fails = env_send_ok\<lparr>write_fails := (\<lambda>k. k = 0)\<rparr>"

definition no_exit :: "nat \<Rightarrow> exit_reason" where
  "no_exit k = VM_EXIT_NONE"

definition terminated :: "nat \<Rightarrow> exit_reason" where
  "terminated k = VM_EXIT_TERMINATED"

definition no_errno :: "nat \<Rightarrow> int option" where
  "no_errno k = None"

definition zero_nat :: "nat \<Rightarrow> nat" where
  "zero_nat k = 0"

definition env_run_terminates :: run_env where
  "env_run_terminates =
     \<lparr>run_pt = all_zero, run_paused = never, run_halted = never, run_irqready = never,
      run_intr_pending = never, run_intr_ack = zero_nat, run_ioctl = no_errno,
      run_exit_reason = terminated, run_vcpu_exit = all_zero\<rparr>"

definition env_run_lock_fails :: run_env where
  "env_run_lock_fails = env_run_terminates\<lparr>run_pt := pt_fail_at 0\<rparr>"

definition env_run_barrier_fails :: run_env where
  "env_run_barrier_fails =
     env_run_terminates\<lparr>run_pt := pt_fail_at 3, run_paused := always, run_halted := always\<rparr>"

definition vcpu_start :: vcpu_proc where
  "vcpu_start = \<lparr>p_vm = vm_two_cpus, p_trace = [], p_done = {}\<rparr>"

definition gmem_ab :: gmem where
  "gmem_ab a = 0xAB"

definition vm_one_page :: "nat \<Rightarrow> 32 word \<Rightarrow> vmd_vm" where
  "vm_one_page ncpus st = mk_vm ncpus [mk_range VM_MEM_RAM 0x100000 0x1000] 0 0 st"

definition proc_sending :: "nat \<Rightarrow> proc" where
  "proc_sending ncpus = \<lparr>p_vm = vm_one_page ncpus 0, p_trace = []\<rparr>"

definition sent_stream :: "nat \<Rightarrow> byte list" where
  "sent_stream ncpus =
     out_bytes (fst (snd (the_done (the
       (send_vm env_send_ok pf_amd64 gmem_ab fd_empty (proc_sending ncpus))))))"

definition no_devices :: "byte list \<Rightarrow> byte list exec" where
  "no_devices inp = Done inp"

definition env_recv_ok :: recv_env where
  "env_recv_ok =
     \<lparr>write_mem_fails = never, restore_emulated_hw = no_devices,
      ioc_writevmparams_fails = never, vmm_pipe_fails = False, pledge_fails = False,
      calloc_tid_fails = False, malloc_fails = never, ioc_resetcpu_fails = never,
      sev_activate_fails = never, sev_encrypt_memory_fails = never,
      ioc_writeregs_res = all_zero, pthread_create_errno = no_errno, recv_pt = all_zero\<rparr>"

definition no_bytes :: "nat \<Rightarrow> byte list option" where
  "no_bytes i = None"

definition proc_receiving :: "nat \<Rightarrow> recv_proc" where
  "proc_receiving ncpus =
     \<lparr>p_vm = vm_one_page ncpus (VM_STATE_RECEIVED OR VM_STATE_PAUSED), p_trace = [],
      r_mem = gmem_zero,
      r_inp = drop (length (vmc_image_stub (vm_params (vm_one_page ncpus 0))))
                (sent_stream ncpus),
      r_regs = no_bytes, r_params = no_bytes\<rparr>"

definition received :: "nat \<Rightarrow> recv_proc" where
  "received ncpus =
     snd (the_done (the (start_vm_receive env_recv_ok pf_amd64 (proc_receiving ncpus))))"

fun is_vmm_write :: "event \<Rightarrow> bool" where
  "is_vmm_write (Ioc_resetcpu v i r) = True"
| "is_vmm_write (Ioc_writeregs v i m r) = True"
| "is_vmm_write (Ioc_writevmparams v i m p) = True"
| "is_vmm_write e = False"

section \<open>Guest memory: allocation, rollback and remapping\<close>

lemmas example_defs =
  pf_amd64_def mk_range_def mk_vm_def as_empty_def mmap_script_def env_script_def
  senv_plain_def three_ranges_def vm_three_def env_second_fails_def
  ram_and_mmio_def vm_ram_mmio_def env_two_ok_def env_remap_ok_def
  vm_too_many_cpus_def vm_too_many_disks_def vm_too_many_ranges_def sixteen_ranges_def
  with_nmemranges_def mapped_at_def env_sixteen_ok_def

lemma unmap_ranges_maps:
  assumes "\<forall>a l. munmap_ok env a l"
  shows "as_maps (unmap_ranges env rs i s) =
         filter (\<lambda>m. m \<notin> (\<lambda>j. (vmr_va (rs ! j), vmr_size (rs ! j))) ` {..<i}) (as_maps s)"
proof (induction i)
  case 0
  then show ?case by (simp add: unmap_ranges_def)
next
  case (Suc i)
  have "unmap_ranges env rs (Suc i) s =
        snd (munmap env (vmr_va (rs ! i)) (vmr_size (rs ! i)) (unmap_ranges env rs i s))"
    by (simp add: unmap_ranges_def)
  then show ?case using assms Suc
    by (auto simp: munmap_def removeAll_filter_not_eq lessThan_Suc intro!: filter_cong)
qed

lemma unmap_ranges_calls: "as_calls (unmap_ranges env rs i s) = as_calls s"
proof (induction i)
  case 0
  then show ?case by (simp add: unmap_ranges_def)
next
  case (Suc i)
  have "unmap_ranges env rs (Suc i) s =
        snd (munmap env (vmr_va (rs ! i)) (vmr_size (rs ! i)) (unmap_ranges env rs i s))"
    by (simp add: unmap_ranges_def)
  then show ?case using Suc by (simp add: munmap_def)
qed

lemma alloc_from_fails:
  assumes "vcp_nmemranges vcp \<le> length (vcp_memranges vcp)"
    and "\<forall>a l. munmap_ok env a l"
    and "k \<le> i" and "i < vcp_nmemranges vcp"
    and "\<forall>j. k \<le> j \<and> j < i \<longrightarrow> (\<exists>p. mmap_res env (as_calls s + (j - k)) = Mapped p)"
    and "mmap_res env (as_calls s + (i - k)) = MAP_FAILED e"
    and "set (as_maps s) \<subseteq> M \<union> (\<lambda>j. (vmr_va (vcp_memranges vcp ! j), vmr_size (vcp_memranges vcp ! j))) ` {..<k}"
  shows "\<exists>vcp' s'. alloc_guest_mem_from env k vcp s = (Returned e, vcp', s') \<and>
          set (as_maps s') \<subseteq> M
          \<and> as_calls s' = as_calls s + (i - k) + 1"
  using assms
proof (induction "i - k" arbitrary: k vcp s)
  case 0
  then have ki: "k = i" by simp
  have m: "mmap env (vmr_size (vcp_memranges vcp ! i)) s = (MAP_FAILED e, s\<lparr>as_calls := Suc (as_calls s)\<rparr>)"
    using 0 ki by (simp add: mmap_def)
  show ?case
    apply (subst alloc_guest_mem_from.simps)
    using 0 ki m
    by (auto simp: Let_def unmap_ranges_maps unmap_ranges_calls)
next
  case (Suc d)
  then have lt: "k < i" by simp
  obtain p where p: "mmap_res env (as_calls s) = Mapped p"
    using Suc.prems(5) lt by (metis diff_self_eq_0 le_refl add_0_right)
  let ?vmr = "vcp_memranges vcp ! k"
  let ?vcp1 = "vcp\<lparr>vcp_memranges := (vcp_memranges vcp)[k := ?vmr\<lparr>vmr_va := p\<rparr>]\<rparr>"
  let ?s1 = "s\<lparr>as_maps := (p, vmr_size ?vmr) # as_maps s, as_calls := Suc (as_calls s)\<rparr>"
  have m: "mmap env (vmr_size ?vmr) s = (Mapped p, ?s1)"
    using p by (simp add: mmap_def)
  have klen: "k < length (vcp_memranges vcp)" using Suc.prems lt by simp
  have step: "alloc_guest_mem_from env k vcp s = alloc_guest_mem_from env (Suc k) ?vcp1 ?s1"
    apply (subst alloc_guest_mem_from.simps)
    using Suc.prems lt m klen by (simp add: Let_def)
  have inv: "set (as_maps ?s1) \<subseteq> M \<union> (\<lambda>j. (vmr_va (vcp_memranges ?vcp1 ! j), vmr_size (vcp_memranges ?vcp1 ! j))) ` {..<Suc k}"
  proof
    fix m assume "m \<in> set (as_maps ?s1)"
    then consider "m = (p, vmr_size ?vmr)" | "m \<in> set (as_maps s)" by auto
    then show "m \<in> M \<union> (\<lambda>j. (vmr_va (vcp_memranges ?vcp1 ! j), vmr_size (vcp_memranges ?vcp1 ! j))) ` {..<Suc k}"
    proof cases
      case 1
      then show ?thesis using klen by (auto simp: image_iff intro!: bexI[of _ k])
    next
      case 2
      then have "m \<in> M \<or> (\<exists>j<k. m = (vmr_va (vcp_memranges vcp ! j), vmr_size (vcp_memranges vcp ! j)))"
        using Suc.prems(7) by auto
      then show ?thesis
      proof
        assume "m \<in> M" then show ?thesis by simp
      next
        assume "\<exists>j<k. m = (vmr_va (vcp_memranges vcp ! j), vmr_size (vcp_memranges vcp ! j))"
        then obtain j where "j < k" "m = (vmr_va (vcp_memranges vcp ! j), vmr_size (vcp_memranges vcp ! j))" by blast
        then show ?thesis by (auto simp: image_iff intro!: bexI[of _ j])
      qed
    qed
  qed
  have or: "\<forall>j. Suc k \<le> j \<and> j < i \<longrightarrow> (\<exists>p. mmap_res env (as_calls ?s1 + (j - Suc k)) = Mapped p)"
  proof (intro allI impI)
    fix j assume j: "Suc k \<le> j \<and> j < i"
    then have "\<exists>p. mmap_res env (as_calls s + (j - k)) = Mapped p" using Suc.prems(5) by simp
    moreover have "as_calls s + (j - k) = as_calls ?s1 + (j - Suc k)" using j by auto
    ultimately show "\<exists>p. mmap_res env (as_calls ?s1 + (j - Suc k)) = Mapped p" by simp
  qed
  have fl: "mmap_res env (as_calls ?s1 + (i - Suc k)) = MAP_FAILED e"
  proof -
    have "as_calls s + (i - k) = as_calls ?s1 + (i - Suc k)" using lt by auto
    then show ?thesis using Suc.prems(6) by simp
  qed
  have "\<exists>vcp' s'. alloc_guest_mem_from env (Suc k) ?vcp1 ?s1 = (Returned e, vcp', s') \<and> set (as_maps s') \<subseteq> M
          \<and> as_calls s' = as_calls ?s1 + (i - Suc k) + 1"
    apply (rule Suc.hyps(1))
    using Suc.hyps(2) Suc.prems(1,2,4) lt or fl inv by simp_all
  then show ?case using step lt by auto
qed

lemma alloc_from_ok:
  assumes "vcp_nmemranges vcp \<le> length (vcp_memranges vcp)"
    and "k \<le> vcp_nmemranges vcp"
    and "\<forall>j. k \<le> j \<and> j < vcp_nmemranges vcp \<longrightarrow> mmap_res env (as_calls s + (j - k)) = Mapped (adr j)"
  shows "\<exists>vcp' s'. alloc_guest_mem_from env k vcp s = (Returned 0, vcp', s')
          \<and> vcp_nmemranges vcp' = vcp_nmemranges vcp
          \<and> vcp_ncpus vcp' = vcp_ncpus vcp
          \<and> length (vcp_memranges vcp') = length (vcp_memranges vcp)
          \<and> (\<forall>j < length (vcp_memranges vcp). vcp_memranges vcp' ! j =
                (if k \<le> j \<and> j < vcp_nmemranges vcp
                 then (vcp_memranges vcp ! j)\<lparr>vmr_va := adr j\<rparr> else vcp_memranges vcp ! j))
          \<and> set (as_maps s') = set (as_maps s) \<union>
                (\<lambda>j. (adr j, vmr_size (vcp_memranges vcp ! j))) ` {k..<vcp_nmemranges vcp}"
  using assms
proof (induction "vcp_nmemranges vcp - k" arbitrary: k vcp s)
  case 0
  then have "k = vcp_nmemranges vcp" by simp
  then show ?case
    by (subst alloc_guest_mem_from.simps) auto
next
  case (Suc d)
  then have lt: "k < vcp_nmemranges vcp" by simp
  let ?vmr = "vcp_memranges vcp ! k"
  let ?vcp1 = "vcp\<lparr>vcp_memranges := (vcp_memranges vcp)[k := ?vmr\<lparr>vmr_va := adr k\<rparr>]\<rparr>"
  let ?s1 = "s\<lparr>as_maps := (adr k, vmr_size ?vmr) # as_maps s, as_calls := Suc (as_calls s)\<rparr>"
  have p: "mmap_res env (as_calls s) = Mapped (adr k)"
    using Suc.prems(3) lt by (metis diff_self_eq_0 le_refl add_0_right)
  have m: "mmap env (vmr_size ?vmr) s = (Mapped (adr k), ?s1)"
    using p by (simp add: mmap_def)
  have klen: "k < length (vcp_memranges vcp)" using Suc.prems(1) lt by simp
  have step: "alloc_guest_mem_from env k vcp s = alloc_guest_mem_from env (Suc k) ?vcp1 ?s1"
    apply (subst alloc_guest_mem_from.simps)
    using lt m klen by (simp add: Let_def)
  have or: "\<forall>j. Suc k \<le> j \<and> j < vcp_nmemranges ?vcp1 \<longrightarrow> mmap_res env (as_calls ?s1 + (j - Suc k)) = Mapped (adr j)"
  proof (intro allI impI)
    fix j assume j: "Suc k \<le> j \<and> j < vcp_nmemranges ?vcp1"
    then have "mmap_res env (as_calls s + (j - k)) = Mapped (adr j)" using Suc.prems(3) by simp
    moreover have "as_calls s + (j - k) = as_calls ?s1 + (j - Suc k)" using j by auto
    ultimately show "mmap_res env (as_calls ?s1 + (j - Suc k)) = Mapped (adr j)" by simp
  qed
  have "\<exists>vcp' s'. alloc_guest_mem_from env (Suc k) ?vcp1 ?s1 = (Returned 0, vcp', s')
          \<and> vcp_nmemranges vcp' = vcp_nmemranges ?vcp1
          \<and> vcp_ncpus vcp' = vcp_ncpus ?vcp1
          \<and> length (vcp_memranges vcp') = length (vcp_memranges ?vcp1)
          \<and> (\<forall>j < length (vcp_memranges ?vcp1). vcp_memranges vcp' ! j =
                (if Suc k \<le> j \<and> j < vcp_nmemranges ?vcp1
                 then (vcp_memranges ?vcp1 ! j)\<lparr>vmr_va := adr j\<rparr> else vcp_memranges ?vcp1 ! j))
          \<and> set (as_maps s') = set (as_maps ?s1) \<union>
                (\<lambda>j. (adr j, vmr_size (vcp_memranges ?vcp1 ! j))) ` {Suc k..<vcp_nmemranges ?vcp1}"
    apply (rule Suc.hyps(1))
    using Suc.hyps(2) Suc.prems(1) lt or by simp_all
  then obtain vcp' s' where r: "alloc_guest_mem_from env (Suc k) ?vcp1 ?s1 = (Returned 0, vcp', s')"
     and n: "vcp_nmemranges vcp' = vcp_nmemranges vcp" "vcp_ncpus vcp' = vcp_ncpus vcp"
     and l: "length (vcp_memranges vcp') = length (vcp_memranges vcp)"
     and e: "\<forall>j < length (vcp_memranges vcp). vcp_memranges vcp' ! j =
                (if Suc k \<le> j \<and> j < vcp_nmemranges vcp
                 then (vcp_memranges ?vcp1 ! j)\<lparr>vmr_va := adr j\<rparr> else vcp_memranges ?vcp1 ! j)"
     and mp: "set (as_maps s') = set (as_maps ?s1) \<union>
                (\<lambda>j. (adr j, vmr_size (vcp_memranges ?vcp1 ! j))) ` {Suc k..<vcp_nmemranges vcp}"
    by auto
  have e': "\<forall>j < length (vcp_memranges vcp). vcp_memranges vcp' ! j =
                (if k \<le> j \<and> j < vcp_nmemranges vcp
                 then (vcp_memranges vcp ! j)\<lparr>vmr_va := adr j\<rparr> else vcp_memranges vcp ! j)"
  proof (intro allI impI)
    fix j assume jl: "j < length (vcp_memranges vcp)"
    show "vcp_memranges vcp' ! j =
                (if k \<le> j \<and> j < vcp_nmemranges vcp
                 then (vcp_memranges vcp ! j)\<lparr>vmr_va := adr j\<rparr> else vcp_memranges vcp ! j)"
      using e[rule_format, OF jl] jl lt by (cases "j = k") (auto simp: nth_list_update)
  qed
  have img: "(\<lambda>j. (adr j, vmr_size (vcp_memranges ?vcp1 ! j))) ` {Suc k..<vcp_nmemranges vcp}
           = (\<lambda>j. (adr j, vmr_size (vcp_memranges vcp ! j))) ` {Suc k..<vcp_nmemranges vcp}"
    by (rule image_cong) (auto simp: nth_list_update)
  have split: "{k..<vcp_nmemranges vcp} = insert k {Suc k..<vcp_nmemranges vcp}"
    using lt by auto
  have mp': "set (as_maps s') = set (as_maps s) \<union>
                (\<lambda>j. (adr j, vmr_size (vcp_memranges vcp ! j))) ` {k..<vcp_nmemranges vcp}"
    unfolding mp img split by auto
  show ?case using step r n l e' mp' by simp
qed


lemma remap_reserve_Inr:
  "remap_reserve_from env pf k vsp vcp s = Inr (vsp', vcp', s') \<Longrightarrow>
   length (vsp_memranges vsp) = length (vcp_memranges vcp) \<Longrightarrow>
   remap_inv pf k vsp vcp vsp' vcp'"
proof (induction env pf k vsp vcp s rule: remap_reserve_from.induct)
  case (1 env pf i vsp vcp s)
  show ?case
  proof (cases "i < VMM_MAX_MEM_RANGES pf")
    case False
    then have "vsp' = vsp" "vcp' = vcp"
      using "1.prems"(1) by (subst (asm) remap_reserve_from.simps, simp)+
    then show ?thesis using False by (auto simp: remap_inv_def)
  next
    case max: True
    show ?thesis
    proof (cases "i < vsp_nmemranges vsp")
      case False
      have "remap_reserve_from env pf (Suc i) vsp vcp s = Inr (vsp', vcp', s')"
        using "1.prems"(1) max False by (subst (asm) remap_reserve_from.simps) simp
      then have "remap_inv pf (Suc i) vsp vcp vsp' vcp'"
        using "1.IH"(3)[OF max False] "1.prems"(2) by simp
      then show ?thesis using False unfolding remap_inv_def by auto
    next
      case n: True
      let ?vmr = "vsp_memranges vsp ! i"
      show ?thesis
      proof (cases "vmr_type ?vmr = VM_MEM_MMIO")
        case mmio: True
        let ?vsp1 = "vsp\<lparr>vsp_memranges := (vsp_memranges vsp)[i := ?vmr\<lparr>vmr_va := 0\<rparr>]\<rparr>"
        let ?vcp1 = "vcp\<lparr>vcp_memranges := (vcp_memranges vcp)[i := (vcp_memranges vcp ! i)\<lparr>vmr_va := 0\<rparr>]\<rparr>"
        have "remap_reserve_from env pf (Suc i) ?vsp1 ?vcp1 s = Inr (vsp', vcp', s')"
          using "1.prems"(1) max n mmio by (subst (asm) remap_reserve_from.simps) (simp add: Let_def)
        then have inv: "remap_inv pf (Suc i) ?vsp1 ?vcp1 vsp' vcp'"
          using "1.IH"(1)[OF max n refl mmio] "1.prems"(2) by simp
        show ?thesis
          unfolding remap_inv_def
        proof (intro conjI allI impI)
          fix j assume jl: "j < length (vsp_memranges vsp)"
          note I = inv[unfolded remap_inv_def, simplified]
          have J: "vmr_type (vsp_memranges vsp' ! j) = vmr_type (vsp_memranges ?vsp1 ! j)"
            "vmr_type (vcp_memranges vcp' ! j) = vmr_type (vcp_memranges ?vcp1 ! j)"
            "j < Suc i \<longrightarrow> vsp_memranges vsp' ! j = vsp_memranges ?vsp1 ! j \<and>
                   vcp_memranges vcp' ! j = vcp_memranges ?vcp1 ! j"
            "Suc i \<le> j \<and> j < VMM_MAX_MEM_RANGES pf \<and> j < vsp_nmemranges vsp \<longrightarrow>
               vmr_va (vcp_memranges vcp' ! j) = vmr_va (vsp_memranges vsp' ! j) \<and>
               (vmr_type (vsp_memranges ?vsp1 ! j) = VM_MEM_MMIO \<longrightarrow>
                  vmr_va (vsp_memranges vsp' ! j) = 0)"
            using I jl by auto
          show "vmr_type (vsp_memranges vsp' ! j) = vmr_type (vsp_memranges vsp ! j)"
            using J(1) jl by (cases "j = i") (simp_all add: nth_list_update)
          show "vmr_type (vcp_memranges vcp' ! j) = vmr_type (vcp_memranges vcp ! j)"
            using J(2) jl "1.prems"(2) by (cases "j = i") (simp_all add: nth_list_update)
          show "vsp_memranges vsp' ! j = vsp_memranges vsp ! j" if "j < i"
            using J(3) that jl by (simp add: nth_list_update)
          show "vcp_memranges vcp' ! j = vcp_memranges vcp ! j" if "j < i"
            using J(3) that jl by (simp add: nth_list_update)
          show "vmr_va (vcp_memranges vcp' ! j) = vmr_va (vsp_memranges vsp' ! j)"
            if "i \<le> j \<and> j < VMM_MAX_MEM_RANGES pf \<and> j < vsp_nmemranges vsp"
            using J(3,4) that jl "1.prems"(2) by (cases "j = i") (simp_all add: nth_list_update)
          show "vmr_va (vsp_memranges vsp' ! j) = 0"
            if "i \<le> j \<and> j < VMM_MAX_MEM_RANGES pf \<and> j < vsp_nmemranges vsp"
              and "vmr_type (vsp_memranges vsp ! j) = VM_MEM_MMIO"
            using J(3,4) that jl by (cases "j = i") (simp_all add: nth_list_update)
        qed (use inv in \<open>simp_all add: remap_inv_def\<close>)
      next
        case ram: False
        obtain r s1 where m: "mmap env (vmr_size ?vmr) s = (r, s1)" by force
        show ?thesis
        proof (cases r)
          case (MAP_FAILED e)
          then have False
            using "1.prems"(1) max n ram m by (subst (asm) remap_reserve_from.simps) (simp add: Let_def)
          then show ?thesis ..
        next
          case (Mapped p)
          let ?vsp1 = "vsp\<lparr>vsp_memranges := (vsp_memranges vsp)[i := ?vmr\<lparr>vmr_va := p\<rparr>]\<rparr>"
          let ?vcp1 = "vcp\<lparr>vcp_memranges := (vcp_memranges vcp)[i := (vcp_memranges vcp ! i)\<lparr>vmr_va := p\<rparr>]\<rparr>"
          have "remap_reserve_from env pf (Suc i) ?vsp1 ?vcp1 s1 = Inr (vsp', vcp', s')"
            using "1.prems"(1) max n ram m Mapped
            by (subst (asm) remap_reserve_from.simps) (simp add: Let_def)
          then have inv: "remap_inv pf (Suc i) ?vsp1 ?vcp1 vsp' vcp'"
            using "1.IH"(2)[OF max n refl ram m[symmetric, unfolded Mapped] refl] "1.prems"(2) by simp
          show ?thesis
            unfolding remap_inv_def
          proof (intro conjI allI impI)
            fix j assume jl: "j < length (vsp_memranges vsp)"
            note I = inv[unfolded remap_inv_def, simplified]
            have J: "vmr_type (vsp_memranges vsp' ! j) = vmr_type (vsp_memranges ?vsp1 ! j)"
              "vmr_type (vcp_memranges vcp' ! j) = vmr_type (vcp_memranges ?vcp1 ! j)"
              "j < Suc i \<longrightarrow> vsp_memranges vsp' ! j = vsp_memranges ?vsp1 ! j \<and>
                     vcp_memranges vcp' ! j = vcp_memranges ?vcp1 ! j"
              "Suc i \<le> j \<and> j < VMM_MAX_MEM_RANGES pf \<and> j < vsp_nmemranges vsp \<longrightarrow>
                 vmr_va (vcp_memranges vcp' ! j) = vmr_va (vsp_memranges vsp' ! j) \<and>
                 (vmr_type (vsp_memranges ?vsp1 ! j) = VM_MEM_MMIO \<longrightarrow>
                    vmr_va (vsp_memranges vsp' ! j) = 0)"
              using I jl by auto
            show "vmr_type (vsp_memranges vsp' ! j) = vmr_type (vsp_memranges vsp ! j)"
              using J(1) jl by (cases "j = i") (simp_all add: nth_list_update)
            show "vmr_type (vcp_memranges vcp' ! j) = vmr_type (vcp_memranges vcp ! j)"
              using J(2) jl "1.prems"(2) by (cases "j = i") (simp_all add: nth_list_update)
            show "vsp_memranges vsp' ! j = vsp_memranges vsp ! j" if "j < i"
              using J(3) that jl by (simp add: nth_list_update)
            show "vcp_memranges vcp' ! j = vcp_memranges vcp ! j" if "j < i"
              using J(3) that jl by (simp add: nth_list_update)
            show "vmr_va (vcp_memranges vcp' ! j) = vmr_va (vsp_memranges vsp' ! j)"
              if "i \<le> j \<and> j < VMM_MAX_MEM_RANGES pf \<and> j < vsp_nmemranges vsp"
              using J(3,4) that jl "1.prems"(2) by (cases "j = i") (simp_all add: nth_list_update)
            show "vmr_va (vsp_memranges vsp' ! j) = 0"
              if "i \<le> j \<and> j < VMM_MAX_MEM_RANGES pf \<and> j < vsp_nmemranges vsp"
                and "vmr_type (vsp_memranges vsp ! j) = VM_MEM_MMIO"
              using J(3,4) that jl ram by (cases "j = i") (simp_all add: nth_list_update)
          qed (use inv in \<open>simp_all add: remap_inv_def\<close>)
        qed
      qed
    qed
  qed
qed

text \<open>
  C3. Whenever an \<^verbatim>\<open>mmap\<close> of \<^verbatim>\<open>alloc_guest_mem\<close> fails (the one for range
  \<open>i\<close>, the earlier ones having succeeded), the allocator unmaps what it mapped before
  and returns the errno of the failed call: the address space holds no mapping that it did
  not hold before the call. \<^verbatim>\<open>start_vm\<close> then stops before anything is asked of
  vmm(4): it ends the process with a message that carries the data resource limit when the
  errno is \<^verbatim>\<open>ENOMEM\<close> and \<^verbatim>\<open>getrlimit\<close> and \<^verbatim>\<open>fmt_scaled\<close> succeed, and returns
  the errno otherwise. (\<^verbatim>\<open>munmap\<close> is taken to succeed, and a failed \<^verbatim>\<open>mmap\<close> to set
  a non-zero errno.)
\<close>

theorem alloc_guest_mem_rollback:
  assumes "vm0 = start_memory_map senv vm"
    and "vcp = vmc_params (vm_params vm0)"
    and "vcp_nmemranges vcp \<le> length (vcp_memranges vcp)"
    and "\<forall>a l. munmap_ok env a l"
    and "i < vcp_nmemranges vcp"
    and "\<forall>j<i. \<exists>p. mmap_res env (as_calls s + j) = Mapped p"
    and "mmap_res env (as_calls s + i) = MAP_FAILED e"
    and "e \<noteq> 0"
  shows "\<exists>vm' s'.
           alloc_guest_mem env vm0 s = (Returned e, vm', s') \<and>
           set (as_maps s') \<subseteq> set (as_maps s) \<and>
           start_vm_create env senv pf vm s =
             (case (if e = ENOMEM then getrlimit_data senv else None) of
                Some lim \<Rightarrow>
                  (case fmt_scaled senv lim of
                     Some buf \<Rightarrow>
                       Start_fatal (''could not allocate guest memory (data limit is '' @ buf @ '')'')
                   | None \<Rightarrow> Start_returned e)
              | None \<Rightarrow> Start_returned e, s', [])"
proof -
  have "\<forall>j. 0 \<le> j \<and> j < i \<longrightarrow> (\<exists>p. mmap_res env (as_calls s + (j - 0)) = Mapped p)"
    using assms(6) by simp
  moreover have "mmap_res env (as_calls s + (i - 0)) = MAP_FAILED e"
    using assms(7) by simp
  moreover have "set (as_maps s) \<subseteq> set (as_maps s) \<union>
      (\<lambda>j. (vmr_va (vcp_memranges vcp ! j), vmr_size (vcp_memranges vcp ! j))) ` {..<0}"
    by simp
  ultimately obtain vcp' s' where r: "alloc_guest_mem_from env 0 vcp s = (Returned e, vcp', s')"
    and sub: "set (as_maps s') \<subseteq> set (as_maps s)"
    using alloc_from_fails[OF assms(3) assms(4) le0 assms(5), of s e "set (as_maps s)"]
    by blast
  let ?vm' = "vm0\<lparr>vm_params := (vm_params vm0)\<lparr>vmc_params := vcp'\<rparr>\<rparr>"
  have a: "alloc_guest_mem env vm0 s = (Returned e, ?vm', s')"
    using r assms(2) by (simp add: alloc_guest_mem_def)
  have "start_vm_create env senv pf vm s =
             (case (if e = ENOMEM then getrlimit_data senv else None) of
                Some lim \<Rightarrow>
                  (case fmt_scaled senv lim of
                     Some buf \<Rightarrow>
                       Start_fatal (''could not allocate guest memory (data limit is '' @ buf @ '')'')
                   | None \<Rightarrow> Start_returned e)
              | None \<Rightarrow> Start_returned e, s', [])"
    using a assms(1) assms(8)
    by (simp add: start_vm_create_def Let_def split: option.splits)
  then show ?thesis using a sub by blast
qed

text \<open>
  The scenario of three ranges whose second allocation fails with \<^verbatim>\<open>ENOMEM\<close>: the
  mapping of the first range is released and the process ends reporting the limit.
\<close>

theorem alloc_guest_mem_rollback_witness:
  "vcp_nmemranges (vmc_params (vm_params vm_three)) \<le>
     length (vcp_memranges (vmc_params (vm_params vm_three))) \<and>
   mmap_res env_second_fails (as_calls as_empty + 0) = Mapped 0x7000000 \<and>
   mmap_res env_second_fails (as_calls as_empty + 1) = MAP_FAILED ENOMEM \<and>
   fst (alloc_guest_mem env_second_fails vm_three as_empty) = Returned ENOMEM \<and>
   as_maps (snd (snd (alloc_guest_mem env_second_fails vm_three as_empty))) = [] \<and>
   fst (start_vm_create env_second_fails senv_plain pf_amd64 vm_three as_empty) =
     Start_fatal ''could not allocate guest memory (data limit is 1.0G)''"
proof -
  have h0: "vm_three = start_memory_map senv_plain vm_three"
    by (simp add: start_memory_map_def example_defs VM_STATE_RECEIVED_def)
  have h1: "vcp_nmemranges (vmc_params (vm_params vm_three)) \<le>
     length (vcp_memranges (vmc_params (vm_params vm_three)))"
    by (simp add: example_defs)
  have h2: "\<forall>a l. munmap_ok env_second_fails a l"
    by (simp add: example_defs)
  have h3: "1 < vcp_nmemranges (vmc_params (vm_params vm_three))"
    by (simp add: example_defs)
  have h4: "\<forall>j<1. \<exists>p. mmap_res env_second_fails (as_calls as_empty + j) = Mapped p"
    by (simp add: example_defs)
  have h5: "mmap_res env_second_fails (as_calls as_empty + 1) = MAP_FAILED ENOMEM"
    by (simp add: example_defs)
  have h6: "ENOMEM \<noteq> 0" by (simp add: ENOMEM_def)
  from alloc_guest_mem_rollback[OF h0 refl h1 h2 h3 h4 h5 h6, of pf_amd64]
  obtain vm' s' where
    a: "alloc_guest_mem env_second_fails vm_three as_empty = (Returned ENOMEM, vm', s')"
    and m: "set (as_maps s') \<subseteq> set (as_maps as_empty)"
    and st: "fst (start_vm_create env_second_fails senv_plain pf_amd64 vm_three as_empty) =
       Start_fatal ''could not allocate guest memory (data limit is 1.0G)''"
    by (auto simp: senv_plain_def)
  have "as_maps s' = []" using m by (simp add: as_empty_def)
  then show ?thesis using a st h1 h5 by (simp add: example_defs)
qed
lemmas eval_defs =
  alloc_guest_mem_def alloc_guest_mem_from.simps mmap_def munmap_def unmap_ranges_def Let_def
  remap_guest_mem_def remap_reserve_from.simps remap_release_from.simps
  start_vm_create_def start_memory_map_def vmm_create_vm_def
  ENOMEM_def EINVAL_def VM_STATE_RECEIVED_def sharemem_ok_def

text \<open>
  C4, as the code has it. \<^verbatim>\<open>alloc_guest_mem\<close> does not look at the type of a range:
  when every \<^verbatim>\<open>mmap\<close> succeeds, each range of the list, MMIO or RAM, has the address
  that its \<^verbatim>\<open>mmap\<close> returned as \<^verbatim>\<open>vmr_va\<close>, and that mapping is live.
  \<^verbatim>\<open>remap_guest_mem\<close> does skip MMIO ranges: when it gets as far as
  \<^verbatim>\<open>VMM_IOC_SHAREMEM\<close>, every MMIO range has \<^verbatim>\<open>vmr_va = 0\<close> in the parameters of
  the VM and in the request passed to vmm(4).
\<close>

theorem guest_mem_mmio_ranges:
  assumes "vcp = vmc_params (vm_params vm)"
    and "vcp_nmemranges vcp \<le> length (vcp_memranges vcp)"
  shows "((\<forall>j<vcp_nmemranges vcp. mmap_res env (as_calls s + j) = Mapped (adr j)) \<longrightarrow>
            (\<exists>vm1 s1. alloc_guest_mem env vm s = (Returned 0, vm1, s1) \<and>
               (\<forall>j<vcp_nmemranges vcp.
                  vmr_va (vcp_memranges (vmc_params (vm_params vm1)) ! j) = adr j \<and>
                  vmr_type (vcp_memranges (vmc_params (vm_params vm1)) ! j) =
                    vmr_type (vcp_memranges vcp ! j) \<and>
                  (adr j, vmr_size (vcp_memranges vcp ! j)) \<in> set (as_maps s1)))) \<and>
         (vcp_nmemranges vcp \<le> VMM_MAX_MEM_RANGES pf \<longrightarrow>
          remap_guest_mem env ioc pf (Some vm) s = Done (ret, Some vm2, Some vsp, s2) \<longrightarrow>
            (\<forall>j<vcp_nmemranges vcp. vmr_type (vcp_memranges vcp ! j) = VM_MEM_MMIO \<longrightarrow>
               vmr_va (vcp_memranges (vmc_params (vm_params vm2)) ! j) = 0 \<and>
               vmr_va (vsp_memranges vsp ! j) = 0))"
proof (intro conjI impI)
  assume ok: "\<forall>j<vcp_nmemranges vcp. mmap_res env (as_calls s + j) = Mapped (adr j)"
  then have "\<forall>j. 0 \<le> j \<and> j < vcp_nmemranges vcp \<longrightarrow>
      mmap_res env (as_calls s + (j - 0)) = Mapped (adr j)"
    by simp
  from alloc_from_ok[OF assms(2) le0 this]
  obtain vcp' s' where r: "alloc_guest_mem_from env 0 vcp s = (Returned 0, vcp', s')"
    and e: "\<forall>j < length (vcp_memranges vcp). vcp_memranges vcp' ! j =
                (if 0 \<le> j \<and> j < vcp_nmemranges vcp
                 then (vcp_memranges vcp ! j)\<lparr>vmr_va := adr j\<rparr> else vcp_memranges vcp ! j)"
    and mp: "set (as_maps s') = set (as_maps s) \<union>
                (\<lambda>j. (adr j, vmr_size (vcp_memranges vcp ! j))) ` {0..<vcp_nmemranges vcp}"
    by blast
  let ?vm1 = "vm\<lparr>vm_params := (vm_params vm)\<lparr>vmc_params := vcp'\<rparr>\<rparr>"
  have a: "alloc_guest_mem env vm s = (Returned 0, ?vm1, s')"
    using r assms(1) by (simp add: alloc_guest_mem_def)
  have "\<forall>j<vcp_nmemranges vcp.
          vmr_va (vcp_memranges (vmc_params (vm_params ?vm1)) ! j) = adr j \<and>
          vmr_type (vcp_memranges (vmc_params (vm_params ?vm1)) ! j) =
            vmr_type (vcp_memranges vcp ! j) \<and>
          (adr j, vmr_size (vcp_memranges vcp ! j)) \<in> set (as_maps s')"
  proof (intro allI impI)
    fix j assume j: "j < vcp_nmemranges vcp"
    then have "vcp_memranges vcp' ! j = (vcp_memranges vcp ! j)\<lparr>vmr_va := adr j\<rparr>"
      using e assms(2) by simp
    moreover have "(adr j, vmr_size (vcp_memranges vcp ! j)) \<in> set (as_maps s')"
      unfolding mp using j by auto
    ultimately show "vmr_va (vcp_memranges (vmc_params (vm_params ?vm1)) ! j) = adr j \<and>
          vmr_type (vcp_memranges (vmc_params (vm_params ?vm1)) ! j) =
            vmr_type (vcp_memranges vcp ! j) \<and>
          (adr j, vmr_size (vcp_memranges vcp ! j)) \<in> set (as_maps s')"
      by simp
  qed
  then show "\<exists>vm1 s1. alloc_guest_mem env vm s = (Returned 0, vm1, s1) \<and>
               (\<forall>j<vcp_nmemranges vcp.
                  vmr_va (vcp_memranges (vmc_params (vm_params vm1)) ! j) = adr j \<and>
                  vmr_type (vcp_memranges (vmc_params (vm_params vm1)) ! j) =
                    vmr_type (vcp_memranges vcp ! j) \<and>
                  (adr j, vmr_size (vcp_memranges vcp ! j)) \<in> set (as_maps s1))"
    using a by blast
next
  assume mx: "vcp_nmemranges vcp \<le> VMM_MAX_MEM_RANGES pf"
    and rm: "remap_guest_mem env ioc pf (Some vm) s = Done (ret, Some vm2, Some vsp, s2)"
  let ?vsp0 = "\<lparr>vsp_nmemranges = vcp_nmemranges vcp, vsp_vm_id = vcp_id vcp,
                 vsp_memranges = vcp_memranges vcp\<rparr>"
  obtain vsp1 vcp1 s1 where res: "remap_reserve_from env pf 0 ?vsp0 vcp s = Inr (vsp1, vcp1, s1)"
    and vm2: "vm2 = vm\<lparr>vm_params := (vm_params vm)\<lparr>vmc_params := vcp1\<rparr>\<rparr>"
    and vsp: "vsp = vsp1"
    using rm assms(1)
    by (auto simp: remap_guest_mem_def Let_def split: sum.splits exec.splits option.splits)
  have inv: "remap_inv pf 0 ?vsp0 vcp vsp1 vcp1"
    by (rule remap_reserve_Inr[OF res]) simp
  show "\<forall>j<vcp_nmemranges vcp. vmr_type (vcp_memranges vcp ! j) = VM_MEM_MMIO \<longrightarrow>
               vmr_va (vcp_memranges (vmc_params (vm_params vm2)) ! j) = 0 \<and>
               vmr_va (vsp_memranges vsp ! j) = 0"
  proof (intro allI impI)
    fix j assume j: "j < vcp_nmemranges vcp"
      and t: "vmr_type (vcp_memranges vcp ! j) = VM_MEM_MMIO"
    have jl: "j < length (vcp_memranges vcp)" using j assms(2) by simp
    have jm: "j < VMM_MAX_MEM_RANGES pf" using j mx by simp
    have "vmr_va (vcp_memranges vcp1 ! j) = vmr_va (vsp_memranges vsp1 ! j) \<and>
          vmr_va (vsp_memranges vsp1 ! j) = 0"
      using inv jl jm j t unfolding remap_inv_def by simp
    then show "vmr_va (vcp_memranges (vmc_params (vm_params vm2)) ! j) = 0 \<and>
               vmr_va (vsp_memranges vsp ! j) = 0"
      using vm2 vsp by simp
  qed
qed

text \<open>
  A RAM range and an MMIO range: \<^verbatim>\<open>alloc_guest_mem\<close> maps both; on the VM it leaves
  behind, \<^verbatim>\<open>remap_guest_mem\<close> reserves an address for the RAM range only and leaves the
  MMIO range at zero.
\<close>

theorem guest_mem_mmio_ranges_witness:
  "vmr_va (vcp_memranges (vmc_params (vm_params
      (fst (snd (alloc_guest_mem env_two_ok vm_ram_mmio as_empty))))) ! 1) = 0x9000000 \<and>
   vmr_type (vcp_memranges (vmc_params (vm_params vm_handed_off)) ! 1) = VM_MEM_MMIO \<and>
   vmr_va (vcp_memranges (vmc_params (vm_params vm_handed_off)) ! 1) = 0x9000000 \<and>
   vmr_va (vcp_memranges (vmc_params (vm_params (the (fst (snd (the_done
      (remap_guest_mem env_remap_ok sharemem_ok pf_amd64 (Some vm_handed_off) as_empty))))))) ! 1) = 0"
proof -
  let ?vcp = "vmc_params (vm_params vm_ram_mmio)"
  have h1: "vcp_nmemranges ?vcp \<le> length (vcp_memranges ?vcp)"
    by (simp add: example_defs)
  have h2: "\<forall>j<vcp_nmemranges ?vcp. mmap_res env_two_ok (as_calls as_empty + j) =
      Mapped ((\<lambda>j. if j = 0 then 0x7000000 else 0x9000000) j)"
    by (auto simp: example_defs less_Suc_eq)
  have one: "1 < vcp_nmemranges ?vcp" by (simp add: example_defs)
  from guest_mem_mmio_ranges[where adr = "\<lambda>j. if j = 0 then 0x7000000 else 0x9000000"
      and env = env_two_ok and s = as_empty, OF refl h1, THEN conjunct1, THEN mp, OF h2]
  obtain vm1 s1 where a: "alloc_guest_mem env_two_ok vm_ram_mmio as_empty = (Returned 0, vm1, s1)"
    and v: "vmr_va (vcp_memranges (vmc_params (vm_params vm1)) ! 1) = 0x9000000"
    using one by fastforce
  have ho: "vm_handed_off = vm1" using a by (simp add: vm_handed_off_def)
  have t: "vmr_type (vcp_memranges (vmc_params (vm_params vm_handed_off)) ! 1) = VM_MEM_MMIO"
    by (simp add: vm_handed_off_def example_defs eval_defs)
  let ?vcp2 = "vmc_params (vm_params vm_handed_off)"
  have g1: "vcp_nmemranges ?vcp2 \<le> length (vcp_memranges ?vcp2)"
    by (simp add: vm_handed_off_def example_defs eval_defs)
  have g2: "vcp_nmemranges ?vcp2 \<le> VMM_MAX_MEM_RANGES pf_amd64"
    by (simp add: vm_handed_off_def example_defs eval_defs)
  have g3: "1 < vcp_nmemranges ?vcp2"
    by (simp add: vm_handed_off_def example_defs eval_defs)
  obtain ret vm2 vsp s2 where
    r: "remap_guest_mem env_remap_ok sharemem_ok pf_amd64 (Some vm_handed_off) as_empty =
          Done (ret, Some vm2, Some vsp, s2)"
    by (simp add: vm_handed_off_def example_defs eval_defs)
  from guest_mem_mmio_ranges[OF refl g1, THEN conjunct2, THEN mp, THEN mp, OF g2 r] g3 t
  have "vmr_va (vcp_memranges (vmc_params (vm_params vm2)) ! 1) = 0" by simp
  then show ?thesis using a v t ho r by simp
qed

text \<open>
  The claim C4 as stated fails on the code: after a successful \<^verbatim>\<open>alloc_guest_mem\<close> the
  MMIO range of this list is backed by a live mapping and has a non-zero address.
\<close>

theorem alloc_guest_mem_maps_mmio_range:
  "fst (alloc_guest_mem env_two_ok vm_ram_mmio as_empty) = Returned 0 \<and>
   vmr_type (vcp_memranges (vmc_params (vm_params
      (fst (snd (alloc_guest_mem env_two_ok vm_ram_mmio as_empty))))) ! 1) = VM_MEM_MMIO \<and>
   vmr_va (vcp_memranges (vmc_params (vm_params
      (fst (snd (alloc_guest_mem env_two_ok vm_ram_mmio as_empty))))) ! 1) = 0x9000000 \<and>
   as_maps (snd (snd (alloc_guest_mem env_two_ok vm_ram_mmio as_empty))) =
     [(0x9000000, 0x1000), (0x7000000, 0x2000)]"
  by (simp add: example_defs eval_defs)

section \<open>Validation of the configuration\<close>




section \<open>The page loops of the memory dump\<close>

lemma unat_sub_page:
  fixes rem pg :: "64 word"
  assumes "unat rem = Suc k * unat pg"
  shows "unat (rem - pg) = k * unat pg"
proof -
  have "unat pg \<le> unat rem" using assms by simp
  then have "pg \<le> rem" by (simp add: word_le_nat_alt)
  then have "unat (rem - pg) = unat rem - unat pg" by (rule unat_sub)
  then show ?thesis using assms by simp
qed

lemma dvd_unat_sub_page:
  fixes rem pg :: "64 word"
  assumes "unat pg dvd 2 ^ 64"
  shows "unat pg dvd unat (rem - pg) \<longleftrightarrow> unat pg dvd unat rem"
proof -
  have d: "uint pg dvd (2::int) ^ 64"
  proof -
    have "int (unat pg) dvd int (2 ^ 64)" using assms by (simp only: int_dvd_int_iff)
    then show ?thesis by simp
  qed
  have "uint (rem - pg) = (uint rem - uint pg) mod 2 ^ 64"
    by (simp add: uint_word_ariths)
  then have "uint pg dvd uint (rem - pg) \<longleftrightarrow> uint pg dvd (uint rem - uint pg)"
    using d by (simp add: dvd_mod_iff)
  also have "\<dots> \<longleftrightarrow> uint pg dvd uint rem"
    by (simp add: dvd_diff_left_iff)
  finally have "int (unat pg) dvd int (unat (rem - pg)) \<longleftrightarrow> int (unat pg) dvd int (unat rem)"
    by simp
  then show ?thesis by (simp only: int_dvd_int_iff)
qed


lemma dump_loop_Some_dvd:
  assumes "dump_vmr_loop env pf mem vmr rem rd fd = Some y"
  shows "unat (PAGE_SIZE pf) dvd 2 ^ 64 \<longrightarrow> fst y = 0 \<longrightarrow> unat (PAGE_SIZE pf) dvd unat rem"
proof (rule dump_vmr_loop.raw_induct[where P = "\<lambda>env pf mem vmr rem rd fd y.
    unat (PAGE_SIZE pf) dvd 2 ^ 64 \<longrightarrow> fst y = 0 \<longrightarrow> unat (PAGE_SIZE pf) dvd unat rem", OF _ assms])
  fix loop env pf mem vmr rem rd fd and y :: "int \<times> out_fd"
  assume 1: "\<And>env pf mem vmr rem rd fd y. loop env pf mem vmr rem rd fd = Some y \<Longrightarrow>
      unat (PAGE_SIZE pf) dvd 2 ^ 64 \<longrightarrow> fst y = 0 \<longrightarrow> unat (PAGE_SIZE pf) dvd unat rem"
    "(if 0 < rem
      then if read_mem_fails env (vmr_gpa vmr + rd) then Some (- 1, fd)
           else case atomicio_vwrite (write_fails env) fd
                      (mem_bytes mem (vmr_gpa vmr + rd) (unat (PAGE_SIZE pf))) of
                (n, fd1) \<Rightarrow>
                  if n \<noteq> unat (PAGE_SIZE pf) then Some (- 1, fd1)
                  else loop env pf mem vmr (rem - PAGE_SIZE pf) (rd + PAGE_SIZE pf) fd1
      else Some (0, fd)) = Some y"
  show "unat (PAGE_SIZE pf) dvd 2 ^ 64 \<longrightarrow> fst y = 0 \<longrightarrow> unat (PAGE_SIZE pf) dvd unat rem"
  proof (intro impI)
    assume d: "unat (PAGE_SIZE pf) dvd 2 ^ 64" and y0: "fst y = 0"
    show "unat (PAGE_SIZE pf) dvd unat rem"
    proof (cases "0 < rem")
      case False
      then have "rem = 0" using word_gt_0 by auto
      then show ?thesis by simp
    next
      case True
      obtain n fd1 where w: "atomicio_vwrite (write_fails env) fd
          (mem_bytes mem (vmr_gpa vmr + rd) (unat (PAGE_SIZE pf))) = (n, fd1)"
        by force
      have nf: "\<not> read_mem_fails env (vmr_gpa vmr + rd)"
      proof
        assume "read_mem_fails env (vmr_gpa vmr + rd)"
        then have "y = (- 1, fd)" using "1"(2) True by simp
        then show False using y0 by simp
      qed
      have n: "n = unat (PAGE_SIZE pf)"
      proof (rule ccontr)
        assume "n \<noteq> unat (PAGE_SIZE pf)"
        then have "y = (- 1, fd1)" using "1"(2) True nf w by simp
        then show False using y0 by simp
      qed
      have "loop env pf mem vmr (rem - PAGE_SIZE pf) (rd + PAGE_SIZE pf) fd1 = Some y"
        using "1"(2) True w nf n by simp
      then have "unat (PAGE_SIZE pf) dvd unat (rem - PAGE_SIZE pf)"
        using "1"(1) d y0 by blast
      then show ?thesis using dvd_unat_sub_page[OF d] by simp
    qed
  qed
qed

lemma dump_loop_Some_ok:
  assumes "dump_vmr_loop env pf mem vmr rem rd fd = Some y"
  shows "(\<forall>a. \<not> read_mem_fails env a) \<longrightarrow> (\<forall>k. \<not> write_fails env k) \<longrightarrow> fst y = 0"
proof (rule dump_vmr_loop.raw_induct[where P = "\<lambda>env pf mem vmr rem rd fd y.
    (\<forall>a. \<not> read_mem_fails env a) \<longrightarrow> (\<forall>k. \<not> write_fails env k) \<longrightarrow> fst y = 0", OF _ assms])
  fix loop env pf mem vmr rem rd fd and y :: "int \<times> out_fd"
  assume 1: "\<And>env pf mem vmr rem rd fd y. loop env pf mem vmr rem rd fd = Some y \<Longrightarrow>
      (\<forall>a. \<not> read_mem_fails env a) \<longrightarrow> (\<forall>k. \<not> write_fails env k) \<longrightarrow> fst y = 0"
    "(if 0 < rem
      then if read_mem_fails env (vmr_gpa vmr + rd) then Some (- 1, fd)
           else case atomicio_vwrite (write_fails env) fd
                      (mem_bytes mem (vmr_gpa vmr + rd) (unat (PAGE_SIZE pf))) of
                (n, fd1) \<Rightarrow>
                  if n \<noteq> unat (PAGE_SIZE pf) then Some (- 1, fd1)
                  else loop env pf mem vmr (rem - PAGE_SIZE pf) (rd + PAGE_SIZE pf) fd1
      else Some (0, fd)) = Some y"
  show "(\<forall>a. \<not> read_mem_fails env a) \<longrightarrow> (\<forall>k. \<not> write_fails env k) \<longrightarrow> fst y = 0"
  proof (intro impI)
    assume r: "\<forall>a. \<not> read_mem_fails env a" and w: "\<forall>k. \<not> write_fails env k"
    show "fst y = 0"
    proof (cases "0 < rem")
      case False
      then show ?thesis using "1"(2) by auto
    next
      case True
      let ?fd1 = "fd\<lparr>out_bytes := out_bytes fd @ mem_bytes mem (vmr_gpa vmr + rd) (unat (PAGE_SIZE pf)),
                      out_calls := Suc (out_calls fd)\<rparr>"
      have "atomicio_vwrite (write_fails env) fd
          (mem_bytes mem (vmr_gpa vmr + rd) (unat (PAGE_SIZE pf))) = (unat (PAGE_SIZE pf), ?fd1)"
        using w by (simp add: atomicio_vwrite_def mem_bytes_def)
      then have "loop env pf mem vmr (rem - PAGE_SIZE pf) (rd + PAGE_SIZE pf) ?fd1 = Some y"
        using "1"(2) True r by simp
      then show ?thesis using "1"(1) r w by blast
    qed
  qed
qed

lemma dumped_pages_Suc:
  "dumped_pages mem gpa pg (Suc k) = mem_bytes mem gpa (unat pg) @ dumped_pages mem (gpa + pg) pg k"
proof -
  have "[0..<Suc k] = 0 # map Suc [0..<k]"
    by (simp add: upt_conv_Cons map_Suc_upt del: upt_Suc)
  then show ?thesis
    by (simp add: dumped_pages_def comp_def algebra_simps del: upt_Suc)
qed

lemma dump_loop_pages:
  assumes "\<forall>a. \<not> read_mem_fails env a" and "\<forall>k. \<not> write_fails env k"
    and "PAGE_SIZE pf \<noteq> 0"
  shows "unat rem = k * unat (PAGE_SIZE pf) \<Longrightarrow>
         dump_vmr_loop env pf mem vmr rem rd fd =
           Some (0, fd\<lparr>out_bytes := out_bytes fd @ dumped_pages mem (vmr_gpa vmr + rd) (PAGE_SIZE pf) k,
                       out_calls := out_calls fd + k\<rparr>)"
proof (induction k arbitrary: rem rd fd)
  case 0
  then have "rem = 0" by (simp add: unat_eq_0)
  then show ?case
    by (subst dump_vmr_loop.simps) (simp add: dumped_pages_def)
next
  case (Suc k)
  have pos: "0 < unat (PAGE_SIZE pf)" using assms(3) by (simp add: unat_gt_0)
  then have "0 < unat rem" using Suc.prems by simp
  then have r0: "0 < rem" by (simp add: word_less_nat_alt)
  let ?pg = "PAGE_SIZE pf"
  let ?fd1 = "fd\<lparr>out_bytes := out_bytes fd @ mem_bytes mem (vmr_gpa vmr + rd) (unat ?pg),
                  out_calls := Suc (out_calls fd)\<rparr>"
  have w: "atomicio_vwrite (write_fails env) fd (mem_bytes mem (vmr_gpa vmr + rd) (unat ?pg))
         = (unat ?pg, ?fd1)"
    using assms(2) by (simp add: atomicio_vwrite_def mem_bytes_def)
  have step: "dump_vmr_loop env pf mem vmr rem rd fd =
              dump_vmr_loop env pf mem vmr (rem - ?pg) (rd + ?pg) ?fd1"
    by (subst dump_vmr_loop.simps) (use r0 assms(1) w in simp)
  have "unat (rem - ?pg) = k * unat ?pg" using Suc.prems by (rule unat_sub_page)
  from Suc.IH[OF this, of "rd + ?pg" ?fd1]
  show ?case unfolding step
    by (simp add: dumped_pages_Suc add.assoc)
qed


lemma restore_loop_Done_dvd:
  assumes "restore_vmr_loop wfails pf vmr rem wrote st = Some y"
  shows "unat (PAGE_SIZE pf) dvd 2 ^ 64 \<longrightarrow> (\<exists>st'. y = Done st') \<longrightarrow>
         unat (PAGE_SIZE pf) dvd unat rem"
proof (rule restore_vmr_loop.raw_induct[where P = "\<lambda>wfails pf vmr rem wrote st y.
    unat (PAGE_SIZE pf) dvd 2 ^ 64 \<longrightarrow> (\<exists>st'. y = Done st') \<longrightarrow> unat (PAGE_SIZE pf) dvd unat rem",
    OF _ assms])
  fix loop wfails pf vmr rem wrote and st :: "gmem \<times> byte list" and y :: "(gmem \<times> byte list) exec"
  assume 1: "\<And>wfails pf vmr rem wrote st y. loop wfails pf vmr rem wrote st = Some y \<Longrightarrow>
      unat (PAGE_SIZE pf) dvd 2 ^ 64 \<longrightarrow> (\<exists>st'. y = Done st') \<longrightarrow> unat (PAGE_SIZE pf) dvd unat rem"
    "(if 0 < rem then
        (case atomicio_read (snd st) (unat (PAGE_SIZE pf)) of
           (buf, inp1) \<Rightarrow>
             if length buf \<noteq> unat (PAGE_SIZE pf) then Some (Fatal ''failed to restore vmr'')
             else if wfails (vmr_gpa vmr + wrote) then Some (Fatal ''failed to write vmr'')
             else loop wfails pf vmr (rem - PAGE_SIZE pf) (wrote + PAGE_SIZE pf)
                    (mem_store (fst st) (vmr_gpa vmr + wrote) buf, inp1))
      else Some (Done st)) = Some y"
  show "unat (PAGE_SIZE pf) dvd 2 ^ 64 \<longrightarrow> (\<exists>st'. y = Done st') \<longrightarrow> unat (PAGE_SIZE pf) dvd unat rem"
  proof (intro impI)
    assume d: "unat (PAGE_SIZE pf) dvd 2 ^ 64" and y0: "\<exists>st'. y = Done st'"
    show "unat (PAGE_SIZE pf) dvd unat rem"
    proof (cases "0 < rem")
      case False
      then have "rem = 0" using word_gt_0 by auto
      then show ?thesis by simp
    next
      case True
      obtain buf inp1 where w: "atomicio_read (snd st) (unat (PAGE_SIZE pf)) = (buf, inp1)"
        by force
      have "loop wfails pf vmr (rem - PAGE_SIZE pf) (wrote + PAGE_SIZE pf)
                    (mem_store (fst st) (vmr_gpa vmr + wrote) buf, inp1) = Some y"
        using "1"(2) True w y0 by (auto split: if_splits)
      then have "unat (PAGE_SIZE pf) dvd unat (rem - PAGE_SIZE pf)"
        using "1"(1) d y0 by blast
      then show ?thesis using dvd_unat_sub_page[OF d] by simp
    qed
  qed
qed

lemma restore_loop_pages:
  assumes "\<forall>a. \<not> wfails a" and "PAGE_SIZE pf \<noteq> 0"
  shows "unat rem = k * unat (PAGE_SIZE pf) \<Longrightarrow> k * unat (PAGE_SIZE pf) \<le> length inp \<Longrightarrow>
         restore_vmr_loop wfails pf vmr rem wrote (mem, inp) =
           Some (Done (restored_mem mem (vmr_gpa vmr + wrote) (PAGE_SIZE pf) k inp,
                       drop (k * unat (PAGE_SIZE pf)) inp))"
proof (induction k arbitrary: rem wrote mem inp)
  case 0
  then have "rem = 0" by (simp add: unat_eq_0)
  then show ?case
    by (subst restore_vmr_loop.simps) simp
next
  case (Suc k)
  let ?pg = "PAGE_SIZE pf"
  have pos: "0 < unat ?pg" using assms(2) by (simp add: unat_gt_0)
  then have "0 < unat rem" using Suc.prems by simp
  then have r0: "0 < rem" by (simp add: word_less_nat_alt)
  have len: "unat ?pg \<le> length inp" using Suc.prems(2) by simp
  have step: "restore_vmr_loop wfails pf vmr rem wrote (mem, inp) =
              restore_vmr_loop wfails pf vmr (rem - ?pg) (wrote + ?pg)
                (mem_store mem (vmr_gpa vmr + wrote) (take (unat ?pg) inp), drop (unat ?pg) inp)"
    by (subst restore_vmr_loop.simps) (use r0 assms(1) len in \<open>simp add: atomicio_read_def\<close>)
  have u: "unat (rem - ?pg) = k * unat ?pg" using Suc.prems(1) by (rule unat_sub_page)
  have l: "k * unat ?pg \<le> length (drop (unat ?pg) inp)" using Suc.prems(2) by simp
  from Suc.IH[OF u l, of "wrote + ?pg" "mem_store mem (vmr_gpa vmr + wrote) (take (unat ?pg) inp)"]
  show ?case unfolding step
    by (simp add: ac_simps)
qed

lemma page_nonzero:
  fixes pg :: "64 word"
  assumes "unat pg dvd 2 ^ 64"
  shows "pg \<noteq> 0"
proof
  assume "pg = 0"
  then have "(0::nat) dvd 2 ^ 64" using assms by simp
  then show False by simp
qed

lemma counter_never_zero:
  fixes sz pg :: "64 word"
  assumes "unat pg dvd 2 ^ 64" and "\<not> unat pg dvd unat sz"
  shows "sz - of_nat k * pg \<noteq> 0"
proof
  assume "sz - of_nat k * pg = 0"
  then have "sz = of_nat k * pg" by simp
  then have "unat sz = (unat (of_nat k :: 64 word) * unat pg) mod 2 ^ 64"
    by (simp add: unat_word_ariths)
  moreover have "unat pg dvd (unat (of_nat k :: 64 word) * unat pg) mod 2 ^ 64"
    using assms(1) by (simp add: dvd_mod)
  ultimately show False using assms(2) by simp
qed

text \<open>
  C10, as the code has it. Let the page size be a power of two (a divisor of \<open>2 ^ 64\<close>),
  as it is on every platform. For a range whose size is a multiple of the page size, the
  loops of \<^verbatim>\<open>dump_vmr\<close> and \<^verbatim>\<open>restore_vmr\<close> end normally as long as no I/O fails (and
  the stream holds the bytes of the range). For a range whose size is not a multiple, the
  counter \<^verbatim>\<open>rem\<close> wraps around and never is zero, so neither loop ever ends normally:
  \<^verbatim>\<open>dump_vmr\<close> never returns 0 and \<^verbatim>\<open>restore_vmr\<close> never returns; they can only be
  left through a failing \<^verbatim>\<open>read_mem\<close>, \<^verbatim>\<open>write_mem\<close> or \<^verbatim>\<open>atomicio\<close> (return of
  -1, or \<^verbatim>\<open>fatal\<close>), and as long as \<^verbatim>\<open>read_mem\<close> and the writes succeed,
  \<^verbatim>\<open>dump_vmr\<close> does not return at all.
\<close>

theorem vmr_loops_page_multiple:
  assumes "unat (PAGE_SIZE pf) dvd 2 ^ 64"
  shows "(unat (PAGE_SIZE pf) dvd unat (vmr_size vmr) \<longrightarrow>
            ((\<forall>a. \<not> read_mem_fails env a) \<and> (\<forall>k. \<not> write_fails env k) \<longrightarrow>
               (\<exists>fd'. dump_vmr env pf mem vmr fd = Some (0, fd'))) \<and>
            ((\<forall>a. \<not> wfails a) \<and> unat (vmr_size vmr) \<le> length inp \<longrightarrow>
               (\<exists>st'. restore_vmr wfails pf vmr (rmem, inp) = Some (Done st')))) \<and>
         (\<not> unat (PAGE_SIZE pf) dvd unat (vmr_size vmr) \<longrightarrow>
            (\<forall>k. vmr_size vmr - of_nat k * PAGE_SIZE pf \<noteq> 0) \<and>
            (\<forall>fd'. dump_vmr env pf mem vmr fd \<noteq> Some (0, fd')) \<and>
            ((\<forall>a. \<not> read_mem_fails env a) \<and> (\<forall>k. \<not> write_fails env k) \<longrightarrow>
               dump_vmr env pf mem vmr fd = None) \<and>
            (\<forall>st'. restore_vmr wfails pf vmr (rmem, inp) \<noteq> Some (Done st')))"
proof (intro conjI impI allI)
  assume m: "unat (PAGE_SIZE pf) dvd unat (vmr_size vmr)"
    and ok: "(\<forall>a. \<not> read_mem_fails env a) \<and> (\<forall>k. \<not> write_fails env k)"
  obtain k where k: "unat (vmr_size vmr) = k * unat (PAGE_SIZE pf)"
    using m by (auto simp: dvd_def mult.commute)
  show "\<exists>fd'. dump_vmr env pf mem vmr fd = Some (0, fd')"
    unfolding dump_vmr_def
    using dump_loop_pages[OF _ _ page_nonzero[OF assms] k, of env mem vmr 0 fd] ok by blast
next
  assume m: "unat (PAGE_SIZE pf) dvd unat (vmr_size vmr)"
    and ok: "(\<forall>a. \<not> wfails a) \<and> unat (vmr_size vmr) \<le> length inp"
  obtain k where k: "unat (vmr_size vmr) = k * unat (PAGE_SIZE pf)"
    using m by (auto simp: dvd_def mult.commute)
  have "k * unat (PAGE_SIZE pf) \<le> length inp" using ok k by simp
  from restore_loop_pages[OF _ page_nonzero[OF assms] k this, of wfails vmr 0 rmem] ok
  show "\<exists>st'. restore_vmr wfails pf vmr (rmem, inp) = Some (Done st')"
    unfolding restore_vmr_def by blast
next
  fix k assume "\<not> unat (PAGE_SIZE pf) dvd unat (vmr_size vmr)"
  then show "vmr_size vmr - of_nat k * PAGE_SIZE pf \<noteq> 0"
    by (rule counter_never_zero[OF assms])
next
  fix fd' assume n: "\<not> unat (PAGE_SIZE pf) dvd unat (vmr_size vmr)"
  show "dump_vmr env pf mem vmr fd \<noteq> Some (0, fd')"
  proof
    assume "dump_vmr env pf mem vmr fd = Some (0, fd')"
    then have "dump_vmr_loop env pf mem vmr (vmr_size vmr) 0 fd = Some (0, fd')"
      by (simp add: dump_vmr_def)
    from dump_loop_Some_dvd[OF this] assms n show False by simp
  qed
next
  assume n: "\<not> unat (PAGE_SIZE pf) dvd unat (vmr_size vmr)"
    and ok: "(\<forall>a. \<not> read_mem_fails env a) \<and> (\<forall>k. \<not> write_fails env k)"
  show "dump_vmr env pf mem vmr fd = None"
  proof (cases "dump_vmr env pf mem vmr fd")
    case None
    then show ?thesis .
  next
    case (Some y)
    then have l: "dump_vmr_loop env pf mem vmr (vmr_size vmr) 0 fd = Some y"
      by (simp add: dump_vmr_def)
    have "fst y = 0" using dump_loop_Some_ok[OF l] ok by blast
    then have "unat (PAGE_SIZE pf) dvd unat (vmr_size vmr)"
      using dump_loop_Some_dvd[OF l] assms by blast
    then show ?thesis using n by simp
  qed
next
  fix st' assume n: "\<not> unat (PAGE_SIZE pf) dvd unat (vmr_size vmr)"
  show "restore_vmr wfails pf vmr (rmem, inp) \<noteq> Some (Done st')"
  proof
    assume "restore_vmr wfails pf vmr (rmem, inp) = Some (Done st')"
    then have "restore_vmr_loop wfails pf vmr (vmr_size vmr) 0 (rmem, inp) = Some (Done st')"
      by (simp add: restore_vmr_def)
    from restore_loop_Done_dvd[OF this] assms n show False by simp
  qed
qed

lemmas io_defs = gmem_zero_def fd_empty_def never_def always_def regs_of_cpu_def
  params_of_cpu_def all_zero_def vmc_image_stub_def env_send_ok_def env_read_mem_fails_def
  range_two_pages_def range_odd_size_def

theorem vmr_loops_page_multiple_witness:
  "unat (PAGE_SIZE pf_amd64) dvd 2 ^ 64 \<and>
   unat (PAGE_SIZE pf_amd64) dvd unat (vmr_size range_two_pages) \<and>
   (\<exists>fd'. dump_vmr env_send_ok pf_amd64 gmem_zero range_two_pages fd_empty = Some (0, fd')) \<and>
   (\<exists>st'. restore_vmr never pf_amd64 range_two_pages (gmem_zero, replicate 8192 0) = Some (Done st')) \<and>
   \<not> unat (PAGE_SIZE pf_amd64) dvd unat (vmr_size range_odd_size) \<and>
   dump_vmr env_send_ok pf_amd64 gmem_zero range_odd_size fd_empty = None \<and>
   vmr_size range_odd_size - of_nat 2 * PAGE_SIZE pf_amd64 \<noteq> 0"
proof -
  have p: "unat (PAGE_SIZE pf_amd64) dvd 2 ^ 64" by (simp add: pf_amd64_def)
  have m: "unat (PAGE_SIZE pf_amd64) dvd unat (vmr_size range_two_pages)"
    by (simp add: pf_amd64_def range_two_pages_def mk_range_def)
  have n: "\<not> unat (PAGE_SIZE pf_amd64) dvd unat (vmr_size range_odd_size)"
    by (simp add: pf_amd64_def range_odd_size_def mk_range_def)
  have ok: "(\<forall>a. \<not> read_mem_fails env_send_ok a) \<and> (\<forall>k. \<not> write_fails env_send_ok k)"
    by (simp add: env_send_ok_def never_def)
  have rk: "(\<forall>a. \<not> never a) \<and> unat (vmr_size range_two_pages) \<le> length (replicate 8192 (0::byte))"
    by (simp add: never_def range_two_pages_def mk_range_def)
  note t1 = vmr_loops_page_multiple[OF p, where vmr = range_two_pages and env = env_send_ok
      and wfails = never and inp = "replicate 8192 0" and mem = gmem_zero and fd = fd_empty
      and rmem = gmem_zero]
  note t2 = vmr_loops_page_multiple[OF p, where vmr = range_odd_size and env = env_send_ok
      and wfails = never and inp = "[]" and mem = gmem_zero and fd = fd_empty
      and rmem = gmem_zero]
  show ?thesis using t1 t2 p m n ok rk by blast
qed

text \<open>
  The claim C10 as stated ("the loop never terminates") fails on the code: for a range of
  4097 bytes, \<^verbatim>\<open>dump_vmr\<close> returns -1 once \<^verbatim>\<open>read_mem\<close> fails, and
  \<^verbatim>\<open>restore_vmr\<close> ends in \<^verbatim>\<open>fatal\<close> on a stream that is too short.
\<close>

theorem vmr_loops_leave_on_failure:
  "\<not> unat (PAGE_SIZE pf_amd64) dvd unat (vmr_size range_odd_size) \<and>
   dump_vmr env_read_mem_fails pf_amd64 gmem_zero range_odd_size fd_empty = Some (- 1, fd_empty) \<and>
   restore_vmr never pf_amd64 range_odd_size (gmem_zero, []) = Some (Fatal ''failed to restore vmr'')"
  by (simp add: dump_vmr_def restore_vmr_def dump_vmr_loop.simps restore_vmr_loop.simps
      atomicio_read_def pf_amd64_def mk_range_def io_defs)

section \<open>Guest memory, dumped and restored\<close>

text \<open>
  What \<^verbatim>\<open>dump_mem\<close> writes for ranges whose sizes are multiples of the page size,
  \<^verbatim>\<open>restore_mem\<close> reads back into the same ranges: afterwards every range holds the
  bytes it held in the sender, whatever the memory of the receiver held before.
\<close>

lemma mem_store_mem_bytes:
  "mem_store m g (mem_bytes mem g n) a = (if unat (a - g) < n then mem a else m a)"
  by (simp add: mem_store_def mem_bytes_def)

lemma block_Suc_pages:
  fixes g pg :: "64 word"
  shows "block g (Suc k * unat pg) \<subseteq> block g (unat pg) \<union> block (g + pg) (k * unat pg)"
proof
  fix a assume "a \<in> block g (Suc k * unat pg)"
  then have a: "unat (a - g) < unat pg + k * unat pg" by (simp add: block_def)
  show "a \<in> block g (unat pg) \<union> block (g + pg) (k * unat pg)"
  proof (cases "unat (a - g) < unat pg")
    case True
    then show ?thesis by (simp add: block_def)
  next
    case False
    then have "pg \<le> a - g" by (simp add: word_le_nat_alt)
    then have "unat (a - g - pg) = unat (a - g) - unat pg" by (rule unat_sub)
    moreover have "a - (g + pg) = a - g - pg" by simp
    ultimately have "unat (a - (g + pg)) = unat (a - g) - unat pg" by (simp only:)
    then have "unat (a - (g + pg)) < k * unat pg" using a False by arith
    then show ?thesis by (simp add: block_def)
  qed
qed

lemma mem_agree_store:
  assumes "mem_agree S m mem"
  shows "mem_agree (S \<union> block g n) (mem_store m g (mem_bytes mem g n)) mem"
  using assms by (auto simp: mem_agree_def mem_store_mem_bytes block_def)

lemma mem_agree_mono: "mem_agree S m1 m2 \<Longrightarrow> T \<subseteq> S \<Longrightarrow> mem_agree T m1 m2"
  by (auto simp: mem_agree_def)

lemma length_mem_bytes [simp]: "length (mem_bytes mem g n) = n"
  by (simp add: mem_bytes_def)

lemma length_dumped_pages [simp]: "length (dumped_pages mem g pg k) = k * unat pg"
  by (induction k arbitrary: g) (simp_all add: dumped_pages_Suc, simp add: dumped_pages_def)

lemma restored_mem_agree:
  "mem_agree S m mem \<Longrightarrow>
   mem_agree (S \<union> block g (k * unat pg))
     (restored_mem m g pg k (dumped_pages mem g pg k @ rest)) mem"
proof (induction k arbitrary: S m g)
  case 0
  then show ?case by (auto simp: block_def mem_agree_def)
next
  case (Suc k)
  let ?m1 = "mem_store m g (mem_bytes mem g (unat pg))"
  have a1: "mem_agree (S \<union> block g (unat pg)) ?m1 mem"
    using Suc.prems by (rule mem_agree_store)
  have "mem_agree ((S \<union> block g (unat pg)) \<union> block (g + pg) (k * unat pg))
      (restored_mem ?m1 (g + pg) pg k (dumped_pages mem (g + pg) pg k @ rest)) mem"
    using a1 by (rule Suc.IH)
  moreover have "restored_mem m g pg (Suc k) (dumped_pages mem g pg (Suc k) @ rest) =
      restored_mem ?m1 (g + pg) pg k (dumped_pages mem (g + pg) pg k @ rest)"
    by (simp add: dumped_pages_Suc)
  moreover have "S \<union> block g (Suc k * unat pg) \<subseteq>
      (S \<union> block g (unat pg)) \<union> block (g + pg) (k * unat pg)"
    using block_Suc_pages[of g k pg] by auto
  ultimately show ?case by (metis mem_agree_mono)
qed

lemma mem_agree_block_bytes:
  assumes "mem_agree (block g n) m1 m2" and "n \<le> 2 ^ 64"
  shows "mem_bytes m1 g n = mem_bytes m2 g n"
proof -
  have "\<And>k. k < n \<Longrightarrow> m1 (g + word_of_nat k) = m2 (g + word_of_nat k)"
  proof -
    fix k assume k: "k < n"
    then have "k < 2 ^ 64" using assms(2) by simp
    then have "unat (word_of_nat k :: 64 word) = k" by (simp add: unat_of_nat)
    then have "g + word_of_nat k \<in> block g n" using k by (simp add: block_def)
    then show "m1 (g + word_of_nat k) = m2 (g + word_of_nat k)"
      using assms(1) by (simp add: mem_agree_def)
  qed
  then show ?thesis by (simp add: mem_bytes_def)
qed

lemma dumped_ranges_Cons:
  "dumped_ranges mem pg (r # rs) =
     dumped_pages mem (vmr_gpa r) pg (unat (vmr_size r) div unat pg) @ dumped_ranges mem pg rs"
  by (simp add: dumped_ranges_def)

lemma dump_vmr_pages:
  assumes "\<forall>a. \<not> read_mem_fails env a" and "\<forall>k. \<not> write_fails env k"
    and "PAGE_SIZE pf \<noteq> 0" and "unat (PAGE_SIZE pf) dvd unat (vmr_size vmr)"
  shows "dump_vmr env pf mem vmr fd =
     Some (0, fd\<lparr>out_bytes := out_bytes fd @
                    dumped_pages mem (vmr_gpa vmr) (PAGE_SIZE pf)
                      (unat (vmr_size vmr) div unat (PAGE_SIZE pf)),
                 out_calls := out_calls fd + unat (vmr_size vmr) div unat (PAGE_SIZE pf)\<rparr>)"
proof -
  have "unat (vmr_size vmr) = (unat (vmr_size vmr) div unat (PAGE_SIZE pf)) * unat (PAGE_SIZE pf)"
    using assms(4) by simp
  from dump_loop_pages[OF assms(1,2,3) this, of mem vmr 0 fd]
  show ?thesis by (simp add: dump_vmr_def)
qed

lemma dump_mem_from_ranges:
  assumes "\<forall>a. \<not> read_mem_fails env a" and "\<forall>k. \<not> write_fails env k"
    and "PAGE_SIZE pf \<noteq> 0"
    and "\<forall>j < vcp_nmemranges vcp. unat (PAGE_SIZE pf) dvd unat (vmr_size (vcp_memranges vcp ! j))"
  shows "\<exists>fd'. dump_mem_from env pf mem vcp i fd = Some (0, fd') \<and>
     out_bytes fd' = out_bytes fd @
       dumped_ranges mem (PAGE_SIZE pf) (map ((!) (vcp_memranges vcp)) [i..<vcp_nmemranges vcp])"
proof (induction "vcp_nmemranges vcp - i" arbitrary: i fd)
  case 0
  then have "\<not> i < vcp_nmemranges vcp" by simp
  then show ?case
    by (subst dump_mem_from.simps) (simp add: dumped_ranges_def)
next
  case (Suc d)
  then have lt: "i < vcp_nmemranges vcp" and d: "d = vcp_nmemranges vcp - Suc i" by simp_all
  let ?r = "vcp_memranges vcp ! i"
  let ?k = "unat (vmr_size ?r) div unat (PAGE_SIZE pf)"
  let ?fd1 = "fd\<lparr>out_bytes := out_bytes fd @ dumped_pages mem (vmr_gpa ?r) (PAGE_SIZE pf) ?k,
                  out_calls := out_calls fd + ?k\<rparr>"
  have dv: "unat (PAGE_SIZE pf) dvd unat (vmr_size ?r)" using assms(4) lt by simp
  have one: "dump_vmr env pf mem ?r fd = Some (0, ?fd1)"
    using assms(1,2,3) dv by (rule dump_vmr_pages)
  have step: "dump_mem_from env pf mem vcp i fd = dump_mem_from env pf mem vcp (Suc i) ?fd1"
    by (subst dump_mem_from.simps) (simp add: lt one)
  have up: "[i..<vcp_nmemranges vcp] = i # [Suc i..<vcp_nmemranges vcp]"
    using lt by (simp add: upt_conv_Cons)
  from Suc.hyps(1)[OF d, of ?fd1]
  show ?case unfolding step up
    by (simp add: dumped_ranges_Cons)
qed

lemma restore_vmr_pages:
  assumes "\<forall>a. \<not> wfails a" and "PAGE_SIZE pf \<noteq> 0"
    and "unat (PAGE_SIZE pf) dvd unat (vmr_size vmr)"
    and "mem_agree S m mem"
  shows "\<exists>m'. restore_vmr wfails pf vmr
           (m, dumped_pages mem (vmr_gpa vmr) (PAGE_SIZE pf)
                 (unat (vmr_size vmr) div unat (PAGE_SIZE pf)) @ rest) = Some (Done (m', rest)) \<and>
         mem_agree (S \<union> block (vmr_gpa vmr) (unat (vmr_size vmr))) m' mem"
proof -
  let ?k = "unat (vmr_size vmr) div unat (PAGE_SIZE pf)"
  let ?inp = "dumped_pages mem (vmr_gpa vmr) (PAGE_SIZE pf) ?k @ rest"
  have u: "unat (vmr_size vmr) = ?k * unat (PAGE_SIZE pf)" using assms(3) by simp
  have l: "?k * unat (PAGE_SIZE pf) \<le> length ?inp" by simp
  from restore_loop_pages[OF assms(1,2) u l, of vmr 0 m]
  have "restore_vmr wfails pf vmr (m, ?inp) =
      Some (Done (restored_mem m (vmr_gpa vmr) (PAGE_SIZE pf) ?k ?inp, rest))"
    by (simp add: restore_vmr_def)
  moreover have "mem_agree (S \<union> block (vmr_gpa vmr) (?k * unat (PAGE_SIZE pf)))
      (restored_mem m (vmr_gpa vmr) (PAGE_SIZE pf) ?k ?inp) mem"
    using assms(4) by (rule restored_mem_agree)
  ultimately show ?thesis using u by auto
qed

lemma restore_mem_from_ranges:
  assumes "\<forall>a. \<not> wfails a" and "PAGE_SIZE pf \<noteq> 0"
    and "\<forall>j < vcp_nmemranges vcp. unat (PAGE_SIZE pf) dvd unat (vmr_size (vcp_memranges vcp ! j))"
  shows "mem_agree S m mem \<Longrightarrow>
     \<exists>m'. restore_mem_from wfails pf vcp i
            (m, dumped_ranges mem (PAGE_SIZE pf)
                  (map ((!) (vcp_memranges vcp)) [i..<vcp_nmemranges vcp]) @ rest) =
            Some (Done (m', rest)) \<and>
          mem_agree (S \<union> (\<Union>j\<in>{i..<vcp_nmemranges vcp}.
                       block (vmr_gpa (vcp_memranges vcp ! j))
                             (unat (vmr_size (vcp_memranges vcp ! j))))) m' mem"
proof (induction "vcp_nmemranges vcp - i" arbitrary: i m S)
  case 0
  then have "\<not> i < vcp_nmemranges vcp" by simp
  then show ?case using 0
    by (subst restore_mem_from.simps) (simp add: dumped_ranges_def)
next
  case (Suc d)
  then have lt: "i < vcp_nmemranges vcp" and d: "d = vcp_nmemranges vcp - Suc i" by simp_all
  let ?r = "vcp_memranges vcp ! i"
  let ?rest = "dumped_ranges mem (PAGE_SIZE pf)
      (map ((!) (vcp_memranges vcp)) [Suc i..<vcp_nmemranges vcp]) @ rest"
  have dv: "unat (PAGE_SIZE pf) dvd unat (vmr_size ?r)" using assms(3) lt by simp
  have up: "[i..<vcp_nmemranges vcp] = i # [Suc i..<vcp_nmemranges vcp]"
    using lt by (simp add: upt_conv_Cons)
  obtain m1 where one: "restore_vmr wfails pf ?r
        (m, dumped_pages mem (vmr_gpa ?r) (PAGE_SIZE pf)
              (unat (vmr_size ?r) div unat (PAGE_SIZE pf)) @ ?rest) = Some (Done (m1, ?rest))"
    and a1: "mem_agree (S \<union> block (vmr_gpa ?r) (unat (vmr_size ?r))) m1 mem"
    using restore_vmr_pages[OF assms(1,2) dv Suc.prems, of ?rest] by blast
  have step: "restore_mem_from wfails pf vcp i
        (m, dumped_ranges mem (PAGE_SIZE pf)
              (map ((!) (vcp_memranges vcp)) [i..<vcp_nmemranges vcp]) @ rest) =
      restore_mem_from wfails pf vcp (Suc i) (m1, ?rest)"
    by (subst restore_mem_from.simps) (simp add: lt up dumped_ranges_Cons one)
  obtain m' where r: "restore_mem_from wfails pf vcp (Suc i) (m1, ?rest) = Some (Done (m', rest))"
    and a2: "mem_agree ((S \<union> block (vmr_gpa ?r) (unat (vmr_size ?r))) \<union>
        (\<Union>j\<in>{Suc i..<vcp_nmemranges vcp}.
            block (vmr_gpa (vcp_memranges vcp ! j))
                  (unat (vmr_size (vcp_memranges vcp ! j))))) m' mem"
    using Suc.hyps(1)[OF d a1] by blast
  have "{i..<vcp_nmemranges vcp} = insert i {Suc i..<vcp_nmemranges vcp}"
    using lt by auto
  then have "S \<union> (\<Union>j\<in>{i..<vcp_nmemranges vcp}.
        block (vmr_gpa (vcp_memranges vcp ! j)) (unat (vmr_size (vcp_memranges vcp ! j)))) =
      (S \<union> block (vmr_gpa ?r) (unat (vmr_size ?r))) \<union>
        (\<Union>j\<in>{Suc i..<vcp_nmemranges vcp}.
            block (vmr_gpa (vcp_memranges vcp ! j))
                  (unat (vmr_size (vcp_memranges vcp ! j))))"
    by auto
  then show ?case unfolding step using r a2 by simp
qed

lemma dump_restore_mem:
  assumes "\<forall>a. \<not> read_mem_fails env a" and "\<forall>k. \<not> write_fails env k"
    and "\<forall>a. \<not> wfails a" and "PAGE_SIZE pf \<noteq> 0"
    and "vcp = vmc_params (vm_params vm)"
    and "\<forall>j < vcp_nmemranges vcp. unat (PAGE_SIZE pf) dvd unat (vmr_size (vcp_memranges vcp ! j))"
  shows "\<exists>fd' m'. dump_mem env pf mem vm fd = Some (0, fd') \<and>
           restore_mem wfails pf vcp (m, drop (length (out_bytes fd)) (out_bytes fd') @ rest) =
             Some (Done (m', rest)) \<and>
           (\<forall>j < vcp_nmemranges vcp.
              mem_bytes m' (vmr_gpa (vcp_memranges vcp ! j)) (unat (vmr_size (vcp_memranges vcp ! j))) =
              mem_bytes mem (vmr_gpa (vcp_memranges vcp ! j)) (unat (vmr_size (vcp_memranges vcp ! j))))"
proof -
  let ?bytes = "dumped_ranges mem (PAGE_SIZE pf)
      (map ((!) (vcp_memranges vcp)) [0..<vcp_nmemranges vcp])"
  obtain fd' where d: "dump_mem_from env pf mem vcp 0 fd = Some (0, fd')"
    and o: "out_bytes fd' = out_bytes fd @ ?bytes"
    using dump_mem_from_ranges[OF assms(1,2,4,6), of mem 0 fd] by blast
  have "mem_agree {} m mem" by (simp add: mem_agree_def)
  from restore_mem_from_ranges[OF assms(3,4,6) this, of 0 rest]
  obtain m' where r: "restore_mem_from wfails pf vcp 0 (m, ?bytes @ rest) = Some (Done (m', rest))"
    and a: "mem_agree ({} \<union> (\<Union>j\<in>{0..<vcp_nmemranges vcp}.
              block (vmr_gpa (vcp_memranges vcp ! j))
                    (unat (vmr_size (vcp_memranges vcp ! j))))) m' mem"
    by blast
  have "\<forall>j < vcp_nmemranges vcp.
      mem_bytes m' (vmr_gpa (vcp_memranges vcp ! j)) (unat (vmr_size (vcp_memranges vcp ! j))) =
      mem_bytes mem (vmr_gpa (vcp_memranges vcp ! j)) (unat (vmr_size (vcp_memranges vcp ! j)))"
  proof (intro allI impI)
    fix j assume j: "j < vcp_nmemranges vcp"
    let ?r = "vcp_memranges vcp ! j"
    have "block (vmr_gpa ?r) (unat (vmr_size ?r)) \<subseteq>
        {} \<union> (\<Union>j\<in>{0..<vcp_nmemranges vcp}.
              block (vmr_gpa (vcp_memranges vcp ! j))
                    (unat (vmr_size (vcp_memranges vcp ! j))))"
      using j by auto
    with a have "mem_agree (block (vmr_gpa ?r) (unat (vmr_size ?r))) m' mem"
      by (rule mem_agree_mono)
    moreover have "unat (vmr_size ?r) \<le> 2 ^ 64"
      using unsigned_less[of "vmr_size ?r", where 'a = nat] by simp
    ultimately show "mem_bytes m' (vmr_gpa ?r) (unat (vmr_size ?r)) =
        mem_bytes mem (vmr_gpa ?r) (unat (vmr_size ?r))"
      by (rule mem_agree_block_bytes)
  qed
  then show ?thesis using d o r assms(5)
    by (simp add: dump_mem_def restore_mem_def)
qed

section \<open>Pausing\<close>

lemmas proc_defs = pt_fail_at_def vm_two_cpus_def proc_running_def proc_paused_def all_zero_def

lemmas pause_defs = pause_vm_def unpause_vm_def mutex_lock_def mutex_unlock_def pt_call_def
  emit_def set_vm_state_def broadcast_from.simps VM_STATE_PAUSED_def
  PTHREAD_BARRIER_SERIAL_THREAD_def

lemma broadcast_from_ok:
  "\<forall>k. length (p_trace st) \<le> k \<and> k < length (p_trace st) + (ncpus - n) \<longrightarrow> pt k = 0 \<Longrightarrow>
   broadcast_from pt mk ncpus n st =
     (False, st\<lparr>p_trace := p_trace st @ map (\<lambda>j. Cond_broadcast (mk j)) [n..<ncpus]\<rparr>)"
proof (induction "ncpus - n" arbitrary: n st)
  case 0
  then show ?case by (subst broadcast_from.simps) simp
next
  case (Suc d)
  then have lt: "n < ncpus" by simp
  have z: "pt (length (p_trace st)) = 0" using Suc.prems lt by simp
  let ?st1 = "emit (Cond_broadcast (mk n)) st"
  have step: "broadcast_from pt mk ncpus n st = broadcast_from pt mk ncpus (Suc n) ?st1"
    by (subst broadcast_from.simps) (use lt z in \<open>simp add: pt_call_def\<close>)
  have "\<forall>k. length (p_trace ?st1) \<le> k \<and> k < length (p_trace ?st1) + (ncpus - Suc n) \<longrightarrow> pt k = 0"
    using Suc.prems lt by (auto simp: emit_def)
  moreover have "d = ncpus - Suc n" using Suc.hyps(2) by simp
  ultimately have "broadcast_from pt mk ncpus (Suc n) ?st1 =
     (False, ?st1\<lparr>p_trace := p_trace ?st1 @ map (\<lambda>j. Cond_broadcast (mk j)) [Suc n..<ncpus]\<rparr>)"
    by (rule Suc.hyps(1)[rotated])
  then show ?case unfolding step using lt by (simp add: emit_def upt_conv_Cons)
qed

text \<open>
  C5, as the code has it. When the VM is already paused, \<^verbatim>\<open>pause_vm\<close> only takes and
  releases \<^verbatim>\<open>vm_mtx\<close>: the flag is unchanged and no barrier is created. Otherwise, and
  when every pthread call it makes succeeds (the barrier wait may also return
  \<^verbatim>\<open>PTHREAD_BARRIER_SERIAL_THREAD\<close>), it does exactly this, in this order: lock
  \<^verbatim>\<open>vm_mtx\<close>, set the paused flag, unlock, initialise the barrier for \<open>n + 1\<close> parties,
  broadcast the run condition of each VCPU from 0 to \<open>n - 1\<close>, wait on the barrier,
  destroy it, call \<^verbatim>\<open>pause_vm_md\<close>. The barrier is created and destroyed within the one
  call.
\<close>

theorem pause_vm_sequence:
  assumes "t0 = length (p_trace st)"
    and "n = vcp_ncpus (vmc_params (vm_params (p_vm st)))"
    and "v = vm_state (p_vm st)"
  shows "(v AND VM_STATE_PAUSED \<noteq> 0 \<longrightarrow> pt t0 = 0 \<longrightarrow> pt (t0 + 1) = 0 \<longrightarrow>
            pause_vm pt st =
              Done (st\<lparr>p_trace := p_trace st @ [Mutex_lock Vm_mtx, Mutex_unlock Vm_mtx]\<rparr>)) \<and>
         (v AND VM_STATE_PAUSED = 0 \<longrightarrow> (\<forall>k. k \<noteq> t0 + 4 + n \<longrightarrow> pt k = 0) \<longrightarrow>
          (pt (t0 + 4 + n) = 0 \<or> pt (t0 + 4 + n) = PTHREAD_BARRIER_SERIAL_THREAD) \<longrightarrow>
            pause_vm pt st =
              Done (st\<lparr>p_vm := (p_vm st)\<lparr>vm_state := v OR VM_STATE_PAUSED\<rparr>,
                       p_trace := p_trace st @
                         [Mutex_lock Vm_mtx, Set_vm_state (v OR VM_STATE_PAUSED),
                          Mutex_unlock Vm_mtx, Barrier_init (n + 1)] @
                         map (\<lambda>j. Cond_broadcast (Vcpu_run_cond j)) [0..<n] @
                         [Barrier_wait, Barrier_destroy, Pause_vm_md]\<rparr>))"
proof (intro conjI impI)
  assume "v AND VM_STATE_PAUSED \<noteq> 0" "pt t0 = 0" "pt (t0 + 1) = 0"
  then show "pause_vm pt st =
      Done (st\<lparr>p_trace := p_trace st @ [Mutex_lock Vm_mtx, Mutex_unlock Vm_mtx]\<rparr>)"
    using assms by (simp add: pause_vm_def mutex_lock_def mutex_unlock_def pt_call_def emit_def)
next
  assume np: "v AND VM_STATE_PAUSED = 0"
    and z: "\<forall>k. k \<noteq> t0 + 4 + n \<longrightarrow> pt k = 0"
    and w: "pt (t0 + 4 + n) = 0 \<or> pt (t0 + 4 + n) = PTHREAD_BARRIER_SERIAL_THREAD"
  let ?v' = "v OR VM_STATE_PAUSED"
  let ?vm' = "(p_vm st)\<lparr>vm_state := ?v'\<rparr>"
  let ?st1 = "emit (Mutex_lock Vm_mtx) st"
  let ?st2 = "emit (Mutex_unlock Vm_mtx) (set_vm_state ?v' ?st1)"
  let ?st3 = "emit (Barrier_init (n + 1)) ?st2"
  let ?st4 = "?st3\<lparr>p_trace := p_trace ?st3 @ map (\<lambda>j. Cond_broadcast (Vcpu_run_cond j)) [0..<n]\<rparr>"
  have l3: "length (p_trace ?st3) = t0 + 4" using assms(1) by (simp add: emit_def set_vm_state_def)
  have a: "mutex_lock pt Vm_mtx st = Done ?st1"
    using z assms(1) by (simp add: mutex_lock_def pt_call_def)
  have b: "mutex_unlock pt Vm_mtx (set_vm_state ?v' ?st1) = Done ?st2"
    using z assms(1) by (simp add: mutex_unlock_def pt_call_def emit_def set_vm_state_def)
  have c: "pt_call pt (Barrier_init (n + 1)) ?st2 = (0, ?st3)"
    using z assms(1) by (simp add: pt_call_def emit_def set_vm_state_def)
  have "\<forall>k. length (p_trace ?st3) \<le> k \<and> k < length (p_trace ?st3) + (n - 0) \<longrightarrow> pt k = 0"
    using z l3 by simp
  then have d: "broadcast_from pt Vcpu_run_cond n 0 ?st3 = (False, ?st4)"
    by (rule broadcast_from_ok)
  have l4: "length (p_trace ?st4) = t0 + 4 + n" using l3 by simp
  have e: "pt_call pt Barrier_wait ?st4 = (pt (t0 + 4 + n), emit Barrier_wait ?st4)"
    using l4 by (simp add: pt_call_def)
  have f: "pt_call pt Barrier_destroy (emit Barrier_wait ?st4) =
           (0, emit Barrier_destroy (emit Barrier_wait ?st4))"
    using z l4 by (simp add: pt_call_def emit_def)
  have n1: "vcp_ncpus (vmc_params (vm_params (p_vm ?st1))) = n"
    "vm_state (p_vm ?st1) = v"
    using assms by (simp_all add: emit_def)
  have n2: "vcp_ncpus (vmc_params (vm_params (p_vm ?st2))) = n"
    "vcp_ncpus (vmc_params (vm_params (p_vm ?st3))) = n"
    using assms by (simp_all add: emit_def set_vm_state_def)
  have "pause_vm pt st = Done (emit Pause_vm_md (emit Barrier_destroy (emit Barrier_wait ?st4)))"
    unfolding pause_vm_def a exec.case n1 using np
    apply (simp only: if_False simp_thms b exec.case n2 c prod.case d e f)
    using w by auto
  also have "emit Pause_vm_md (emit Barrier_destroy (emit Barrier_wait ?st4)) =
      st\<lparr>p_vm := ?vm', p_trace := p_trace st @
                         [Mutex_lock Vm_mtx, Set_vm_state ?v',
                          Mutex_unlock Vm_mtx, Barrier_init (n + 1)] @
                         map (\<lambda>j. Cond_broadcast (Vcpu_run_cond j)) [0..<n] @
                         [Barrier_wait, Barrier_destroy, Pause_vm_md]\<rparr>"
    by (simp add: emit_def set_vm_state_def)
  finally show "pause_vm pt st =
              Done (st\<lparr>p_vm := (p_vm st)\<lparr>vm_state := v OR VM_STATE_PAUSED\<rparr>,
                       p_trace := p_trace st @
                         [Mutex_lock Vm_mtx, Set_vm_state (v OR VM_STATE_PAUSED),
                          Mutex_unlock Vm_mtx, Barrier_init (n + 1)] @
                         map (\<lambda>j. Cond_broadcast (Vcpu_run_cond j)) [0..<n] @
                         [Barrier_wait, Barrier_destroy, Pause_vm_md]\<rparr>)" .
qed

theorem pause_vm_sequence_witness:
  "vm_state (p_vm proc_paused) AND VM_STATE_PAUSED \<noteq> 0 \<and>
   pause_vm all_zero proc_paused =
     Done (proc_paused\<lparr>p_trace := [Mutex_lock Vm_mtx, Mutex_unlock Vm_mtx]\<rparr>) \<and>
   vm_state (p_vm proc_running) AND VM_STATE_PAUSED = 0 \<and>
   pause_vm all_zero proc_running =
     Done \<lparr>p_vm = vm_two_cpus\<lparr>vm_state := VM_STATE_PAUSED\<rparr>,
           p_trace = [Mutex_lock Vm_mtx, Set_vm_state VM_STATE_PAUSED, Mutex_unlock Vm_mtx,
                      Barrier_init 3, Cond_broadcast (Vcpu_run_cond 0),
                      Cond_broadcast (Vcpu_run_cond 1), Barrier_wait, Barrier_destroy,
                      Pause_vm_md]\<rparr>"
proof -
  have p: "vm_state (p_vm proc_paused) AND VM_STATE_PAUSED \<noteq> 0"
    by (simp add: proc_defs VM_STATE_PAUSED_def)
  have r: "vm_state (p_vm proc_running) AND VM_STATE_PAUSED = 0"
    by (simp add: proc_defs mk_vm_def)
  have z: "\<And>k. all_zero k = 0" by (simp add: all_zero_def)
  have n: "vcp_ncpus (vmc_params (vm_params (p_vm proc_running))) = 2"
    by (simp add: proc_defs mk_vm_def)
  have v: "vm_state (p_vm proc_running) = 0" by (simp add: proc_defs mk_vm_def)
  have l: "p_trace proc_running = []" "p_trace proc_paused = []" by (simp_all add: proc_defs)
  from pause_vm_sequence[OF refl refl refl, of proc_paused all_zero, THEN conjunct1] p z
  have a: "pause_vm all_zero proc_paused =
     Done (proc_paused\<lparr>p_trace := [Mutex_lock Vm_mtx, Mutex_unlock Vm_mtx]\<rparr>)"
    by (simp add: l)
  from pause_vm_sequence[OF refl refl refl, of proc_running all_zero, THEN conjunct2] r z
  have "pause_vm all_zero proc_running =
     Done (proc_running\<lparr>p_vm := (p_vm proc_running)\<lparr>vm_state := 0 OR VM_STATE_PAUSED\<rparr>,
           p_trace := [] @ [Mutex_lock Vm_mtx, Set_vm_state (0 OR VM_STATE_PAUSED), Mutex_unlock Vm_mtx,
                      Barrier_init (2 + 1)] @ map (\<lambda>j. Cond_broadcast (Vcpu_run_cond j)) [0..<2] @
                      [Barrier_wait, Barrier_destroy, Pause_vm_md]\<rparr>)"
    by (simp only: n v l) simp
  then have b: "pause_vm all_zero proc_running =
     Done \<lparr>p_vm = vm_two_cpus\<lparr>vm_state := VM_STATE_PAUSED\<rparr>,
           p_trace = [Mutex_lock Vm_mtx, Set_vm_state VM_STATE_PAUSED, Mutex_unlock Vm_mtx,
                      Barrier_init 3, Cond_broadcast (Vcpu_run_cond 0),
                      Cond_broadcast (Vcpu_run_cond 1), Barrier_wait, Barrier_destroy,
                      Pause_vm_md]\<rparr>"
    by (simp add: proc_running_def upt_conv_Cons numeral_2_eq_2)
  show ?thesis using p r a b by simp
qed

text \<open>
  The claim C5 as stated fails on the code: when \<^verbatim>\<open>pthread_barrier_init\<close> fails, the
  flag has been set, but nothing is broadcast, nobody waits and \<^verbatim>\<open>pause_vm_md\<close> is not
  called.
\<close>

theorem pause_vm_stops_at_failed_barrier_init:
  "vm_state (p_vm proc_running) AND VM_STATE_PAUSED = 0 \<and>
   pause_vm (pt_fail_at 3) proc_running =
     Done \<lparr>p_vm = vm_two_cpus\<lparr>vm_state := VM_STATE_PAUSED\<rparr>,
           p_trace = [Mutex_lock Vm_mtx, Set_vm_state VM_STATE_PAUSED, Mutex_unlock Vm_mtx,
                      Barrier_init 3]\<rparr>"
  by (simp add: proc_defs pause_defs mk_vm_def)

section \<open>Sending a VM\<close>

lemmas send_defs = send_vm_def send_vm_dump_def send_vm_mem_devs_def send_vm_params_term_def
  collaborator_def dispatch_send_vm_def env_header_fails_def env_vmc_write_fails_def
  atomicio_vwrite_def


text \<open>
  C9. When \<^verbatim>\<open>dump_send_header\<close> fails, \<^verbatim>\<open>send_vm\<close> returns 0: the jump to \<^verbatim>\<open>err\<close>
  is taken while \<^verbatim>\<open>ret\<close> still is 0, so the descriptor is closed, the VM is neither
  paused nor unpaused, nothing but what the header routine wrote is in the stream, and
  \<^verbatim>\<open>vm_dispatch_vmm\<close> answers the parent with result 0, flushes and exits with status 0.
\<close>

theorem send_vm_header_failure_returns_zero:
  assumes "fst (dump_send_header_res env) \<noteq> 0"
  shows "send_vm env pf mem fd st =
           Some (Done (0, fd\<lparr>out_bytes := out_bytes fd @ snd (dump_send_header_res env)\<rparr>,
                       emit Close_fd st)) \<and>
         dispatch_send_vm env pf mem fd st =
           Some (Done (Process_exit 0,
                       fd\<lparr>out_bytes := out_bytes fd @ snd (dump_send_header_res env)\<rparr>,
                       emit Imsg_flush (emit (Imsg_send_vm_response (vm_vmid (p_vm st)) 0)
                         (emit Close_fd st))))"
proof -
  have d: "send_vm_dump env pf mem fd st =
      Some (Done (0, fd\<lparr>out_bytes := out_bytes fd @ snd (dump_send_header_res env)\<rparr>, st))"
    using assms by (simp add: send_vm_dump_def collaborator_def)
  have s: "send_vm env pf mem fd st =
      Some (Done (0, fd\<lparr>out_bytes := out_bytes fd @ snd (dump_send_header_res env)\<rparr>,
                  emit Close_fd st))"
    by (simp add: send_vm_def d)
  show ?thesis using s by (simp add: dispatch_send_vm_def Let_def)
qed

theorem send_vm_header_failure_returns_zero_witness:
  "fst (dump_send_header_res env_header_fails) \<noteq> 0 \<and>
   send_vm env_header_fails pf_amd64 gmem_zero fd_empty proc_running =
     Some (Done (0, fd_empty, proc_running\<lparr>p_trace := [Close_fd]\<rparr>)) \<and>
   dispatch_send_vm env_header_fails pf_amd64 gmem_zero fd_empty proc_running =
     Some (Done (Process_exit 0, fd_empty,
       proc_running\<lparr>p_trace := [Close_fd, Imsg_send_vm_response 1 0, Imsg_flush]\<rparr>))"
proof -
  have h: "fst (dump_send_header_res env_header_fails) \<noteq> 0"
    by (simp add: env_header_fails_def)
  from send_vm_header_failure_returns_zero[OF h, of pf_amd64 gmem_zero fd_empty proc_running]
  show ?thesis using h
    by (simp add: env_header_fails_def emit_def fd_empty_def proc_running_def vm_two_cpus_def
        mk_vm_def)
qed

lemma p_vm_emit [simp]: "p_vm (emit ev st) = p_vm st"
  by (simp add: emit_def)

lemma p_vm_set_vm_state [simp]: "p_vm (set_vm_state v st) = (p_vm st)\<lparr>vm_state := v\<rparr>"
  by (simp add: set_vm_state_def)

lemma broadcast_from_vm:
  "p_vm (snd (broadcast_from pt mk ncpus n st)) = p_vm st"
proof (induction pt mk ncpus n st rule: broadcast_from.induct)
  case (1 pt mk ncpus n st)
  show ?case
  proof (cases "n < ncpus")
    case False
    then show ?thesis by (subst broadcast_from.simps) simp
  next
    case True
    show ?thesis
    proof (cases "pt (length (p_trace st)) = 0")
      case z: True
      have "broadcast_from pt mk ncpus n st =
            broadcast_from pt mk ncpus (Suc n) (emit (Cond_broadcast (mk n)) st)"
        by (subst broadcast_from.simps) (use True z in \<open>simp add: pt_call_def\<close>)
      moreover have pc: "(0, emit (Cond_broadcast (mk n)) st) = pt_call pt (Cond_broadcast (mk n)) st"
        using z by (simp add: pt_call_def)
      have "p_vm (snd (broadcast_from pt mk ncpus (Suc n) (emit (Cond_broadcast (mk n)) st)))
          = p_vm (emit (Cond_broadcast (mk n)) st)"
        by (rule "1.IH"[OF True pc]) simp
      ultimately show ?thesis by (simp add: emit_def)
    next
      case False
      then show ?thesis
        by (subst broadcast_from.simps) (use True in \<open>simp add: pt_call_def emit_def\<close>)
    qed
  qed
qed

lemma paused_bit_cleared:
  fixes v :: "32 word"
  shows "(v AND NOT VM_STATE_PAUSED) AND VM_STATE_PAUSED = 0"
  by (simp add: and.assoc)

lemma unpause_vm_clears_flag:
  assumes "unpause_vm pt st = Done st'"
  shows "vm_state (p_vm st') AND VM_STATE_PAUSED = 0"
proof (cases "vm_state (p_vm st) AND VM_STATE_PAUSED = 0")
  case True
  then have "st' = emit (Mutex_unlock Vm_mtx) (emit (Mutex_lock Vm_mtx) st)"
    using assms
    by (auto simp: unpause_vm_def mutex_lock_def mutex_unlock_def pt_call_def
        split: if_splits)
  then show ?thesis using True by simp
next
  case False
  let ?st2 = "emit (Mutex_unlock Vm_mtx)
      (set_vm_state (vm_state (p_vm st) AND NOT VM_STATE_PAUSED) (emit (Mutex_lock Vm_mtx) st))"
  obtain failed st3 where b: "broadcast_from pt Vcpu_unpause_cond
      (vcp_ncpus (vmc_params (vm_params (p_vm ?st2)))) 0 ?st2 = (failed, st3)"
    by force
  have "p_vm (snd (failed, st3)) = p_vm ?st2"
    unfolding b[symmetric] by (rule broadcast_from_vm)
  then have v3: "p_vm st3 = p_vm ?st2" by simp
  have "st' = st3 \<or> st' = emit Unpause_vm_md st3"
    using assms False b
    by (auto simp: unpause_vm_def mutex_lock_def mutex_unlock_def pt_call_def
        split: if_splits)
  then have "p_vm st' = p_vm ?st2" using v3 by auto
  then show ?thesis by (simp add: paused_bit_cleared)
qed

text \<open>
  Whenever \<^verbatim>\<open>send_vm\<close> returns a value other than 0, it has called \<^verbatim>\<open>unpause_vm\<close>
  and the paused flag is clear.
\<close>

lemma send_vm_failure_unpauses:
  assumes "send_vm env pf mem fd st = Some (Done (ret, fd', st'))" and "ret \<noteq> 0"
  shows "vm_state (p_vm st') AND VM_STATE_PAUSED = 0"
proof -
  obtain st1 where "unpause_vm (pt_res env) (emit Close_fd st1) = Done st'"
    using assms
    by (auto simp: send_vm_def split: option.splits exec.splits if_splits)
  then show ?thesis by (rule unpause_vm_clears_flag)
qed

text \<open>
  \<^verbatim>\<open>send_vm\<close> returns 0 in two cases only: the header could not be written, or the dump
  ran to its end and \<^verbatim>\<open>VMM_IOC_TERM\<close> was issued.
\<close>

lemma send_vm_params_term_zero:
  assumes "send_vm_params_term env pf vcp fd st = (0, fd', st')"
  shows "Ioc_term (vcp_id vcp) \<in> set (p_trace st')"
  using assms
  by (auto simp: send_vm_params_term_def emit_def split: prod.splits if_splits)

lemma send_vm_mem_devs_zero:
  assumes "send_vm_mem_devs env pf mem vcp fd st = Some (0, fd', st')"
  shows "Ioc_term (vcp_id vcp) \<in> set (p_trace st')"
  using assms
  by (auto simp: send_vm_mem_devs_def split: option.splits prod.splits if_splits
      dest: send_vm_params_term_zero)

lemma send_vm_zero_cases:
  assumes "send_vm env pf mem fd st = Some (Done (0, fd', st'))"
  shows "fst (dump_send_header_res env) \<noteq> 0 \<or> (\<exists>vid. Ioc_term vid \<in> set (p_trace st'))"
proof (cases "fst (dump_send_header_res env) \<noteq> 0")
  case True
  then show ?thesis ..
next
  case False
  obtain st1 where d: "send_vm_dump env pf mem fd st = Some (Done (0, fd', st1))"
    and s: "st' = emit Close_fd st1"
    using assms by (auto simp: send_vm_def split: option.splits exec.splits if_splits)
  obtain vcp fd2 st2 where "send_vm_mem_devs env pf mem vcp fd2 st2 = Some (0, fd', st1)"
    using d False
    by (auto simp: send_vm_dump_def collaborator_def Let_def
        split: prod.splits exec.splits if_splits)
  then have "Ioc_term (vcp_id vcp) \<in> set (p_trace st1)" by (rule send_vm_mem_devs_zero)
  then show ?thesis using s by (auto simp: emit_def)
qed

text \<open>
  C6 on the code, at the failing step that the claim gets wrong. The VM was paused before
  the request; writing the header fails. \<^verbatim>\<open>send_vm\<close> returns 0 as if the dump had
  succeeded, \<^verbatim>\<open>unpause_vm\<close> is not called, the VM still is paused, and the dispatcher
  reports success to the parent and exits.
\<close>

theorem send_vm_header_failure_not_unpaused:
  "send_vm env_header_fails pf_amd64 gmem_zero fd_empty proc_paused =
     Some (Done (0, fd_empty, proc_paused\<lparr>p_trace := [Close_fd]\<rparr>)) \<and>
   vm_state (p_vm proc_paused) AND VM_STATE_PAUSED \<noteq> 0 \<and>
   dispatch_send_vm env_header_fails pf_amd64 gmem_zero fd_empty proc_paused =
     Some (Done (Process_exit 0, fd_empty,
       proc_paused\<lparr>p_trace := [Close_fd, Imsg_send_vm_response 1 0, Imsg_flush]\<rparr>))"
  by (simp add: send_defs io_defs proc_defs emit_def mk_vm_def VM_STATE_PAUSED_def Let_def)

text \<open>
  The sibling failure: when the write of the creation parameters fails, \<^verbatim>\<open>send_vm\<close>
  returns -1, unpauses the VM it had paused, and the process goes on.
\<close>

lemma send_vm_vmc_failure_unpauses:
  "send_vm env_vmc_write_fails pf_amd64 gmem_zero fd_empty proc_running =
     Some (Done (- 1, fd_empty\<lparr>out_calls := 1\<rparr>,
       \<lparr>p_vm = vm_two_cpus,
        p_trace = [Mutex_lock Vm_mtx, Set_vm_state VM_STATE_PAUSED, Mutex_unlock Vm_mtx,
                   Barrier_init 3, Cond_broadcast (Vcpu_run_cond 0),
                   Cond_broadcast (Vcpu_run_cond 1), Barrier_wait, Barrier_destroy,
                   Pause_vm_md, Close_fd,
                   Mutex_lock Vm_mtx, Set_vm_state 0, Mutex_unlock Vm_mtx,
                   Cond_broadcast (Vcpu_unpause_cond 0), Cond_broadcast (Vcpu_unpause_cond 1),
                   Unpause_vm_md]\<rparr>))"
  by (simp add: send_defs io_defs proc_defs pause_defs mk_vm_def Let_def)

section \<open>The VCPU thread\<close>

lemmas run_defs = vcpu_run_loop_def vcpu_run_loop_from.simps vcpu_run_iter_def vcpu_run_once_def
  vcpu_halt_wait_def vcpu_pause_wait_def vcpu_run_exit_def mutex_lock_def mutex_unlock_def
  pt_call_def emit_def PTHREAD_BARRIER_SERIAL_THREAD_def Let_def

lemmas run_example_defs = no_exit_def terminated_def no_errno_def zero_nat_def
  env_run_terminates_def env_run_lock_fails_def env_run_barrier_fails_def vcpu_start_def
  all_zero_def never_def always_def pt_fail_at_def

text \<open>
  Leaving the loop with \<^verbatim>\<open>break\<close>: the thread sets its done flag under \<^verbatim>\<open>vm_mtx\<close>,
  signals \<^verbatim>\<open>threadcond\<close> under \<^verbatim>\<open>threadmutex\<close> and returns \<^verbatim>\<open>ret\<close>.
\<close>

lemma vcpu_run_exit_marks_done:
  assumes "vcpu_run_exit env n ret st = Done (r, st')"
  shows "r = ret \<and> p_done st' = insert n (p_done st) \<and>
         p_trace st' = p_trace st @
           [Mutex_lock Vm_mtx, Set_vcpu_done n, Mutex_unlock Vm_mtx,
            Mutex_lock Threadmutex, Cond_signal Threadcond, Mutex_unlock Threadmutex]"
  using assms
  by (auto simp: vcpu_run_exit_def mutex_lock_def mutex_unlock_def pt_call_def emit_def
      split: if_splits)

text \<open>
  Leaving the function from inside the loop: this happens at three calls only, a failed
  lock of \<^verbatim>\<open>vcpu_run_mtx[n]\<close>, a failed wait on the pause barrier and a failed lock of
  \<^verbatim>\<open>vcpu_unpause_mtx[n]\<close>; the done flags are as they were.
\<close>

lemma vcpu_pause_wait_Return:
  assumes "vcpu_pause_wait env n st = Return ret st'"
  shows "ret \<noteq> 0 \<and> p_done st' = p_done st \<and>
         last (p_trace st') \<in> {Barrier_wait, Mutex_lock (Vcpu_unpause_mtx n)}"
  using assms
  by (auto simp: vcpu_pause_wait_def mutex_lock_def mutex_unlock_def pt_call_def emit_def
      split: if_splits)

lemma vcpu_run_iter_Return:
  assumes "vcpu_run_iter env n k st = Return ret st'"
  shows "ret \<noteq> 0 \<and> p_done st' = p_done st \<and>
         last (p_trace st') \<in>
           {Mutex_lock (Vcpu_run_mtx n), Barrier_wait, Mutex_lock (Vcpu_unpause_mtx n)}"
proof (cases "run_pt env (length (p_trace st)) = 0")
  case False
  then have "st' = emit (Mutex_lock (Vcpu_run_mtx n)) st" "ret \<noteq> 0"
    using assms by (auto simp: vcpu_run_iter_def pt_call_def)
  then show ?thesis by (simp add: emit_def)
next
  case True
  let ?st3 = "emit (Mutex_unlock Vm_mtx) (emit (Mutex_lock Vm_mtx)
                (emit (Mutex_lock (Vcpu_run_mtx n)) st))"
  have d3: "p_done ?st3 = p_done st" by (simp add: emit_def)
  have "vcpu_pause_wait env n ?st3 = Return ret st'"
    using assms True
    by (auto simp: vcpu_run_iter_def vcpu_halt_wait_def vcpu_run_once_def mutex_lock_def
        mutex_unlock_def pt_call_def Let_def
        split: if_splits step.splits option.splits)
  from vcpu_pause_wait_Return[OF this] d3 show ?thesis by auto
qed

lemma vcpu_run_loop_from_Done:
  assumes "vcpu_run_loop_from env n k st = Some y"
  shows "\<forall>ret st'. y = Done (ret, st') \<longrightarrow>
           (\<exists>st0. vcpu_run_exit env n ret st0 = Done (ret, st')) \<or>
           (\<exists>k' st0. vcpu_run_iter env n k' st0 = Return ret st')"
proof (rule vcpu_run_loop_from.raw_induct[where P = "\<lambda>env n k st y.
    \<forall>ret st'. y = Done (ret, st') \<longrightarrow>
           (\<exists>st0. vcpu_run_exit env n ret st0 = Done (ret, st')) \<or>
           (\<exists>k' st0. vcpu_run_iter env n k' st0 = Return ret st')", OF _ assms])
  fix loop env n k and st :: vcpu_proc and y :: "(int \<times> vcpu_proc) exec"
  assume IH: "\<And>env n k st y. loop env n k st = Some y \<Longrightarrow>
      \<forall>ret st'. y = Done (ret, st') \<longrightarrow>
           (\<exists>st0. vcpu_run_exit env n ret st0 = Done (ret, st')) \<or>
           (\<exists>k' st0. vcpu_run_iter env n k' st0 = Return ret st')"
    and b: "(case vcpu_run_iter env n k st of
        Go_on st1 \<Rightarrow> loop env n (Suc k) st1
      | Break ret st1 \<Rightarrow> Some (vcpu_run_exit env n ret st1)
      | Return ret st1 \<Rightarrow> Some (Done (ret, st1))
      | Abort m \<Rightarrow> Some (Fatal m)) = Some y"
  show "\<forall>ret st'. y = Done (ret, st') \<longrightarrow>
           (\<exists>st0. vcpu_run_exit env n ret st0 = Done (ret, st')) \<or>
           (\<exists>k' st0. vcpu_run_iter env n k' st0 = Return ret st')"
  proof (cases "vcpu_run_iter env n k st")
    case (Go_on st1)
    then show ?thesis using b IH by simp
  next
    case (Break r st1)
    then have y: "y = vcpu_run_exit env n r st1" using b by simp
    show ?thesis
    proof (intro allI impI)
      fix ret st' assume "y = Done (ret, st')"
      then have e: "vcpu_run_exit env n r st1 = Done (ret, st')" using y by simp
      then have "ret = r" using vcpu_run_exit_marks_done by blast
      then show "(\<exists>st0. vcpu_run_exit env n ret st0 = Done (ret, st')) \<or>
           (\<exists>k' st0. vcpu_run_iter env n k' st0 = Return ret st')"
        using e by blast
    qed
  next
    case (Return r st1)
    then show ?thesis using b by auto
  next
    case (Abort m)
    then show ?thesis using b by auto
  qed
qed

text \<open>
  So a thread that returns has either set its done flag and signalled the completion
  condition, or has returned from one of the three calls above with a non-zero status and
  without doing either.
\<close>

lemma vcpu_run_loop_returns:
  assumes "vcpu_run_loop env n st = Some (Done (ret, st'))"
  shows "(n \<in> p_done st' \<and>
          (\<exists>tr. p_trace st' = tr @
             [Mutex_lock Vm_mtx, Set_vcpu_done n, Mutex_unlock Vm_mtx,
              Mutex_lock Threadmutex, Cond_signal Threadcond, Mutex_unlock Threadmutex])) \<or>
         (ret \<noteq> 0 \<and>
          last (p_trace st') \<in>
            {Mutex_lock (Vcpu_run_mtx n), Barrier_wait, Mutex_lock (Vcpu_unpause_mtx n)})"
proof -
  have "vcpu_run_loop_from env n 0 st = Some (Done (ret, st'))"
    using assms by (simp add: vcpu_run_loop_def)
  from vcpu_run_loop_from_Done[OF this]
  consider st0 where "vcpu_run_exit env n ret st0 = Done (ret, st')"
    | k' st0 where "vcpu_run_iter env n k' st0 = Return ret st'"
    by blast
  then show ?thesis
  proof cases
    case 1
    from vcpu_run_exit_marks_done[OF this] show ?thesis by auto
  next
    case 2
    from vcpu_run_iter_Return[OF this] show ?thesis by auto
  qed
qed

text \<open>
  C8 on the code, at an exit path that the claim gets wrong: the lock of
  \<^verbatim>\<open>vcpu_run_mtx[0]\<close> fails in the first iteration. The thread returns the error, its
  done flag is not set, and \<^verbatim>\<open>threadcond\<close> is not signalled.
\<close>

theorem vcpu_run_loop_returns_without_done:
  "vcpu_run_loop env_run_lock_fails 0 vcpu_start =
     Some (Done (35, \<lparr>p_vm = vm_two_cpus, p_trace = [Mutex_lock (Vcpu_run_mtx 0)],
                      p_done = {}\<rparr>))"
  by (simp add: run_defs run_example_defs)

text \<open>
  The same for a failing wait on the pause barrier; and, for comparison, the normal
  termination, where the flag is set and the condition signalled.
\<close>

lemma vcpu_run_loop_barrier_failure:
  "vcpu_run_loop env_run_barrier_fails 0 vcpu_start =
     Some (Done (35, \<lparr>p_vm = vm_two_cpus,
                      p_trace = [Mutex_lock (Vcpu_run_mtx 0), Mutex_lock Vm_mtx,
                                 Mutex_unlock Vm_mtx, Barrier_wait],
                      p_done = {}\<rparr>))"
  by (simp add: run_defs run_example_defs)

lemma vcpu_run_loop_terminated:
  "vcpu_run_loop env_run_terminates 0 vcpu_start =
     Some (Done (0, \<lparr>p_vm = vm_two_cpus,
                     p_trace = [Mutex_lock (Vcpu_run_mtx 0), Mutex_lock Vm_mtx,
                                Mutex_unlock Vm_mtx, Mutex_unlock (Vcpu_run_mtx 0),
                                Ioc_run 0 VCPU_INJECT_NONE,
                                Mutex_lock Vm_mtx, Set_vcpu_done 0, Mutex_unlock Vm_mtx,
                                Mutex_lock Threadmutex, Cond_signal Threadcond,
                                Mutex_unlock Threadmutex],
                     p_done = {0}\<rparr>))"
  by (simp add: run_defs run_example_defs)

section \<open>Sending and restoring\<close>

lemmas recv_defs = gmem_ab_def vm_one_page_def proc_sending_def sent_stream_def no_devices_def
  env_recv_ok_def no_bytes_def proc_receiving_def received_def

lemma dump_vmr_one_page:
  assumes "\<forall>a. \<not> read_mem_fails env a" and "\<forall>k. \<not> write_fails env k"
    and "PAGE_SIZE pf = 4096" and "vmr_size vmr = 4096"
  shows "dump_vmr env pf mem vmr fd =
     Some (0, fd\<lparr>out_bytes := out_bytes fd @ mem_bytes mem (vmr_gpa vmr) 4096,
                 out_calls := Suc (out_calls fd)\<rparr>)"
  using assms
  by (simp add: dump_vmr_def dump_vmr_loop.simps atomicio_vwrite_def mem_bytes_def)

lemma restore_vmr_one_page:
  assumes "PAGE_SIZE pf = 4096" and "vmr_size vmr = 4096" and "\<not> wfails (vmr_gpa vmr)"
    and "4096 \<le> length inp"
  shows "restore_vmr wfails pf vmr (mem, inp) =
     Some (Done (mem_store mem (vmr_gpa vmr) (take 4096 inp), drop 4096 inp))"
  using assms
  by (simp add: restore_vmr_def restore_vmr_loop.simps atomicio_read_def)

lemma mem_bytes_ab: "mem_bytes gmem_ab a n = replicate n 0xAB"
  by (simp add: mem_bytes_def gmem_ab_def map_replicate_const)

lemmas send_eval = send_defs io_defs proc_defs pause_defs mk_vm_def mk_range_def Let_def
  recv_defs send_regs_from.simps send_vmparams_from.simps dump_mem_def dump_mem_from.simps
  dump_vmr_one_page vrp_image_def vpp_image_def le_bytes_def sizeof_vrp_def sizeof_vpp_def
  pf_amd64_def upt_conv_Cons mem_bytes_ab

lemmas recv_eval = start_vm_receive_def start_vm_sync_init_def start_vm_restore_def
  restore_mem_def restore_mem_from.simps restore_vmr_one_page restore_vm_params_def
  restore_vm_params_from.simps run_vm_start_def run_vm_vcpus_from.simps run_vm_sync_init_def
  atomicio_read_def VM_STATE_RECEIVED_def no_errno_def

text \<open>
  What \<^verbatim>\<open>send_vm\<close> writes for a VM with two VCPUs and one page of memory: the creation
  parameters, a register record for VCPU 0 and one for VCPU 1, the page, and a parameter
  record for each VCPU.
\<close>

lemma sent_stream_two_vcpus:
  "sent_stream 2 =
     replicate 4 0x56 @
     vrp_image 0 0 0x1f (replicate 8 1) @ vrp_image 0 1 0x1f (replicate 8 2) @
     replicate 4096 0xAB @
     vpp_image 0 0 3 (replicate 4 17) @ vpp_image 0 1 3 (replicate 4 18)"
  by (simp add: send_eval)

lemma sent_stream_one_vcpu:
  "sent_stream 1 =
     replicate 4 0x56 @ vrp_image 0 0 0x1f (replicate 8 1) @ replicate 4096 0xAB @
     vpp_image 0 0 3 (replicate 4 17)"
  by (simp add: send_eval)

text \<open>
  With one VCPU the receiving side reads the stream to its end and ends up with the
  registers, the memory and the parameters of the sender.
\<close>

lemma mem_bytes_mem_store:
  assumes "length bs < 2 ^ 64"
  shows "mem_bytes (mem_store mem gpa bs) gpa (length bs) = bs"
proof (rule nth_equalityI)
  show "length (mem_bytes (mem_store mem gpa bs) gpa (length bs)) = length bs"
    by (simp add: mem_bytes_def)
next
  fix k assume "k < length (mem_bytes (mem_store mem gpa bs) gpa (length bs))"
  then have k: "k < length bs" by (simp add: mem_bytes_def)
  then have "k < 2 ^ 64" using assms by simp
  then have "unat (word_of_nat k :: 64 word) = k" by (simp add: unat_of_nat)
  then show "mem_bytes (mem_store mem gpa bs) gpa (length bs) ! k = bs ! k"
    using k by (simp add: mem_bytes_def mem_store_def)
qed

lemma send_restore_one_vcpu:
  "fst (the_done (the (start_vm_receive env_recv_ok pf_amd64 (proc_receiving 1)))) = None \<and>
   r_inp (received 1) = [] \<and>
   r_regs (received 1) 0 = Some (snd (ioc_readregs env_send_ok 0)) \<and>
   r_params (received 1) 0 = Some (snd (ioc_readvmparams env_send_ok 0)) \<and>
   mem_bytes (r_mem (received 1)) 0x100000 4096 = mem_bytes gmem_ab 0x100000 4096"
proof -
  have "r_mem (received 1) = mem_store gmem_zero 0x100000 (replicate 4096 0xAB)"
    by (simp add: received_def sent_stream_one_vcpu recv_eval send_eval)
  moreover have "mem_bytes (mem_store gmem_zero 0x100000 (replicate 4096 (0xAB :: byte))) 0x100000
      (length (replicate 4096 (0xAB :: byte))) = replicate 4096 0xAB"
    by (rule mem_bytes_mem_store) simp
  ultimately have "mem_bytes (r_mem (received 1)) 0x100000 4096 = mem_bytes gmem_ab 0x100000 4096"
    by (simp add: mem_bytes_ab)
  then show ?thesis
    by (simp add: received_def sent_stream_one_vcpu recv_eval send_eval)
qed

text \<open>
  C1 on the code, with two VCPUs whose registers differ. \<^verbatim>\<open>send_vm\<close> has written a
  register record for each VCPU, but the receiving \<^verbatim>\<open>start_vm\<close> reads one record only
  and \<^verbatim>\<open>run_vm\<close> gives its register state to every VCPU: VCPU 1 ends up with the
  registers of VCPU 0. The stream is then read out of step: guest memory begins with the
  bytes of the second register record, and the VM parameters are bytes of the memory
  page.
\<close>

theorem send_restore_two_vcpus_differs:
  "snd (ioc_readregs env_send_ok 0) = replicate 8 1 \<and>
   snd (ioc_readregs env_send_ok 1) = replicate 8 2 \<and>
   r_regs (received 2) 1 = Some (replicate 8 1) \<and>
   gmem_ab 0x100000 = 0xAB \<and>
   r_mem (received 2) 0x100000 = 0 \<and>
   snd (ioc_readvmparams env_send_ok 0) = replicate 4 17 \<and>
   r_params (received 2) 0 = Some (replicate 4 0xAB)"
  by (simp add: received_def sent_stream_two_vcpus recv_eval send_eval mem_store_def)

text \<open>
  C2 on the code, on the same stream, into which \<^verbatim>\<open>send_vm\<close> has written two register
  records. What the receiving side hands to vmm(4), in this order: the two parameter
  records (\<^verbatim>\<open>restore_vm_params\<close> runs before \<^verbatim>\<open>run_vm\<close>), then for each VCPU a
  reset and a \<^verbatim>\<open>VMM_IOC_WRITEREGS\<close>, both with the register state of the first record.
  One register record has been read, not two: when all is done, as many bytes as one
  register record has are left unread, and what was read as memory and as parameters
  was read out of step.
\<close>

theorem restore_reads_one_register_record:
  "vcp_ncpus (vmc_params (vm_params (p_vm (proc_receiving 2)))) = 2 \<and>
   take (2 * sizeof_vrp pf_amd64) (r_inp (proc_receiving 2)) =
     vrp_image 0 0 0x1f (replicate 8 1) @ vrp_image 0 1 0x1f (replicate 8 2) \<and>
   filter is_vmm_write (p_trace (received 2)) =
     [Ioc_writevmparams 0 0 (replicate 4 0xAB) (replicate 4 0xAB),
      Ioc_writevmparams 0 1 [0, 0, 0, 0] [0, 0, 0, 0],
      Ioc_resetcpu 0 0 (replicate 8 1), Ioc_writeregs 0 0 0x1f (replicate 8 1),
      Ioc_resetcpu 0 1 (replicate 8 1), Ioc_writeregs 0 1 0x1f (replicate 8 1)] \<and>
   length (r_inp (received 2)) = sizeof_vrp pf_amd64"
  by (simp add: received_def sent_stream_two_vcpus recv_eval send_eval)

end
